(* ===== verification/Workhorse_Prelude.thy ===== *)
theory Workhorse_Prelude
  imports Complex_Main
begin

text \<open>
  Shared vocabulary of the development: the result type of fallible code, the contracts that
  several components provide (a cell that is written once, a machine that keeps an invariant or a
  settled cell), and generic facts on lists and options.

  \<^item> A JavaScript function that can throw is modelled with the sum type: \<open>Inl\<close> carries what is
    thrown, \<open>Inr\<close> what is returned.
  \<^item> The event loop runs one callback at a time, so a component is a state and a step function on
    events, and a run is a fold of the step function over the events in their order.
\<close>

type_synonym ('e, 'a) result = "'e + 'a"

definition bind_result :: "('e, 'a) result \<Rightarrow> ('a \<Rightarrow> ('e, 'b) result) \<Rightarrow> ('e, 'b) result" where
  "bind_result m f = (case m of Inl e \<Rightarrow> Inl e | Inr a \<Rightarrow> f a)"

lemma bind_result_simps [simp]:
  "bind_result (Inl e) f = Inl e"
  "bind_result (Inr a) f = f a"
  by (simp_all add: bind_result_def)

lemma bind_result_eq_Inr [simp]:
  "bind_result m f = Inr b \<longleftrightarrow> (\<exists>a. m = Inr a \<and> f a = Inr b)"
  by (cases m) simp_all

lemma bind_result_eq_Inl:
  "bind_result m f = Inl e \<longleftrightarrow> m = Inl e \<or> (\<exists>a. m = Inr a \<and> f a = Inl e)"
  by (cases m) auto

text \<open>\<open>guard_that c e\<close> is the statement \<^verbatim>\<open>if (!c) throw e\<close>.\<close>

definition guard_that :: "bool \<Rightarrow> 'e \<Rightarrow> ('e, unit) result" where
  "guard_that c e = (if c then Inr () else Inl e)"

lemma guard_that_simps [simp]:
  "guard_that True e = Inr ()"
  "guard_that False e = Inl e"
  by (simp_all add: guard_that_def)

lemma guard_that_eq_Inr [simp]: "guard_that c e = Inr u \<longleftrightarrow> c"
  by (simp add: guard_that_def)

lemma guard_that_eq_Inl [simp]: "guard_that c e = Inl e' \<longleftrightarrow> \<not> c \<and> e' = e"
  by (auto simp: guard_that_def)

text \<open>\<open>for_each f xs\<close> is the loop \<^verbatim>\<open>for (const x of xs) f(x)\<close> over a body that can throw.\<close>

fun for_each :: "('a \<Rightarrow> ('e, unit) result) \<Rightarrow> 'a list \<Rightarrow> ('e, unit) result" where
  "for_each f [] = Inr ()"
| "for_each f (x # xs) = bind_result (f x) (\<lambda>_. for_each f xs)"

lemma for_each_eq_Inr [simp]: "for_each f xs = Inr u \<longleftrightarrow> (\<forall>x \<in> set xs. f x = Inr ())"
  by (induction xs) auto

lemma bind_result_assoc:
  "bind_result (bind_result m f) g = bind_result m (\<lambda>x. bind_result (f x) g)"
  by (cases m) simp_all

lemma for_each_append:
  "for_each f (xs @ ys) = bind_result (for_each f xs) (\<lambda>_. for_each f ys)"
  by (induction xs) (simp_all add: bind_result_assoc)

lemma for_each_concat: "for_each f (concat xss) = for_each (for_each f) xss"
  by (induction xss) (simp_all add: for_each_append)

lemma for_each_map: "for_each f (map g xs) = for_each (\<lambda>x. f (g x)) xs"
  by (induction xs) simp_all

text \<open>\<^verbatim>\<open>xs.map(f)\<close> and \<^verbatim>\<open>xs.every(p)\<close> with a callback that can throw.\<close>

fun map_result :: "('a \<Rightarrow> ('e, 'b) result) \<Rightarrow> 'a list \<Rightarrow> ('e, 'b list) result" where
  "map_result f [] = Inr []"
| "map_result f (x # xs) = bind_result (f x) (\<lambda>y. bind_result (map_result f xs) (\<lambda>ys. Inr (y # ys)))"

fun every_result :: "('a \<Rightarrow> ('e, bool) result) \<Rightarrow> 'a list \<Rightarrow> ('e, bool) result" where
  "every_result p [] = Inr True"
| "every_result p (x # xs) = bind_result (p x) (\<lambda>b. if b then every_result p xs else Inr False)"

lemma map_result_cong [fundef_cong]:
  "xs = ys \<Longrightarrow> (\<And>x. x \<in> set ys \<Longrightarrow> f x = g x) \<Longrightarrow> map_result f xs = map_result g ys"
  by (induction ys arbitrary: xs) auto

lemma every_result_cong [fundef_cong]:
  "xs = ys \<Longrightarrow> (\<And>x. x \<in> set ys \<Longrightarrow> p x = q x) \<Longrightarrow> every_result p xs = every_result q ys"
  by (induction ys arbitrary: xs) (auto intro!: arg_cong2 [where f = bind_result])

lemma map_result_eq_Inr: "map_result f xs = Inr ys \<longleftrightarrow> list_all2 (\<lambda>x y. f x = Inr y) xs ys"
  by (induction xs arbitrary: ys) (auto simp: list_all2_Cons1)

lemma every_result_Inr:
  "(\<And>x. x \<in> set xs \<Longrightarrow> p x = Inr (q x)) \<Longrightarrow> every_result p xs = Inr (\<forall>x \<in> set xs. q x)"
  by (induction xs) auto

section \<open>Methods that change an object and can throw\<close>

text \<open>
  A method is an action: from the state of the object to what the call returns or throws and the
  state after it. A throw keeps the changes made before it.
\<close>

type_synonym ('s, 'e, 'a) action = "'s \<Rightarrow> ('e, 'a) result \<times> 's"

definition act_return :: "'a \<Rightarrow> ('s, 'e, 'a) action" where
  "act_return a s = (Inr a, s)"

definition act_throw :: "'e \<Rightarrow> ('s, 'e, 'a) action" where
  "act_throw e s = (Inl e, s)"

definition act_update :: "('s \<Rightarrow> 's) \<Rightarrow> ('s, 'e, unit) action" where
  "act_update f s = (Inr (), f s)"

definition act_bind :: "('s, 'e, 'a) action \<Rightarrow> ('a \<Rightarrow> ('s, 'e, 'b) action) \<Rightarrow> ('s, 'e, 'b) action" where
  "act_bind m f s = (case m s of (Inl e, s') \<Rightarrow> (Inl e, s') | (Inr a, s') \<Rightarrow> f a s')"

text \<open>\<open>act_then m k\<close> is the statement sequence \<^verbatim>\<open>m; k\<close>.\<close>

definition act_then :: "('s, 'e, unit) action \<Rightarrow> ('s, 'e, 'b) action \<Rightarrow> ('s, 'e, 'b) action" where
  "act_then m k = act_bind m (\<lambda>_. k)"

definition act_read :: "('s \<Rightarrow> ('s, 'e, 'a) action) \<Rightarrow> ('s, 'e, 'a) action" where
  "act_read f s = f s s"

definition act_result :: "('e, 'a) result \<Rightarrow> ('s, 'e, 'a) action" where
  "act_result r s = (r, s)"

fun act_each :: "('a \<Rightarrow> ('s, 'e, unit) action) \<Rightarrow> 'a list \<Rightarrow> ('s, 'e, unit) action" where
  "act_each f [] = act_return ()"
| "act_each f (x # xs) = act_then (f x) (act_each f xs)"

fun act_map :: "('a \<Rightarrow> ('s, 'e, 'b) action) \<Rightarrow> 'a list \<Rightarrow> ('s, 'e, 'b list) action" where
  "act_map f [] = act_return []"
| "act_map f (x # xs) = act_bind (f x) (\<lambda>y. act_bind (act_map f xs) (\<lambda>ys. act_return (y # ys)))"

text \<open>\<open>act_catch m h\<close> is \<^verbatim>\<open>try { m } catch (e) { h(e) }\<close>, and \<open>act_finally m f\<close> is \<^verbatim>\<open>try { m } finally { f }\<close>
  with a block \<open>f\<close> that only changes the state.\<close>

definition act_catch :: "('s, 'e, 'a) action \<Rightarrow> ('e \<Rightarrow> ('s, 'f, 'a) action) \<Rightarrow> ('s, 'f, 'a) action" where
  "act_catch m h s = (case m s of (Inl e, s') \<Rightarrow> h e s' | (Inr a, s') \<Rightarrow> (Inr a, s'))"

definition act_finally :: "('s, 'e, 'a) action \<Rightarrow> ('s \<Rightarrow> 's) \<Rightarrow> ('s, 'e, 'a) action" where
  "act_finally m f s = map_prod id f (m s)"

text \<open>
  \<open>act_keeps P m\<close>: the action keeps a property of the state, also when it throws. The rules follow
  the structure of an action, so an invariant is proved for the few actions that write.
\<close>

named_theorems keeps

definition act_keeps :: "('s \<Rightarrow> bool) \<Rightarrow> ('s, 'e, 'a) action \<Rightarrow> bool" where
  "act_keeps P m \<longleftrightarrow> (\<forall>s. P s \<longrightarrow> P (snd (m s)))"

lemma act_keepsD: "act_keeps P m \<Longrightarrow> P s \<Longrightarrow> P (snd (m s))"
  by (simp add: act_keeps_def)

lemma act_keepsI: "(\<And>s. P s \<Longrightarrow> P (snd (m s))) \<Longrightarrow> act_keeps P m"
  by (simp add: act_keeps_def)

lemma keeps_return [keeps]: "act_keeps P (act_return a)"
  by (simp add: act_keeps_def act_return_def)

lemma keeps_throw [keeps]: "act_keeps P (act_throw e)"
  by (simp add: act_keeps_def act_throw_def)

lemma keeps_result [keeps]: "act_keeps P (act_result r)"
  by (simp add: act_keeps_def act_result_def)

lemma keeps_update [keeps]: "(\<And>s. P s \<Longrightarrow> P (f s)) \<Longrightarrow> act_keeps P (act_update f)"
  by (simp add: act_keeps_def act_update_def)

lemma keeps_bind [keeps]: "act_keeps P m \<Longrightarrow> (\<And>a. act_keeps P (f a)) \<Longrightarrow> act_keeps P (act_bind m f)"
  by (auto simp: act_keeps_def act_bind_def split: prod.split sum.split)

lemma keeps_then [keeps]: "act_keeps P m \<Longrightarrow> act_keeps P k \<Longrightarrow> act_keeps P (act_then m k)"
  unfolding act_then_def by (rule keeps_bind)

lemma keeps_read: "(\<And>s. P s \<Longrightarrow> act_keeps P (f s)) \<Longrightarrow> act_keeps P (act_read f)"
  by (simp add: act_keeps_def act_read_def)

lemma keeps_each [keeps]: "(\<And>x. act_keeps P (f x)) \<Longrightarrow> act_keeps P (act_each f xs)"
  by (induction xs) (simp_all add: keeps)

lemma keeps_map [keeps]: "(\<And>x. act_keeps P (f x)) \<Longrightarrow> act_keeps P (act_map f xs)"
  by (induction xs) (simp_all add: keeps)

lemma keeps_if [keeps]: "act_keeps P m \<Longrightarrow> act_keeps P k \<Longrightarrow> act_keeps P (if b then m else k)"
  by simp

lemma keeps_catch [keeps]: "act_keeps P m \<Longrightarrow> (\<And>e. act_keeps P (h e)) \<Longrightarrow> act_keeps P (act_catch m h)"
  by (auto simp: act_keeps_def act_catch_def split: prod.split sum.split)

lemma keeps_finally [keeps]:
  "act_keeps P m \<Longrightarrow> (\<And>s. P s \<Longrightarrow> P (f s)) \<Longrightarrow> act_keeps P (act_finally m f)"
  by (auto simp: act_keeps_def act_finally_def)

lemma keeps_option [keeps]:
  "act_keeps P m \<Longrightarrow> (\<And>x. act_keeps P (f x)) \<Longrightarrow> act_keeps P (case opt of None \<Rightarrow> m | Some x \<Rightarrow> f x)"
  by (cases opt) simp_all

lemma act_run_simps [simp]:
  "act_return a s = (Inr a, s)" "act_throw e s = (Inl e, s)" "act_update g s = (Inr (), g s)"
  "act_read f s = f s s" "act_result r s = (r, s)"
  by (simp_all add: act_return_def act_throw_def act_update_def act_read_def act_result_def)

lemma act_bind_eq_Inr:
  "act_bind m f s = (Inr b, s'') \<longleftrightarrow> (\<exists>a s'. m s = (Inr a, s') \<and> f a s' = (Inr b, s''))"
  by (auto simp: act_bind_def split: prod.split sum.split)

lemma act_then_eq_Inr:
  "act_then m k s = (Inr b, s'') \<longleftrightarrow> (\<exists>s'. m s = (Inr (), s') \<and> k s' = (Inr b, s''))"
  by (auto simp: act_then_def act_bind_eq_Inr)

text \<open>
  \<open>act_triple P m Q E\<close>: from a state with \<open>P\<close>, the action returns a value and a state with \<open>Q\<close> or
  throws in a state with \<open>E\<close>. One rule for each way to compose actions; the rules compute the
  precondition backwards, and \<open>triple_pre\<close> weakens it at the end.
\<close>

named_theorems triple

definition act_triple ::
  "('s \<Rightarrow> bool) \<Rightarrow> ('s, 'e, 'a) action \<Rightarrow> ('a \<Rightarrow> 's \<Rightarrow> bool) \<Rightarrow> ('e \<Rightarrow> 's \<Rightarrow> bool) \<Rightarrow> bool" where
  "act_triple P m Q E \<longleftrightarrow>
     (\<forall>s. P s \<longrightarrow> (case m s of (Inr a, s') \<Rightarrow> Q a s' | (Inl e, s') \<Rightarrow> E e s'))"

lemma act_tripleD:
  "act_triple P m Q E \<Longrightarrow> P s \<Longrightarrow> m s = (Inr a, s') \<Longrightarrow> Q a s'"
  "act_triple P m Q E \<Longrightarrow> P s \<Longrightarrow> m s = (Inl e, s') \<Longrightarrow> E e s'"
  by (force simp: act_triple_def)+

lemma act_triple_always: "act_triple P m (\<lambda>_. Q) (\<lambda>_. Q) \<Longrightarrow> P s \<Longrightarrow> Q (snd (m s))"
  by (cases "m s"; cases "fst (m s)") (auto simp: act_triple_def)

lemma triple_pre: "act_triple P m Q E \<Longrightarrow> (\<And>s. P' s \<Longrightarrow> P s) \<Longrightarrow> act_triple P' m Q E"
  by (simp add: act_triple_def)

lemma triple_post:
  assumes "act_triple P m Q E" "\<And>a s. Q a s \<Longrightarrow> Q' a s" "\<And>e s. E e s \<Longrightarrow> E' e s"
  shows "act_triple P m Q' E'"
  using assms by (fastforce simp: act_triple_def split: prod.splits sum.splits)

lemma triple_return [triple]: "act_triple (Q a) (act_return a) Q E"
  by (simp add: act_triple_def)

lemma triple_throw [triple]: "act_triple (E e) (act_throw e) Q E"
  by (simp add: act_triple_def)

lemma triple_result [triple]:
  "act_triple (\<lambda>s. case r of Inl e \<Rightarrow> E e s | Inr a \<Rightarrow> Q a s) (act_result r) Q E"
  by (simp add: act_triple_def split: sum.splits)

lemma triple_update [triple]: "act_triple (\<lambda>s. Q () (f s)) (act_update f) Q E"
  by (simp add: act_triple_def)

lemma triple_bind [triple]:
  "(\<And>a. act_triple (R a) (f a) Q E) \<Longrightarrow> act_triple P m R E \<Longrightarrow> act_triple P (act_bind m f) Q E"
  by (fastforce simp: act_triple_def act_bind_def split: prod.splits sum.splits)

lemma triple_then [triple]:
  "act_triple R k Q E \<Longrightarrow> act_triple P m (\<lambda>_. R) E \<Longrightarrow> act_triple P (act_then m k) Q E"
  unfolding act_then_def by (rule triple_bind)

lemma triple_read [triple]:
  "(\<And>x. act_triple (P x) (f x) Q E) \<Longrightarrow> act_triple (\<lambda>s. P s s) (act_read f) Q E"
  by (simp add: act_triple_def)

lemma triple_if [triple]:
  "act_triple P m Q E \<Longrightarrow> act_triple P' k Q E \<Longrightarrow>
     act_triple (\<lambda>s. if b then P s else P' s) (if b then m else k) Q E"
  by simp

lemma triple_catch [triple]:
  "(\<And>e. act_triple (R e) (h e) Q E) \<Longrightarrow> act_triple P m Q R \<Longrightarrow> act_triple P (act_catch m h) Q E"
  by (fastforce simp: act_triple_def act_catch_def split: prod.splits sum.splits)

lemma triple_finally [triple]:
  "act_triple P m (\<lambda>a s. Q a (f s)) (\<lambda>e s. E e (f s)) \<Longrightarrow> act_triple P (act_finally m f) Q E"
  by (simp add: act_triple_def act_finally_def map_prod_def case_prod_beta)

section \<open>A cell that is written once\<close>

text \<open>
  The contract of \<^verbatim>\<open>x ??= v\<close>, of \<^verbatim>\<open>if (x !== undefined) return\<close> before a write, and of
  \<^verbatim>\<open>AbortController.abort\<close>: the first value written stays.
\<close>

locale set_once =
  fixes cell :: "'s \<Rightarrow> 'v option"
    and put :: "'v \<Rightarrow> 's \<Rightarrow> 's"
  assumes put_empty: "cell s = None \<Longrightarrow> cell (put v s) = Some v"
    and put_full: "cell s = Some w \<Longrightarrow> cell (put v s) = Some w"
begin

lemma cell_put: "cell (put v s) = Some (case cell s of None \<Rightarrow> v | Some w \<Rightarrow> w)"
  by (cases "cell s") (simp_all add: put_empty put_full)

lemma first_put_wins:
  "cell (fold put vs s) =
     (case cell s of Some w \<Rightarrow> Some w | None \<Rightarrow> (case vs of [] \<Rightarrow> None | v # _ \<Rightarrow> Some v))"
  by (induction vs arbitrary: s) (auto simp: cell_put split: option.splits list.splits)

end

section \<open>Machines\<close>

text \<open>A machine whose steps keep a settled cell as it is.\<close>

locale settled_cell =
  fixes step :: "'e \<Rightarrow> 's \<Rightarrow> 's"
    and cell :: "'s \<Rightarrow> 'v option"
  assumes step_settled: "cell s = Some v \<Longrightarrow> cell (step e s) = Some v"
begin

lemma run_settled: "cell s = Some v \<Longrightarrow> cell (fold step es s) = Some v"
  by (induction es arbitrary: s) (simp_all add: step_settled)

lemma prefix_settled:
  "cell (fold step es s) = Some v \<Longrightarrow> cell (fold step (es @ es') s) = Some v"
  by (simp add: run_settled)

end

text \<open>A machine whose steps keep an invariant, for the events that satisfy \<open>ok\<close>.\<close>

locale machine_invariant =
  fixes step :: "'e \<Rightarrow> 's \<Rightarrow> 's"
    and ok :: "'e \<Rightarrow> bool"
    and inv :: "'s \<Rightarrow> bool"
  assumes inv_step: "inv s \<Longrightarrow> ok e \<Longrightarrow> inv (step e s)"
begin

lemma inv_run: "inv s \<Longrightarrow> list_all ok es \<Longrightarrow> inv (fold step es s)"
  by (induction es arbitrary: s) (simp_all add: inv_step)

end

section \<open>Generic facts\<close>

lemma fold_invariant_list:
  assumes "P s" and "\<And>x s. x \<in> set xs \<Longrightarrow> P s \<Longrightarrow> P (f x s)"
  shows "P (fold f xs s)"
  using assms by (induction xs arbitrary: s) simp_all

lemma fold_field_eq:
  assumes "\<And>x s. x \<in> set xs \<Longrightarrow> g (f x s) = g s"
  shows "g (fold f xs s) = g s"
  using assms by (induction xs arbitrary: s) simp_all

end
