(* ===== verification/Task_Attempt.thy ===== *)
theory Task_Attempt
  imports Workhorse_Prelude
begin

text \<open>
  One claimed task's ownership during a handler activation, \<^verbatim>\<open>typescript/core/src/task-attempt.ts\<close>:
  the outcome arbiter, the abort signal of the handler, the lease window and its watchdog, the
  expiration timer, and the request that asks PostgreSQL to expire the ownership.

  The record \<open>attempt\<close> has the fields of the class \<^verbatim>\<open>TaskAttempt\<close>. Each callback of the class is one
  event, and \<open>attempt_step\<close> runs it to its end, as the event loop does. A callback reads the
  monotonic clock once, and the event carries the reading. The promise of the expiration request is
  a value: the phase of its retry loop and the reactions attached to it, in their order.
\<close>

section \<open>Data\<close>

datatype attempt_outcome =
    Completed | Failed | Cancelled | Deadline_Exceeded | Attempt_Timeout | Lease_Expired
  | Released | Suspended_For_Wait | Suspended_For_Child

datatype execution_outcome =
    Exec_Canceled | Exec_Deadline_Exceeded | Exec_Failed | Exec_Lease_Lost | Exec_Released
  | Exec_Retry | Exec_Succeeded | Exec_Suspended | Exec_Timeout | Exec_Unknown

datatype expire_owned_status =
    Not_Due | Expire_Cancel_Requested | Expire_Deadline_Exceeded | Expire_Timeout_Exceeded
  | Expire_Stale

datatype heartbeat_status =
    Hb_Accepted | Hb_Cancel_Requested | Hb_Deadline_Exceeded | Hb_Timeout_Exceeded | Hb_Stale
  | Hb_Busy

datatype failure_state =
    Failure_Ready | Failure_Scheduled | Failure_Failed | Failure_Deadline_Exceeded
  | Failure_Timeout_Exceeded

datatype release_status =
    Release_Released | Release_Deadline_Exceeded | Release_Timeout_Exceeded | Release_Not_Due

text \<open>What the abort signal of the handler carries as its reason.\<close>

datatype abort_reason =
    WorkerShutdownError string
  | DURABLE_WAIT_SUSPENSION
  | CHILD_TASK_SUSPENSION
  | CancellationRequestedError string
  | DeadlineExceededError string
  | ExecutionTimeoutError string nat
  | Task_Lease_Was_Lost
  | No_Heartbeat_Accepted
  | Request_Failure string

record claimed_task =
  task_id :: string
  task_attempt :: nat
  deadline_at :: "real option"
  attempt_timeout_at :: "real option"
  lease_expires_at :: real

text \<open>
  The retry loop of \<^verbatim>\<open>requestExpiration\<close> is either waiting for the answer of \<^verbatim>\<open>expireOwned\<close> or
  sleeping before it asks again. Both phases hold the loop's \<^verbatim>\<open>retryMs\<close>.
\<close>

datatype expiration_phase = Asking real | Sleeping real real

text \<open>
  The continuations attached to the promise: the one of \<^verbatim>\<open>expireOnConfirmation\<close> with its \<^verbatim>\<open>retryMs\<close>,
  the one of a stale heartbeat, and the one of \<^verbatim>\<open>expireOwnershipInBackground\<close>.
\<close>

datatype expiration_reaction = On_Confirmation real | Lose_Lease_After | Abort_On_Rejection

datatype expiration_promise =
    Pending expiration_phase "expiration_reaction list"
  | Fulfilled expire_owned_status
  | Rejected string

record attempt =
  claimed :: claimed_task
  lease_ms :: real
  accepted :: "attempt_outcome option"
  signal_reason :: "abort_reason option"
  expiration_timer :: "(real \<times> real) option"
  lease_watchdog :: "real option"
  lease_window_ends_at :: "real option"
  expiration_due_at :: "real option"
  expiration_promise :: "expiration_promise option"
  heartbeat_stopped :: bool
  expiry_reported :: bool
  settling :: bool
  heartbeat_registered :: bool
  shutdown_requested :: bool
  activation_outcome :: execution_outcome
  handler_executions :: "execution_outcome list"

definition EXPIRATION_RETRY_MIN_MS :: real where "EXPIRATION_RETRY_MIN_MS = 5"
definition EXPIRATION_RETRY_MAX_MS :: real where "EXPIRATION_RETRY_MAX_MS = 1000"

section \<open>The arbiter and the abort signal\<close>

definition submit :: "attempt_outcome \<Rightarrow> attempt \<Rightarrow> bool \<times> attempt" where
  "submit out s =
     (if accepted s \<noteq> None then (False, s) else (True, s\<lparr>accepted := Some out\<rparr>))"

abbreviation submitted :: "attempt_outcome \<Rightarrow> attempt \<Rightarrow> attempt" where
  "submitted out s \<equiv> snd (submit out s)"

definition is_suspended :: "attempt \<Rightarrow> bool" where
  "is_suspended s \<longleftrightarrow>
     accepted s = Some Suspended_For_Wait \<or> accepted s = Some Suspended_For_Child"

text \<open>A second \<^verbatim>\<open>AbortController.abort\<close> changes neither the signal nor its reason.\<close>

definition controller_abort :: "abort_reason \<Rightarrow> attempt \<Rightarrow> attempt" where
  "controller_abort r s =
     (case signal_reason s of None \<Rightarrow> s\<lparr>signal_reason := Some r\<rparr> | Some _ \<Rightarrow> s)"

definition abort :: "abort_reason \<Rightarrow> attempt \<Rightarrow> attempt" where
  "abort r s = (if signal_reason s = None then controller_abort r s else s)"

definition record_execution :: "execution_outcome \<Rightarrow> attempt \<Rightarrow> attempt" where
  "record_execution out s =
     (if activation_outcome s \<noteq> Exec_Unknown then s
      else s\<lparr>activation_outcome := out, handler_executions := handler_executions s @ [out]\<rparr>)"

section \<open>The lease window\<close>

definition stop_heartbeat :: "attempt \<Rightarrow> attempt" where
  "stop_heartbeat s = s\<lparr>heartbeat_stopped := True, heartbeat_registered := False\<rparr>"

definition stop :: "attempt \<Rightarrow> attempt" where
  "stop s = (stop_heartbeat s)
     \<lparr>expiration_timer := None, lease_watchdog := None, lease_window_ends_at := None\<rparr>"

definition end_lease_window :: "attempt \<Rightarrow> attempt" where
  "end_lease_window s =
     abort No_Heartbeat_Accepted (stop (submitted Lease_Expired (s\<lparr>lease_watchdog := None\<rparr>)))"

definition lose_lease :: "attempt \<Rightarrow> attempt" where
  "lose_lease s = abort Task_Lease_Was_Lost (stop (submitted Lease_Expired s))"

definition window_over :: "real \<Rightarrow> attempt \<Rightarrow> bool" where
  "window_over now s =
     (case lease_window_ends_at s of None \<Rightarrow> False | Some ends \<Rightarrow> ends \<le> now)"

definition renew_lease :: "real \<Rightarrow> real \<Rightarrow> attempt \<Rightarrow> attempt" where
  "renew_lease now sent_at s =
     (if heartbeat_stopped s then s
      else if window_over now s then end_lease_window s
      else
        let ends = sent_at + lease_ms s;
            s1 = s\<lparr>lease_watchdog := None, lease_window_ends_at := Some ends\<rparr>
        in if ends \<le> now then end_lease_window s1 else s1\<lparr>lease_watchdog := Some ends\<rparr>)"

definition check_window :: "real \<Rightarrow> attempt \<Rightarrow> attempt" where
  "check_window now s = (if window_over now s then end_lease_window s else s)"

definition stopped_for_shutdown :: "attempt \<Rightarrow> bool" where
  "stopped_for_shutdown s \<longleftrightarrow> shutdown_requested s \<and> accepted s = None"

definition require_lease :: "real \<Rightarrow> attempt \<Rightarrow> (abort_reason, unit) result \<times> attempt" where
  "require_lease now s =
     (let s1 = check_window now s in
      case signal_reason s1 of Some r \<Rightarrow> (Inl r, s1) | None \<Rightarrow> (Inr (), s1))"

definition require_settlement_lease ::
  "real \<Rightarrow> attempt \<Rightarrow> (abort_reason, unit) result \<times> attempt" where
  "require_settlement_lease now s =
     (let s1 = check_window now s in
      case signal_reason s1 of
        Some r \<Rightarrow> (if stopped_for_shutdown s1 then Inr () else Inl r, s1)
      | None \<Rightarrow> (Inr (), s1))"

definition abort_for_shutdown :: "attempt \<Rightarrow> attempt" where
  "abort_for_shutdown s =
     (if accepted s \<noteq> None \<or> signal_reason s \<noteq> None then s
      else controller_abort (WorkerShutdownError (task_id (claimed s)))
             (s\<lparr>shutdown_requested := True\<rparr>))"

section \<open>Suspension and cancellation\<close>

datatype suspension = For_Wait | For_Child

fun suspension_outcome :: "suspension \<Rightarrow> attempt_outcome" where
  "suspension_outcome For_Wait = Suspended_For_Wait"
| "suspension_outcome For_Child = Suspended_For_Child"

fun suspension_reason :: "suspension \<Rightarrow> abort_reason" where
  "suspension_reason For_Wait = DURABLE_WAIT_SUSPENSION"
| "suspension_reason For_Child = CHILD_TASK_SUSPENSION"

text \<open>\<^verbatim>\<open>suspend\<close> always throws; the first component is what it throws.\<close>

definition suspend :: "suspension \<Rightarrow> attempt \<Rightarrow> abort_reason \<times> attempt" where
  "suspend k s =
     (let (won, s1) = submit (suspension_outcome k) s in
      (suspension_reason k, if won then controller_abort (suspension_reason k) s1 else s1))"

definition suspend_for_scheduled_wait ::
  "attempt \<Rightarrow> (abort_reason, unit) result \<times> attempt" where
  "suspend_for_scheduled_wait s =
     (let (won, s1) = submit Suspended_For_Wait s in
      if \<not> won then (Inr (), s1)
      else (Inl DURABLE_WAIT_SUSPENSION, controller_abort DURABLE_WAIT_SUSPENSION s1))"

definition mark_cancellation_requested :: "attempt \<Rightarrow> attempt" where
  "mark_cancellation_requested s =
     abort (CancellationRequestedError (task_id (claimed s))) (stop (submitted Cancelled s))"

definition acknowledge_cancellation :: "bool \<Rightarrow> attempt \<Rightarrow> bool \<times> attempt" where
  "acknowledge_cancellation answer s =
     (answer, if answer \<and> accepted s = Some Cancelled then record_execution Exec_Canceled s else s)"

section \<open>Recording what PostgreSQL settled\<close>

datatype span_outcome =
  Span_Canceled | Span_Deadline_Exceeded | Span_Timeout_Exceeded | Span_Stale

datatype settled_outcome =
  Settled_Cancelled | Settled_Deadline | Settled_Timeout | Settled_Lease_Expired

definition record_settled :: "settled_outcome \<Rightarrow> attempt \<Rightarrow> span_outcome \<times> attempt" where
  "record_settled out s =
     (case out of
        Settled_Cancelled \<Rightarrow>
          (Span_Canceled, record_execution Exec_Canceled (submitted Cancelled s))
      | Settled_Deadline \<Rightarrow>
          (Span_Deadline_Exceeded,
           record_execution Exec_Deadline_Exceeded (submitted Deadline_Exceeded s))
      | Settled_Timeout \<Rightarrow>
          (Span_Timeout_Exceeded, record_execution Exec_Timeout (submitted Attempt_Timeout s))
      | Settled_Lease_Expired \<Rightarrow>
          (Span_Stale, record_execution Exec_Lease_Lost (submitted Lease_Expired s)))"

text \<open>The part of \<^verbatim>\<open>acknowledgeRequestedCancellation\<close> before its request, and the part after it.\<close>

definition acknowledge_requested_begin :: "attempt \<Rightarrow> attempt" where
  "acknowledge_requested_begin s =
     abort (CancellationRequestedError (task_id (claimed s))) (stop s)"

definition acknowledge_requested_end :: "bool \<Rightarrow> attempt \<Rightarrow> bool \<times> attempt" where
  "acknowledge_requested_end answer s =
     (answer, snd (record_settled (if answer then Settled_Cancelled else Settled_Lease_Expired) s))"

text \<open>Submit an outcome and, if it wins, record the execution: the branch body both record functions share.\<close>

definition submit_and_record ::
  "attempt_outcome \<Rightarrow> execution_outcome \<Rightarrow> attempt \<Rightarrow> attempt" where
  "submit_and_record out ex s =
     (let (won, s1) = submit out s in if won then record_execution ex s1 else s1)"

definition record_failure :: "failure_state \<Rightarrow> attempt \<Rightarrow> attempt" where
  "record_failure st s =
     (case st of
        Failure_Ready \<Rightarrow> submit_and_record Failed Exec_Retry s
      | Failure_Scheduled \<Rightarrow> submit_and_record Failed Exec_Retry s
      | Failure_Failed \<Rightarrow> submit_and_record Failed Exec_Failed s
      | Failure_Deadline_Exceeded \<Rightarrow>
          submit_and_record Deadline_Exceeded Exec_Deadline_Exceeded s
      | Failure_Timeout_Exceeded \<Rightarrow> submit_and_record Attempt_Timeout Exec_Timeout s)"

definition record_release :: "release_status \<Rightarrow> attempt \<Rightarrow> attempt" where
  "record_release st s =
     (case st of
        Release_Released \<Rightarrow> submit_and_record Released Exec_Released s
      | Release_Deadline_Exceeded \<Rightarrow>
          submit_and_record Deadline_Exceeded Exec_Deadline_Exceeded s
      | Release_Timeout_Exceeded \<Rightarrow> submit_and_record Attempt_Timeout Exec_Timeout s
      | Release_Not_Due \<Rightarrow> submit_and_record Lease_Expired Exec_Lease_Lost s)"

section \<open>The expiration request\<close>

definition finished :: "attempt \<Rightarrow> bool" where
  "finished s \<longleftrightarrow>
     accepted s \<noteq> None \<or> ((heartbeat_stopped s \<or> settling s) \<and> \<not> expiry_reported s)"

definition arm_expiration_timer :: "real \<Rightarrow> real \<Rightarrow> attempt \<Rightarrow> attempt" where
  "arm_expiration_timer at_ms retry s = s\<lparr>expiration_timer := Some (at_ms, retry)\<rparr>"

text \<open>The \<^verbatim>\<open>expirationPromise ??= requestExpiration()\<close> of \<^verbatim>\<open>expireOwnership\<close>.\<close>

definition expire_ownership :: "attempt \<Rightarrow> attempt" where
  "expire_ownership s =
     (case expiration_promise s of
        Some _ \<Rightarrow> s
      | None \<Rightarrow> s\<lparr>expiration_promise := Some (Pending (Asking EXPIRATION_RETRY_MIN_MS) [])\<rparr>)"

text \<open>The continuation \<^verbatim>\<open>expireOwnership\<close> attaches to \<^verbatim>\<open>requestExpiration\<close>.\<close>

definition apply_expire_status :: "expire_owned_status \<Rightarrow> attempt \<Rightarrow> attempt" where
  "apply_expire_status st s =
     (case st of
        Expire_Cancel_Requested \<Rightarrow> mark_cancellation_requested s
      | Expire_Deadline_Exceeded \<Rightarrow> submitted Deadline_Exceeded s
      | Expire_Timeout_Exceeded \<Rightarrow> submitted Attempt_Timeout s
      | Expire_Stale \<Rightarrow> submitted Lease_Expired s
      | Not_Due \<Rightarrow> s)"

fun react ::
  "real \<Rightarrow> (string, expire_owned_status) result \<Rightarrow> expiration_reaction \<Rightarrow> attempt \<Rightarrow> attempt" where
  "react now (Inr st) (On_Confirmation retry) s =
     (case st of
        Expire_Deadline_Exceeded \<Rightarrow> abort (DeadlineExceededError (task_id (claimed s))) (stop s)
      | Expire_Timeout_Exceeded \<Rightarrow>
          abort (ExecutionTimeoutError (task_id (claimed s)) (task_attempt (claimed s))) (stop s)
      | Expire_Stale \<Rightarrow> abort Task_Lease_Was_Lost (stop s)
      | Expire_Cancel_Requested \<Rightarrow> s
      | Not_Due \<Rightarrow> s)"
| "react now (Inl err) (On_Confirmation retry) s =
     (if finished s then s
      else arm_expiration_timer (now + retry) (min (retry * 2) EXPIRATION_RETRY_MAX_MS)
             (s\<lparr>expiration_promise := None\<rparr>))"
| "react now res Lose_Lease_After s = lose_lease s"
| "react now (Inr st) Abort_On_Rejection s = s"
| "react now (Inl err) Abort_On_Rejection s = controller_abort (Request_Failure err) s"

definition settle_promise ::
  "real \<Rightarrow> (string, expire_owned_status) result \<Rightarrow> expiration_reaction list \<Rightarrow> attempt \<Rightarrow> attempt" where
  "settle_promise now res rs s =
     fold (react now res) rs
       (case res of
          Inr st \<Rightarrow> apply_expire_status st (s\<lparr>expiration_promise := Some (Fulfilled st)\<rparr>)
        | Inl err \<Rightarrow> s\<lparr>expiration_promise := Some (Rejected err)\<rparr>)"

text \<open>Attach a continuation. A promise that has settled runs it in the microtask that follows.\<close>

definition attach :: "real \<Rightarrow> expiration_reaction \<Rightarrow> attempt \<Rightarrow> attempt" where
  "attach now r s =
     (case expiration_promise s of
        None \<Rightarrow> s
      | Some (Pending ph rs) \<Rightarrow> s\<lparr>expiration_promise := Some (Pending ph (rs @ [r]))\<rparr>
      | Some (Fulfilled st) \<Rightarrow> react now (Inr st) r s
      | Some (Rejected err) \<Rightarrow> react now (Inl err) r s)"

definition expire_on_confirmation :: "real \<Rightarrow> real \<Rightarrow> attempt \<Rightarrow> attempt" where
  "expire_on_confirmation now retry s =
     attach now (On_Confirmation retry) (expire_ownership s)"

definition expiration_timer_fires :: "real \<Rightarrow> attempt \<Rightarrow> attempt" where
  "expiration_timer_fires now s =
     (case expiration_timer s of
        None \<Rightarrow> s
      | Some (at_ms, retry) \<Rightarrow>
          if now < at_ms then s
          else expire_on_confirmation now retry (s\<lparr>expiration_timer := None\<rparr>))"

definition lease_watchdog_fires :: "real \<Rightarrow> attempt \<Rightarrow> attempt" where
  "lease_watchdog_fires now s =
     (case lease_watchdog s of
        None \<Rightarrow> s
      | Some at_ms \<Rightarrow> if now < at_ms then s else end_lease_window s)"

definition expiration_wait_ms :: "real \<Rightarrow> real \<Rightarrow> attempt \<Rightarrow> real" where
  "expiration_wait_ms now retry s =
     max retry ((case expiration_due_at s of None \<Rightarrow> 0 | Some due \<Rightarrow> due) - now)"

text \<open>The answer of \<^verbatim>\<open>expireOwned\<close> reaches the loop of \<^verbatim>\<open>requestExpiration\<close>.\<close>

definition expire_answer ::
  "real \<Rightarrow> (string, expire_owned_status) result \<Rightarrow> attempt \<Rightarrow> attempt" where
  "expire_answer now res s =
     (case expiration_promise s of
        Some (Pending (Asking retry) rs) \<Rightarrow>
          (case res of
             Inl err \<Rightarrow> settle_promise now (Inl err) rs s
           | Inr st \<Rightarrow>
               if st \<noteq> Not_Due \<or> finished s then settle_promise now (Inr st) rs s
               else s\<lparr>expiration_promise :=
                 Some (Pending (Sleeping retry (now + expiration_wait_ms now retry s)) rs)\<rparr>)
      | _ \<Rightarrow> s)"

text \<open>The sleep of the loop ends, by its timer or by \<^verbatim>\<open>wakeExpirationRetry\<close>.\<close>

definition expiration_sleep_ends :: "real \<Rightarrow> attempt \<Rightarrow> attempt" where
  "expiration_sleep_ends now s =
     (case expiration_promise s of
        Some (Pending (Sleeping retry until) rs) \<Rightarrow>
          if finished s then settle_promise now (Inr Not_Due) rs s
          else s\<lparr>expiration_promise :=
            Some (Pending (Asking (min (retry * 2) EXPIRATION_RETRY_MAX_MS)) rs)\<rparr>
      | _ \<Rightarrow> s)"

definition expiration_sleep_timer :: "real \<Rightarrow> attempt \<Rightarrow> attempt" where
  "expiration_sleep_timer now s =
     (case expiration_promise s of
        Some (Pending (Sleeping retry until) rs) \<Rightarrow>
          if now < until then s else expiration_sleep_ends now s
      | _ \<Rightarrow> s)"

text \<open>The synchronous part of \<^verbatim>\<open>settleExpiration\<close>, before it waits for the pending answer.\<close>

definition settle_expiration_begin :: "real \<Rightarrow> attempt \<Rightarrow> attempt" where
  "settle_expiration_begin now s = expiration_sleep_ends now (s\<lparr>settling := True\<rparr>)"

definition refresh_ownership :: "real \<Rightarrow> heartbeat_status \<Rightarrow> real \<Rightarrow> attempt \<Rightarrow> attempt" where
  "refresh_ownership now st sent_at s =
     (case st of
        Hb_Busy \<Rightarrow> s
      | Hb_Accepted \<Rightarrow> renew_lease now sent_at s
      | Hb_Cancel_Requested \<Rightarrow> mark_cancellation_requested s
      | Hb_Deadline_Exceeded \<Rightarrow>
          attach now Abort_On_Rejection
            (abort (DeadlineExceededError (task_id (claimed s)))
              (expire_ownership (stop (s\<lparr>expiry_reported := True\<rparr>))))
      | Hb_Timeout_Exceeded \<Rightarrow>
          attach now Abort_On_Rejection
            (abort (ExecutionTimeoutError (task_id (claimed s)) (task_attempt (claimed s)))
              (expire_ownership (stop (s\<lparr>expiry_reported := True\<rparr>))))
      | Hb_Stale \<Rightarrow>
          (case expiration_promise s of
             None \<Rightarrow> lose_lease s
           | Some _ \<Rightarrow> attach now Lose_Lease_After (stop_heartbeat s)))"

section \<open>Construction\<close>

definition earliest :: "real option \<Rightarrow> real option \<Rightarrow> real option" where
  "earliest e c =
     (case c of
        None \<Rightarrow> e
      | Some t \<Rightarrow> (case e of None \<Rightarrow> Some t | Some u \<Rightarrow> if t < u then Some t else e))"

definition expiration_at :: "claimed_task \<Rightarrow> real option" where
  "expiration_at t = earliest (earliest None (deadline_at t)) (attempt_timeout_at t)"

definition blank_attempt :: "claimed_task \<Rightarrow> real \<Rightarrow> attempt" where
  "blank_attempt t lease =
     \<lparr>claimed = t, lease_ms = lease, accepted = None, signal_reason = None,
      expiration_timer = None, lease_watchdog = None, lease_window_ends_at = None,
      expiration_due_at = None, expiration_promise = None, heartbeat_stopped = False,
      expiry_reported = False, settling = False, heartbeat_registered = False,
      shutdown_requested = False, activation_outcome = Exec_Unknown, handler_executions = []\<rparr>"

definition new_attempt :: "claimed_task \<Rightarrow> real \<Rightarrow> real \<Rightarrow> real \<Rightarrow> attempt" where
  "new_attempt t lease claim_sent_at now =
     (let s0 = blank_attempt t lease;
          s1 = (case expiration_at t of
                  None \<Rightarrow> s0
                | Some at_ms \<Rightarrow>
                    let database_claimed_at = lease_expires_at t - lease;
                        due = now + at_ms - database_claimed_at + 1
                    in arm_expiration_timer due EXPIRATION_RETRY_MIN_MS
                         (s0\<lparr>expiration_due_at := Some due\<rparr>));
          s2 = s1\<lparr>heartbeat_registered := True\<rparr>
      in renew_lease now claim_sent_at s2)"

section \<open>Events\<close>

datatype attempt_event =
    Heartbeat real heartbeat_status real
  | Expiration_Timer real
  | Lease_Watchdog real
  | Expire_Answer real "(string, expire_owned_status) result"
  | Expiration_Sleep real
  | Require_Lease real
  | Require_Settlement_Lease real
  | Abort_For_Shutdown
  | Suspend suspension
  | Suspend_For_Scheduled_Wait
  | Acknowledge_Cancellation bool
  | Acknowledge_Requested_Begin
  | Acknowledge_Requested_End bool
  | Settle_Expiration real
  | Submit attempt_outcome
  | Record_Execution execution_outcome
  | Record_Settled settled_outcome
  | Record_Failure failure_state
  | Record_Release release_status
  | Stop

fun attempt_step :: "attempt_event \<Rightarrow> attempt \<Rightarrow> attempt" where
  "attempt_step (Heartbeat now st sent_at) s = refresh_ownership now st sent_at s"
| "attempt_step (Expiration_Timer now) s = expiration_timer_fires now s"
| "attempt_step (Lease_Watchdog now) s = lease_watchdog_fires now s"
| "attempt_step (Expire_Answer now res) s = expire_answer now res s"
| "attempt_step (Expiration_Sleep now) s = expiration_sleep_timer now s"
| "attempt_step (Require_Lease now) s = snd (require_lease now s)"
| "attempt_step (Require_Settlement_Lease now) s = snd (require_settlement_lease now s)"
| "attempt_step Abort_For_Shutdown s = abort_for_shutdown s"
| "attempt_step (Suspend k) s = snd (suspend k s)"
| "attempt_step Suspend_For_Scheduled_Wait s = snd (suspend_for_scheduled_wait s)"
| "attempt_step (Acknowledge_Cancellation b) s = snd (acknowledge_cancellation b s)"
| "attempt_step Acknowledge_Requested_Begin s = acknowledge_requested_begin s"
| "attempt_step (Acknowledge_Requested_End b) s = snd (acknowledge_requested_end b s)"
| "attempt_step (Settle_Expiration now) s = settle_expiration_begin now s"
| "attempt_step (Submit out) s = submitted out s"
| "attempt_step (Record_Execution ex) s = record_execution ex s"
| "attempt_step (Record_Settled out) s = snd (record_settled out s)"
| "attempt_step (Record_Failure st) s = record_failure st s"
| "attempt_step (Record_Release st) s = record_release st s"
| "attempt_step Stop s = stop s"

abbreviation attempt_run :: "attempt_event list \<Rightarrow> attempt \<Rightarrow> attempt" where
  "attempt_run \<equiv> fold attempt_step"

section \<open>Waiting for the expiration request\<close>

text \<open>
  \<^verbatim>\<open>sharedExpiration\<close> and \<^verbatim>\<open>settleExpiration\<close> wait until the pending promise settles or their budget
  ends. The list holds the events that the event loop delivers during the wait.
\<close>

definition promise_pending :: "attempt \<Rightarrow> bool" where
  "promise_pending s =
     (case expiration_promise s of Some (Pending ph rs) \<Rightarrow> True | _ \<Rightarrow> False)"

definition promise_answer :: "attempt \<Rightarrow> expire_owned_status option" where
  "promise_answer s =
     (case expiration_promise s of Some (Fulfilled st) \<Rightarrow> Some st | _ \<Rightarrow> None)"

fun shared_expiration ::
  "attempt_event list \<Rightarrow> attempt \<Rightarrow> expire_owned_status option \<times> attempt" where
  "shared_expiration [] s = (promise_answer s, s)"
| "shared_expiration (e # es) s =
     (if promise_pending s then shared_expiration es (attempt_step e s)
      else (promise_answer s, s))"

definition settle_expiration :: "real \<Rightarrow> attempt_event list \<Rightarrow> attempt \<Rightarrow> attempt" where
  "settle_expiration now es s = snd (shared_expiration es (settle_expiration_begin now s))"

definition expiration_requested :: "attempt \<Rightarrow> bool" where
  "expiration_requested s \<longleftrightarrow> expiration_promise s \<noteq> None"

text \<open>
  What the environment answers to \<^verbatim>\<open>reconcileStale\<close>: the events during each of its waits, the answer
  of the request it sends itself, and the answer of its acknowledgement.
\<close>

record reconcile_env =
  first_wait :: "attempt_event list"
  own_answer :: "(string, expire_owned_status) result"
  own_wait :: "attempt_event list"
  second_wait :: "attempt_event list"
  ack_answer :: "(string, bool) result"
  ack_wait :: "attempt_event list"

text \<open>The status of the expiry that \<^verbatim>\<open>reconcileStale\<close> goes by. A request that fails throws.\<close>

definition reconcile_status ::
  "reconcile_env \<Rightarrow> attempt \<Rightarrow> (string, expire_owned_status) result \<times> attempt" where
  "reconcile_status env s0 =
     (let (shared, s1) = shared_expiration (first_wait env) s0;
          (answer, s2) = (case shared of
                            Some st \<Rightarrow> (Inr st, s1)
                          | None \<Rightarrow> (own_answer env, attempt_run (own_wait env) s1))
      in if answer = Inr Expire_Stale
         then (case shared_expiration (second_wait env) s2 of
                 (Some st, s) \<Rightarrow> (Inr st, s) | (None, s) \<Rightarrow> (answer, s))
         else (answer, s2))"

definition settled_as :: "settled_outcome \<Rightarrow> attempt \<Rightarrow> (string, span_outcome) result \<times> attempt" where
  "settled_as out s = map_prod Inr id (record_settled out s)"

definition reconcile_stale :: "reconcile_env \<Rightarrow> attempt \<Rightarrow> (string, span_outcome) result \<times> attempt" where
  "reconcile_stale env s0 =
     (case reconcile_status env s0 of
        (Inl err, s) \<Rightarrow> (Inl err, s)
      | (Inr status, s) \<Rightarrow>
          (case status of
             Expire_Deadline_Exceeded \<Rightarrow> settled_as Settled_Deadline s
           | Expire_Timeout_Exceeded \<Rightarrow> settled_as Settled_Timeout s
           | Expire_Cancel_Requested \<Rightarrow>
               (let s' = attempt_run (ack_wait env) s in
                case ack_answer env of
                  Inl err \<Rightarrow> (Inl err, s')
                | Inr acknowledged \<Rightarrow>
                    settled_as (if acknowledged then Settled_Cancelled else Settled_Lease_Expired) s')
           | Not_Due \<Rightarrow> settled_as Settled_Lease_Expired s
           | Expire_Stale \<Rightarrow> settled_as Settled_Lease_Expired s))"

section \<open>Frame of the primitive operations\<close>

lemma submit_frame [simp]:
  "claimed (submitted out s) = claimed s"
  "lease_ms (submitted out s) = lease_ms s"
  "signal_reason (submitted out s) = signal_reason s"
  "expiration_timer (submitted out s) = expiration_timer s"
  "lease_watchdog (submitted out s) = lease_watchdog s"
  "lease_window_ends_at (submitted out s) = lease_window_ends_at s"
  "expiration_due_at (submitted out s) = expiration_due_at s"
  "expiration_promise (submitted out s) = expiration_promise s"
  "heartbeat_stopped (submitted out s) = heartbeat_stopped s"
  "expiry_reported (submitted out s) = expiry_reported s"
  "settling (submitted out s) = settling s"
  "heartbeat_registered (submitted out s) = heartbeat_registered s"
  "shutdown_requested (submitted out s) = shutdown_requested s"
  "activation_outcome (submitted out s) = activation_outcome s"
  "handler_executions (submitted out s) = handler_executions s"
  by (simp_all add: submit_def)

lemma controller_abort_frame [simp]:
  "claimed (controller_abort r s) = claimed s"
  "lease_ms (controller_abort r s) = lease_ms s"
  "accepted (controller_abort r s) = accepted s"
  "expiration_timer (controller_abort r s) = expiration_timer s"
  "lease_watchdog (controller_abort r s) = lease_watchdog s"
  "lease_window_ends_at (controller_abort r s) = lease_window_ends_at s"
  "expiration_due_at (controller_abort r s) = expiration_due_at s"
  "expiration_promise (controller_abort r s) = expiration_promise s"
  "heartbeat_stopped (controller_abort r s) = heartbeat_stopped s"
  "expiry_reported (controller_abort r s) = expiry_reported s"
  "settling (controller_abort r s) = settling s"
  "heartbeat_registered (controller_abort r s) = heartbeat_registered s"
  "shutdown_requested (controller_abort r s) = shutdown_requested s"
  "activation_outcome (controller_abort r s) = activation_outcome s"
  "handler_executions (controller_abort r s) = handler_executions s"
  by (simp_all add: controller_abort_def split: option.splits)

lemma abort_frame [simp]:
  "claimed (abort r s) = claimed s"
  "lease_ms (abort r s) = lease_ms s"
  "accepted (abort r s) = accepted s"
  "expiration_timer (abort r s) = expiration_timer s"
  "lease_watchdog (abort r s) = lease_watchdog s"
  "lease_window_ends_at (abort r s) = lease_window_ends_at s"
  "expiration_due_at (abort r s) = expiration_due_at s"
  "expiration_promise (abort r s) = expiration_promise s"
  "heartbeat_stopped (abort r s) = heartbeat_stopped s"
  "expiry_reported (abort r s) = expiry_reported s"
  "settling (abort r s) = settling s"
  "heartbeat_registered (abort r s) = heartbeat_registered s"
  "shutdown_requested (abort r s) = shutdown_requested s"
  "activation_outcome (abort r s) = activation_outcome s"
  "handler_executions (abort r s) = handler_executions s"
  by (simp_all add: abort_def)

lemma record_execution_frame [simp]:
  "claimed (record_execution out s) = claimed s"
  "lease_ms (record_execution out s) = lease_ms s"
  "accepted (record_execution out s) = accepted s"
  "signal_reason (record_execution out s) = signal_reason s"
  "expiration_timer (record_execution out s) = expiration_timer s"
  "lease_watchdog (record_execution out s) = lease_watchdog s"
  "lease_window_ends_at (record_execution out s) = lease_window_ends_at s"
  "expiration_due_at (record_execution out s) = expiration_due_at s"
  "expiration_promise (record_execution out s) = expiration_promise s"
  "heartbeat_stopped (record_execution out s) = heartbeat_stopped s"
  "expiry_reported (record_execution out s) = expiry_reported s"
  "settling (record_execution out s) = settling s"
  "heartbeat_registered (record_execution out s) = heartbeat_registered s"
  "shutdown_requested (record_execution out s) = shutdown_requested s"
  by (simp_all add: record_execution_def)

lemma stop_heartbeat_frame [simp]:
  "claimed (stop_heartbeat s) = claimed s"
  "lease_ms (stop_heartbeat s) = lease_ms s"
  "accepted (stop_heartbeat s) = accepted s"
  "signal_reason (stop_heartbeat s) = signal_reason s"
  "expiration_timer (stop_heartbeat s) = expiration_timer s"
  "lease_watchdog (stop_heartbeat s) = lease_watchdog s"
  "lease_window_ends_at (stop_heartbeat s) = lease_window_ends_at s"
  "expiration_due_at (stop_heartbeat s) = expiration_due_at s"
  "expiration_promise (stop_heartbeat s) = expiration_promise s"
  "expiry_reported (stop_heartbeat s) = expiry_reported s"
  "settling (stop_heartbeat s) = settling s"
  "shutdown_requested (stop_heartbeat s) = shutdown_requested s"
  "activation_outcome (stop_heartbeat s) = activation_outcome s"
  "handler_executions (stop_heartbeat s) = handler_executions s"
  by (simp_all add: stop_heartbeat_def)

lemma stop_frame [simp]:
  "claimed (stop s) = claimed s"
  "lease_ms (stop s) = lease_ms s"
  "accepted (stop s) = accepted s"
  "signal_reason (stop s) = signal_reason s"
  "expiration_due_at (stop s) = expiration_due_at s"
  "expiration_promise (stop s) = expiration_promise s"
  "expiry_reported (stop s) = expiry_reported s"
  "settling (stop s) = settling s"
  "shutdown_requested (stop s) = shutdown_requested s"
  "activation_outcome (stop s) = activation_outcome s"
  "handler_executions (stop s) = handler_executions s"
  by (simp_all add: stop_def)

lemma stop_fields [simp]:
  "heartbeat_stopped (stop s)" "\<not> heartbeat_registered (stop s)"
  "expiration_timer (stop s) = None" "lease_watchdog (stop s) = None"
  "lease_window_ends_at (stop s) = None"
  by (simp_all add: stop_def stop_heartbeat_def)

lemma stop_heartbeat_fields [simp]: "heartbeat_stopped (stop_heartbeat s)"
  by (simp add: stop_heartbeat_def)

lemma accepted_submit [simp]:
  "accepted (submitted out s) = Some (case accepted s of None \<Rightarrow> out | Some w \<Rightarrow> w)"
  by (auto simp: submit_def)

lemma fst_submit [simp]: "fst (submit out s) \<longleftrightarrow> accepted s = None"
  by (simp add: submit_def)

lemma signal_controller_abort [simp]:
  "signal_reason (controller_abort r s) = Some (case signal_reason s of None \<Rightarrow> r | Some w \<Rightarrow> w)"
  by (auto simp: controller_abort_def split: option.splits)

lemma signal_abort [simp]:
  "signal_reason (abort r s) = Some (case signal_reason s of None \<Rightarrow> r | Some w \<Rightarrow> w)"
  by (auto simp: abort_def split: option.splits)

text \<open>The arbiter, the abort signal and the activation are cells that are written once.\<close>

interpretation arbiter: set_once accepted submitted
  by unfold_locales simp_all

interpretation signal: set_once signal_reason controller_abort
  by unfold_locales simp_all

section \<open>Settled cells stay settled\<close>

lemmas attempt_defs =
  end_lease_window_def lose_lease_def renew_lease_def check_window_def require_lease_def
  require_settlement_lease_def abort_for_shutdown_def suspend_def suspend_for_scheduled_wait_def
  mark_cancellation_requested_def acknowledge_cancellation_def record_settled_def
  acknowledge_requested_begin_def acknowledge_requested_end_def submit_and_record_def
  record_failure_def record_release_def arm_expiration_timer_def expire_ownership_def
  apply_expire_status_def

lemmas attempt_splits =
  option.splits if_splits prod.splits expiration_promise.splits expiration_phase.splits
  expire_owned_status.splits heartbeat_status.splits failure_state.splits release_status.splits
  settled_outcome.splits sum.splits

lemma accepted_react: "accepted s = Some v \<Longrightarrow> accepted (react now res r s) = Some v"
  by (induction now res r s rule: react.induct)
    (auto simp: attempt_defs Let_def split: attempt_splits)

lemma accepted_fold_react:
  "accepted s = Some v \<Longrightarrow> accepted (fold (react now res) rs s) = Some v"
  by (rule fold_invariant_list) (simp_all add: accepted_react)

lemma accepted_settle_promise:
  "accepted s = Some v \<Longrightarrow> accepted (settle_promise now res rs s) = Some v"
  by (auto simp: settle_promise_def attempt_defs intro!: accepted_fold_react split: attempt_splits)

lemma accepted_attach: "accepted s = Some v \<Longrightarrow> accepted (attach now r s) = Some v"
  by (auto simp: attach_def accepted_react split: attempt_splits)

lemma accepted_sleep_ends:
  "accepted s = Some v \<Longrightarrow> accepted (expiration_sleep_ends now s) = Some v"
  by (auto simp: expiration_sleep_ends_def accepted_settle_promise split: attempt_splits)

lemma accepted_step: "accepted s = Some v \<Longrightarrow> accepted (attempt_step e s) = Some v"
  by (cases e)
    (auto simp: attempt_defs Let_def refresh_ownership_def expiration_timer_fires_def
      expire_on_confirmation_def lease_watchdog_fires_def expire_answer_def
      expiration_sleep_timer_def settle_expiration_begin_def accepted_attach
      accepted_settle_promise accepted_sleep_ends submit_def split: attempt_splits)

end
