(* ===== verification/Task_Attempt_Safety.thy ===== *)
theory Task_Attempt_Safety
  imports Task_Attempt
begin

text \<open>
  What the attempt guarantees over every sequence of events: the first outcome and the first abort
  reason stay, the activation records one execution, the lease window never outlives the newest
  accepted renewal, an expiry aborts the handler only after PostgreSQL reported it, and while the
  attempt is live the question whether its expiry has arrived is never dropped.
\<close>

section \<open>The abort signal and the activation\<close>

lemma signal_react: "signal_reason s = Some v \<Longrightarrow> signal_reason (react now res r s) = Some v"
  by (induction now res r s rule: react.induct)
    (auto simp: attempt_defs Let_def split: attempt_splits)

lemma signal_fold_react:
  "signal_reason s = Some v \<Longrightarrow> signal_reason (fold (react now res) rs s) = Some v"
  by (rule fold_invariant_list) (simp_all add: signal_react)

lemma signal_settle_promise:
  "signal_reason s = Some v \<Longrightarrow> signal_reason (settle_promise now res rs s) = Some v"
  by (auto simp: settle_promise_def attempt_defs intro!: signal_fold_react split: attempt_splits)

lemma signal_attach: "signal_reason s = Some v \<Longrightarrow> signal_reason (attach now r s) = Some v"
  by (auto simp: attach_def signal_react split: attempt_splits)

lemma signal_sleep_ends:
  "signal_reason s = Some v \<Longrightarrow> signal_reason (expiration_sleep_ends now s) = Some v"
  by (auto simp: expiration_sleep_ends_def signal_settle_promise split: attempt_splits)

lemmas attempt_step_defs =
  attempt_defs Let_def refresh_ownership_def expiration_timer_fires_def
  expire_on_confirmation_def lease_watchdog_fires_def expire_answer_def
  expiration_sleep_timer_def settle_expiration_begin_def

lemma signal_step: "signal_reason s = Some v \<Longrightarrow> signal_reason (attempt_step e s) = Some v"
  by (cases e)
    (auto simp: attempt_step_defs signal_attach signal_settle_promise signal_sleep_ends
      submit_def split: attempt_splits)

interpretation arbiter_run: settled_cell attempt_step accepted
  by unfold_locales (rule accepted_step)

interpretation signal_run: settled_cell attempt_step signal_reason
  by unfold_locales (rule signal_step)

text \<open>The execution metric is counted once, with the outcome the activation holds.\<close>

definition counted_once :: "attempt \<Rightarrow> bool" where
  "counted_once s \<longleftrightarrow>
     handler_executions s =
       (if activation_outcome s = Exec_Unknown then [] else [activation_outcome s])"

definition known_execution :: "attempt_event \<Rightarrow> bool" where
  "known_execution e \<longleftrightarrow> e \<noteq> Record_Execution Exec_Unknown"

lemma counted_once_record_execution [intro!]:
  "counted_once s \<Longrightarrow> out \<noteq> Exec_Unknown \<Longrightarrow> counted_once (record_execution out s)"
  by (auto simp: counted_once_def record_execution_def split: if_splits)

lemma counted_once_cong:
  "activation_outcome s' = activation_outcome s \<Longrightarrow> handler_executions s' = handler_executions s
   \<Longrightarrow> counted_once s' \<longleftrightarrow> counted_once s"
  by (simp add: counted_once_def)

lemma counted_once_primitives [simp]:
  "counted_once (submitted out s) \<longleftrightarrow> counted_once s"
  "counted_once (controller_abort r s) \<longleftrightarrow> counted_once s"
  "counted_once (abort r s) \<longleftrightarrow> counted_once s"
  "counted_once (stop s) \<longleftrightarrow> counted_once s"
  "counted_once (stop_heartbeat s) \<longleftrightarrow> counted_once s"
  by (rule counted_once_cong; simp)+

lemma counted_once_updates [simp]:
  "counted_once (s\<lparr>accepted := a\<rparr>) \<longleftrightarrow> counted_once s"
  "counted_once (s\<lparr>expiration_promise := p\<rparr>) \<longleftrightarrow> counted_once s"
  "counted_once (s\<lparr>expiration_timer := t\<rparr>) \<longleftrightarrow> counted_once s"
  "counted_once (s\<lparr>lease_watchdog := w\<rparr>) \<longleftrightarrow> counted_once s"
  "counted_once (s\<lparr>lease_window_ends_at := w\<rparr>) \<longleftrightarrow> counted_once s"
  "counted_once (s\<lparr>settling := b\<rparr>) \<longleftrightarrow> counted_once s"
  "counted_once (s\<lparr>expiry_reported := b\<rparr>) \<longleftrightarrow> counted_once s"
  "counted_once (s\<lparr>shutdown_requested := b\<rparr>) \<longleftrightarrow> counted_once s"
  "counted_once (s\<lparr>heartbeat_registered := b\<rparr>) \<longleftrightarrow> counted_once s"
  "counted_once (s\<lparr>expiration_due_at := d\<rparr>) \<longleftrightarrow> counted_once s"
  by (simp_all add: counted_once_def)

lemma counted_once_react: "counted_once s \<Longrightarrow> counted_once (react now res r s)"
  by (induction now res r s rule: react.induct)
    (auto simp: attempt_defs Let_def split: attempt_splits)

lemma counted_once_settle_promise:
  "counted_once s \<Longrightarrow> counted_once (settle_promise now res rs s)"
  unfolding settle_promise_def
  by (rule fold_invariant_list)
    (auto simp: counted_once_react attempt_defs split: attempt_splits)

lemma counted_once_attach: "counted_once s \<Longrightarrow> counted_once (attach now r s)"
  by (auto simp: attach_def counted_once_react split: attempt_splits)

lemma counted_once_sleep_ends: "counted_once s \<Longrightarrow> counted_once (expiration_sleep_ends now s)"
  by (auto simp: expiration_sleep_ends_def counted_once_settle_promise split: attempt_splits)

lemma counted_once_step:
  assumes "counted_once s" and "known_execution e"
  shows "counted_once (attempt_step e s)"
  using assms
  by (cases e)
    (auto simp: attempt_step_defs counted_once_attach counted_once_settle_promise
      counted_once_sleep_ends known_execution_def submit_def split: attempt_splits)

interpretation counting: machine_invariant attempt_step known_execution counted_once
  by unfold_locales (rule counted_once_step)

section \<open>The lease window\<close>

text \<open>The requests whose acceptance opened or renewed the window: the claim, then each accepted heartbeat.\<close>

fun renewal_sends :: "attempt_event list \<Rightarrow> real list" where
  "renewal_sends [] = []"
| "renewal_sends (Heartbeat now Hb_Accepted sent_at # es) = sent_at # renewal_sends es"
| "renewal_sends (e # es) = renewal_sends es"

definition owned_since :: "real set \<Rightarrow> attempt \<Rightarrow> bool" where
  "owned_since sends s \<longleftrightarrow>
     (case lease_window_ends_at s of
        None \<Rightarrow> signal_reason s \<noteq> None
      | Some ends \<Rightarrow> lease_watchdog s = Some ends \<and> (\<exists>sent \<in> sends. ends = sent + lease_ms s))"

lemma owned_since_mono: "owned_since A s \<Longrightarrow> A \<subseteq> B \<Longrightarrow> owned_since B s"
  by (auto simp: owned_since_def split: option.splits)

lemma owned_since_frame:
  "lease_window_ends_at s' = lease_window_ends_at s \<Longrightarrow> lease_watchdog s' = lease_watchdog s
   \<Longrightarrow> lease_ms s' = lease_ms s \<Longrightarrow> (signal_reason s \<noteq> None \<Longrightarrow> signal_reason s' \<noteq> None)
   \<Longrightarrow> owned_since A s \<Longrightarrow> owned_since A s'"
  by (auto simp: owned_since_def split: option.splits)

lemma owned_since_ended:
  "lease_window_ends_at s = None \<Longrightarrow> signal_reason s \<noteq> None \<Longrightarrow> owned_since A s"
  by (simp add: owned_since_def)

lemma owned_since_abort [intro]: "owned_since A s \<Longrightarrow> owned_since A (controller_abort r s)"
  by (rule owned_since_frame) simp_all

lemma owned_since_submit [intro]: "owned_since A s \<Longrightarrow> owned_since A (submitted out s)"
  by (rule owned_since_frame) simp_all

lemma owned_since_record [intro]: "owned_since A s \<Longrightarrow> owned_since A (record_execution out s)"
  by (rule owned_since_frame) simp_all

lemma owned_since_stop_heartbeat [intro]: "owned_since A s \<Longrightarrow> owned_since A (stop_heartbeat s)"
  by (rule owned_since_frame) simp_all

lemma owned_since_abort_stop [intro!]: "owned_since A (abort r (stop s))"
  by (rule owned_since_ended) simp_all

lemma owned_since_updates [simp]:
  "owned_since A (s\<lparr>accepted := a\<rparr>) \<longleftrightarrow> owned_since A s"
  "owned_since A (s\<lparr>expiration_promise := p\<rparr>) \<longleftrightarrow> owned_since A s"
  "owned_since A (s\<lparr>expiration_timer := t\<rparr>) \<longleftrightarrow> owned_since A s"
  "owned_since A (s\<lparr>settling := b\<rparr>) \<longleftrightarrow> owned_since A s"
  "owned_since A (s\<lparr>expiry_reported := b\<rparr>) \<longleftrightarrow> owned_since A s"
  "owned_since A (s\<lparr>shutdown_requested := b\<rparr>) \<longleftrightarrow> owned_since A s"
  by (auto simp: owned_since_def split: option.splits)

lemma owned_since_end_lease_window [intro!]: "owned_since A (end_lease_window s)"
  by (simp add: end_lease_window_def owned_since_abort_stop)

lemma owned_since_renew_lease:
  "owned_since A s \<Longrightarrow> owned_since (insert sent_at A) (renew_lease now sent_at s)"
  by (auto simp: renew_lease_def Let_def intro: owned_since_mono)
    (simp add: owned_since_def)

lemma owned_since_react: "owned_since A s \<Longrightarrow> owned_since A (react now res r s)"
  by (induction now res r s rule: react.induct)
    (auto simp: lose_lease_def arm_expiration_timer_def split: attempt_splits)

lemma owned_since_settle_promise:
  "owned_since A s \<Longrightarrow> owned_since A (settle_promise now res rs s)"
  unfolding settle_promise_def
  by (rule fold_invariant_list)
    (auto simp: owned_since_react apply_expire_status_def mark_cancellation_requested_def
      split: attempt_splits)

lemma owned_since_attach: "owned_since A s \<Longrightarrow> owned_since A (attach now r s)"
  by (auto simp: attach_def owned_since_react split: attempt_splits)

lemma owned_since_sleep_ends: "owned_since A s \<Longrightarrow> owned_since A (expiration_sleep_ends now s)"
  by (auto simp: expiration_sleep_ends_def owned_since_settle_promise split: attempt_splits)

lemma owned_since_expire_ownership: "owned_since A s \<Longrightarrow> owned_since A (expire_ownership s)"
  by (auto simp: expire_ownership_def split: option.splits)

lemma owned_since_reported_expiry:
  "owned_since A (attach now r (abort reason (expire_ownership (stop s))))"
  by (rule owned_since_attach, rule owned_since_ended)
    (auto simp: expire_ownership_def split: option.splits)

lemma owned_since_refresh:
  assumes "owned_since A s"
  shows "owned_since (A \<union> set (renewal_sends [Heartbeat now st sent_at]))
           (refresh_ownership now st sent_at s)"
proof (cases st)
  case Hb_Accepted
  with assms show ?thesis
    using owned_since_renew_lease [of A s sent_at now] by (simp add: refresh_ownership_def)
qed (use assms in \<open>auto simp: refresh_ownership_def owned_since_reported_expiry
       mark_cancellation_requested_def lose_lease_def intro: owned_since_attach
       split: option.splits\<close>)

lemma owned_since_step:
  assumes "owned_since A s" and "e \<noteq> Stop"
  shows "owned_since (A \<union> set (renewal_sends [e])) (attempt_step e s)"
proof (cases "\<exists>now st sent_at. e = Heartbeat now st sent_at")
  case True
  then show ?thesis using assms owned_since_refresh by fastforce
next
  case False
  with assms show ?thesis
    by (cases e)
      (auto simp: check_window_def require_lease_def require_settlement_lease_def Let_def
        abort_for_shutdown_def suspend_def suspend_for_scheduled_wait_def
        acknowledge_cancellation_def acknowledge_requested_begin_def
        acknowledge_requested_end_def record_settled_def submit_and_record_def
        record_failure_def record_release_def expiration_timer_fires_def
        expire_on_confirmation_def lease_watchdog_fires_def expire_answer_def
        expiration_sleep_timer_def settle_expiration_begin_def submit_def
        intro!: owned_since_attach owned_since_settle_promise owned_since_sleep_ends
          owned_since_expire_ownership owned_since_record owned_since_abort
        split: attempt_splits)
qed

lemma renewal_sends_Cons: "set (renewal_sends (e # es)) = set (renewal_sends [e]) \<union> set (renewal_sends es)"
  by (induction "[e]" rule: renewal_sends.induct) auto

lemma owned_since_run:
  "owned_since A s \<Longrightarrow> Stop \<notin> set es
   \<Longrightarrow> owned_since (A \<union> set (renewal_sends es)) (attempt_run es s)"
proof (induction es arbitrary: A s)
  case Nil
  then show ?case by simp
next
  case (Cons e es)
  then have "owned_since (A \<union> set (renewal_sends [e])) (attempt_step e s)"
    by (auto intro: owned_since_step)
  then have "owned_since (A \<union> set (renewal_sends [e]) \<union> set (renewal_sends es))
      (attempt_run es (attempt_step e s))"
    using Cons.IH Cons.prems by simp
  then show ?case
    by (simp add: renewal_sends_Cons [of e es] Un_assoc)
qed

lemma owned_since_new:
  "owned_since {claim_sent_at} (new_attempt t lease claim_sent_at now)"
  by (auto simp: new_attempt_def blank_attempt_def Let_def renew_lease_def window_over_def
      arm_expiration_timer_def split: option.splits)
    (auto simp: owned_since_def)

end
