(* ===== verification/Task_Attempt_Expiry.thy ===== *)
theory Task_Attempt_Expiry
  imports Task_Attempt_Safety
begin

text \<open>
  The expiry of an attempt: who may abort the handler for it, that a live attempt never stops asking
  PostgreSQL, the bounds of the retry waits, and the answer of the reconciliation of a stale write.
\<close>

section \<open>An expiry abort has a report of PostgreSQL\<close>

definition reports_deadline :: "attempt_event \<Rightarrow> bool" where
  "reports_deadline e =
     (case e of
        Heartbeat now st sent_at \<Rightarrow> st = Hb_Deadline_Exceeded
      | Expire_Answer now res \<Rightarrow> res = Inr Expire_Deadline_Exceeded
      | _ \<Rightarrow> False)"

definition reports_timeout :: "attempt_event \<Rightarrow> bool" where
  "reports_timeout e =
     (case e of
        Heartbeat now st sent_at \<Rightarrow> st = Hb_Timeout_Exceeded
      | Expire_Answer now res \<Rightarrow> res = Inr Expire_Timeout_Exceeded
      | _ \<Rightarrow> False)"

text \<open>The status an expiry reason needs in the memoised promise.\<close>

definition unreported :: "(abort_reason \<Rightarrow> bool) \<Rightarrow> expire_owned_status \<Rightarrow> attempt \<Rightarrow> bool" where
  "unreported P st s \<longleftrightarrow>
     (\<forall>r. signal_reason s = Some r \<longrightarrow> \<not> P r) \<and> expiration_promise s \<noteq> Some (Fulfilled st)"

definition is_deadline :: "abort_reason \<Rightarrow> bool" where
  "is_deadline r \<longleftrightarrow> (\<exists>i. r = DeadlineExceededError i)"

definition is_timeout :: "abort_reason \<Rightarrow> bool" where
  "is_timeout r \<longleftrightarrow> (\<exists>i n. r = ExecutionTimeoutError i n)"

lemma is_deadline_simps [simp]:
  "is_deadline (DeadlineExceededError i)" "\<not> is_deadline (WorkerShutdownError i)"
  "\<not> is_deadline DURABLE_WAIT_SUSPENSION" "\<not> is_deadline CHILD_TASK_SUSPENSION"
  "\<not> is_deadline (CancellationRequestedError i)" "\<not> is_deadline (ExecutionTimeoutError i n)"
  "\<not> is_deadline Task_Lease_Was_Lost" "\<not> is_deadline No_Heartbeat_Accepted"
  "\<not> is_deadline (Request_Failure m)"
  by (simp_all add: is_deadline_def)

lemma is_timeout_simps [simp]:
  "is_timeout (ExecutionTimeoutError i n)" "\<not> is_timeout (WorkerShutdownError i)"
  "\<not> is_timeout DURABLE_WAIT_SUSPENSION" "\<not> is_timeout CHILD_TASK_SUSPENSION"
  "\<not> is_timeout (CancellationRequestedError i)" "\<not> is_timeout (DeadlineExceededError i)"
  "\<not> is_timeout Task_Lease_Was_Lost" "\<not> is_timeout No_Heartbeat_Accepted"
  "\<not> is_timeout (Request_Failure m)"
  by (simp_all add: is_timeout_def)

lemma suspension_reason_no_expiry [simp]:
  "\<not> is_deadline (suspension_reason k)" "\<not> is_timeout (suspension_reason k)"
  by (cases k; simp)+

abbreviation "no_deadline \<equiv> unreported is_deadline Expire_Deadline_Exceeded"
abbreviation "no_timeout \<equiv> unreported is_timeout Expire_Timeout_Exceeded"

lemma unreported_frame:
  "signal_reason s' = signal_reason s \<Longrightarrow> expiration_promise s' = expiration_promise s
   \<Longrightarrow> unreported P st s \<Longrightarrow> unreported P st s'"
  by (simp add: unreported_def)

lemma unreported_primitives [simp]:
  "unreported P st (submitted out s) \<longleftrightarrow> unreported P st s"
  "unreported P st (record_execution ex s) \<longleftrightarrow> unreported P st s"
  "unreported P st (stop s) \<longleftrightarrow> unreported P st s"
  "unreported P st (stop_heartbeat s) \<longleftrightarrow> unreported P st s"
  by (simp_all add: unreported_def)

lemma unreported_abort [intro!]:
  "unreported P st s \<Longrightarrow> \<not> P r \<Longrightarrow> unreported P st (abort r s)"
  "unreported P st s \<Longrightarrow> \<not> P r \<Longrightarrow> unreported P st (controller_abort r s)"
  by (auto simp: unreported_def split: option.splits)

lemma unreported_updates [simp]:
  "unreported P st (s\<lparr>accepted := a\<rparr>) \<longleftrightarrow> unreported P st s"
  "unreported P st (s\<lparr>expiration_timer := t\<rparr>) \<longleftrightarrow> unreported P st s"
  "unreported P st (s\<lparr>lease_watchdog := w\<rparr>) \<longleftrightarrow> unreported P st s"
  "unreported P st (s\<lparr>lease_window_ends_at := w\<rparr>) \<longleftrightarrow> unreported P st s"
  "unreported P st (s\<lparr>settling := b\<rparr>) \<longleftrightarrow> unreported P st s"
  "unreported P st (s\<lparr>expiry_reported := b\<rparr>) \<longleftrightarrow> unreported P st s"
  "unreported P st (s\<lparr>shutdown_requested := b\<rparr>) \<longleftrightarrow> unreported P st s"
  by (simp_all add: unreported_def)

lemma unreported_promise [intro!]:
  "unreported P st s \<Longrightarrow> p \<noteq> Some (Fulfilled st) \<Longrightarrow> unreported P st (s\<lparr>expiration_promise := p\<rparr>)"
  by (simp add: unreported_def)

lemma unreported_promiseD: "unreported P st s \<Longrightarrow> expiration_promise s = Some (Fulfilled st') \<Longrightarrow> st' \<noteq> st"
  by (auto simp: unreported_def)

lemma no_deadline_react:
  "no_deadline s \<Longrightarrow> res \<noteq> Inr Expire_Deadline_Exceeded \<Longrightarrow> no_deadline (react now res r s)"
  by (induction now res r s rule: react.induct)
    (auto simp: attempt_defs Let_def split: attempt_splits)

lemma no_timeout_react:
  "no_timeout s \<Longrightarrow> res \<noteq> Inr Expire_Timeout_Exceeded \<Longrightarrow> no_timeout (react now res r s)"
  by (induction now res r s rule: react.induct)
    (auto simp: attempt_defs Let_def split: attempt_splits)

lemma no_deadline_settle:
  "no_deadline s \<Longrightarrow> res \<noteq> Inr Expire_Deadline_Exceeded \<Longrightarrow> no_deadline (settle_promise now res rs s)"
  unfolding settle_promise_def
  by (rule fold_invariant_list)
    (auto simp: no_deadline_react attempt_defs split: attempt_splits)

lemma no_timeout_settle:
  "no_timeout s \<Longrightarrow> res \<noteq> Inr Expire_Timeout_Exceeded \<Longrightarrow> no_timeout (settle_promise now res rs s)"
  unfolding settle_promise_def
  by (rule fold_invariant_list)
    (auto simp: no_timeout_react attempt_defs split: attempt_splits)

lemma no_deadline_attach: "no_deadline s \<Longrightarrow> no_deadline (attach now r s)"
  by (auto simp: attach_def split: option.splits expiration_promise.splits
      intro!: no_deadline_react dest: unreported_promiseD)

lemma no_timeout_attach: "no_timeout s \<Longrightarrow> no_timeout (attach now r s)"
  by (auto simp: attach_def split: option.splits expiration_promise.splits
      intro!: no_timeout_react dest: unreported_promiseD)

lemma no_deadline_sleep_ends: "no_deadline s \<Longrightarrow> no_deadline (expiration_sleep_ends now s)"
  by (auto simp: expiration_sleep_ends_def no_deadline_settle split: attempt_splits)

lemma no_timeout_sleep_ends: "no_timeout s \<Longrightarrow> no_timeout (expiration_sleep_ends now s)"
  by (auto simp: expiration_sleep_ends_def no_timeout_settle split: attempt_splits)

lemma no_deadline_step: "no_deadline s \<Longrightarrow> \<not> reports_deadline e \<Longrightarrow> no_deadline (attempt_step e s)"
  by (cases e)
    (auto simp: attempt_step_defs reports_deadline_def submit_def
      intro!: no_deadline_attach no_deadline_settle no_deadline_sleep_ends split: attempt_splits)

lemma no_timeout_step: "no_timeout s \<Longrightarrow> \<not> reports_timeout e \<Longrightarrow> no_timeout (attempt_step e s)"
  by (cases e)
    (auto simp: attempt_step_defs reports_timeout_def submit_def
      intro!: no_timeout_attach no_timeout_settle no_timeout_sleep_ends split: attempt_splits)

interpretation deadline: machine_invariant attempt_step "\<lambda>e. \<not> reports_deadline e" no_deadline
  by unfold_locales (rule no_deadline_step)

interpretation timeout: machine_invariant attempt_step "\<lambda>e. \<not> reports_timeout e" no_timeout
  by unfold_locales (rule no_timeout_step)

lemma new_attempt_unreported: "\<not> P No_Heartbeat_Accepted \<Longrightarrow> unreported P st (new_attempt t lease c now)"
  by (auto simp: new_attempt_def blank_attempt_def Let_def renew_lease_def arm_expiration_timer_def
      end_lease_window_def unreported_def window_over_def split: option.splits)

section \<open>A live attempt keeps asking\<close>

text \<open>
  While no outcome has won, the heartbeat runs and the worker does not settle the attempt, an attempt
  with a deadline or a timeout has either its timer armed or its request pending, with the
  continuation that arms the timer again if the request fails.
\<close>

definition live :: "attempt \<Rightarrow> bool" where
  "live s \<longleftrightarrow> accepted s = None \<and> \<not> heartbeat_stopped s \<and> \<not> settling s"

definition timer_armed :: "attempt \<Rightarrow> bool" where
  "timer_armed s \<longleftrightarrow> expiration_timer s \<noteq> None \<and> expiration_promise s = None"

definition request_pending :: "attempt \<Rightarrow> bool" where
  "request_pending s \<longleftrightarrow>
     (\<exists>ph rs retry. expiration_promise s = Some (Pending ph rs) \<and> On_Confirmation retry \<in> set rs)"

definition keeps_asking :: "attempt \<Rightarrow> bool" where
  "keeps_asking s \<longleftrightarrow>
     (live s \<and> expiration_due_at s \<noteq> None \<longrightarrow> timer_armed s \<or> request_pending s)"

lemma live_not_finished: "live s \<Longrightarrow> \<not> finished s"
  by (simp add: live_def finished_def)

lemma not_live_keeps_asking: "\<not> live s \<Longrightarrow> keeps_asking s"
  by (simp add: keeps_asking_def)

lemma not_live_stop [simp]: "\<not> live (abort r (stop s))" "\<not> live (stop s)" "\<not> live (stop_heartbeat s)"
  by (simp_all add: live_def)

lemma live_primitives [simp]:
  "\<not> live (submitted out s)" "live (controller_abort r s) = live s" "live (abort r s) = live s"
  "live (record_execution ex s) = live s"
  by (simp_all add: live_def)

lemma live_updates [simp]:
  "live (s\<lparr>expiration_promise := p\<rparr>) = live s" "live (s\<lparr>expiration_timer := t\<rparr>) = live s"
  "live (s\<lparr>lease_watchdog := w\<rparr>) = live s" "live (s\<lparr>lease_window_ends_at := w\<rparr>) = live s"
  "live (s\<lparr>shutdown_requested := b\<rparr>) = live s" "\<not> live (s\<lparr>settling := True\<rparr>)"
  "\<not> live (s\<lparr>accepted := Some out\<rparr>)"
  by (simp_all add: live_def)

lemma not_live_react: "\<not> live s \<Longrightarrow> \<not> live (react now res r s)"
  by (induction now res r s rule: react.induct)
    (auto simp: lose_lease_def arm_expiration_timer_def split: attempt_splits)

lemma not_live_fold_react: "\<not> live s \<Longrightarrow> \<not> live (fold (react now res) rs s)"
  by (rule fold_invariant_list) (simp_all add: not_live_react)

lemma not_live_settle: "\<not> live s \<Longrightarrow> \<not> live (settle_promise now res rs s)"
  unfolding settle_promise_def
  by (rule not_live_fold_react)
    (auto simp: apply_expire_status_def mark_cancellation_requested_def split: attempt_splits)

lemma not_live_settle_answer: "st \<noteq> Not_Due \<Longrightarrow> \<not> live (settle_promise now (Inr st) rs s)"
  unfolding settle_promise_def
  by (rule not_live_fold_react)
    (auto simp: apply_expire_status_def mark_cancellation_requested_def split: attempt_splits)

lemma timer_armed_react_failure: "timer_armed s \<Longrightarrow> live (react now (Inl err) r s) \<Longrightarrow> timer_armed (react now (Inl err) r s)"
  by (cases r) (auto simp: timer_armed_def lose_lease_def arm_expiration_timer_def)

lemma timer_armed_fold_failure:
  "timer_armed s \<Longrightarrow> live (fold (react now (Inl err)) rs s) \<Longrightarrow> timer_armed (fold (react now (Inl err)) rs s)"
proof (induction rs arbitrary: s)
  case (Cons r rs)
  have "live (react now (Inl err) r s)"
    using Cons.prems(2) not_live_fold_react by fastforce
  then show ?case using Cons timer_armed_react_failure by simp
qed simp

text \<open>A failed request arms the timer again.\<close>

lemma failure_rearms:
  "On_Confirmation retry \<in> set rs \<Longrightarrow> live (fold (react now (Inl err)) rs s)
   \<Longrightarrow> timer_armed (fold (react now (Inl err)) rs s)"
proof (induction rs arbitrary: s)
  case (Cons r rs)
  let ?s = "react now (Inl err) r s"
  have live: "live ?s" using Cons.prems(2) not_live_fold_react by fastforce
  show ?case
  proof (cases r)
    case (On_Confirmation x)
    with live have "\<not> finished s"
      using not_live_react live_not_finished by blast
    with On_Confirmation have "timer_armed ?s"
      by (simp add: timer_armed_def arm_expiration_timer_def)
    with Cons.prems(2) show ?thesis by (simp add: timer_armed_fold_failure)
  qed (use Cons in auto)
qed simp

lemma keeps_asking_frame:
  "(live s' \<Longrightarrow> live s) \<Longrightarrow> expiration_due_at s' = expiration_due_at s
   \<Longrightarrow> expiration_timer s' = expiration_timer s \<Longrightarrow> expiration_promise s' = expiration_promise s
   \<Longrightarrow> keeps_asking s \<Longrightarrow> keeps_asking s'"
  by (auto simp: keeps_asking_def timer_armed_def request_pending_def)

lemma due_at_react [simp]: "expiration_due_at (react now res r s) = expiration_due_at s"
  by (induction now res r s rule: react.induct)
    (auto simp: lose_lease_def arm_expiration_timer_def split: attempt_splits)

lemma due_at_settle [simp]: "expiration_due_at (settle_promise now res rs s) = expiration_due_at s"
  by (auto simp: settle_promise_def apply_expire_status_def mark_cancellation_requested_def
      fold_field_eq [where g = expiration_due_at] split: attempt_splits)

lemma keeps_asking_settle_failure:
  assumes "On_Confirmation retry \<in> set rs"
  shows "keeps_asking (settle_promise now (Inl err) rs s)"
  using assms failure_rearms by (fastforce simp: keeps_asking_def settle_promise_def)

lemma keeps_asking_expire_answer:
  assumes "keeps_asking s"
  shows "keeps_asking (expire_answer now res s)"
proof (cases "live s \<and> expiration_due_at s \<noteq> None")
  case False
  then show ?thesis using assms
    by (auto simp: expire_answer_def keeps_asking_def not_live_settle split: attempt_splits)
next
  case True
  with assms consider "timer_armed s" | "request_pending s" by (auto simp: keeps_asking_def)
  then show ?thesis
  proof cases
    case 1
    then show ?thesis using assms by (simp add: expire_answer_def timer_armed_def)
  next
    case 2
    then show ?thesis using True assms live_not_finished [of s]
      by (auto simp: expire_answer_def request_pending_def keeps_asking_settle_failure
          not_live_keeps_asking not_live_settle_answer split: attempt_splits)
        (auto simp: keeps_asking_def request_pending_def)
  qed
qed

lemma not_live_attach: "\<not> live s \<Longrightarrow> \<not> live (attach now r s)"
  by (auto simp: attach_def not_live_react split: attempt_splits)

lemma not_live_expire_ownership [simp]: "live (expire_ownership s) = live s"
  by (simp add: expire_ownership_def split: option.splits)

lemma keeps_asking_sleep_ends: "keeps_asking s \<Longrightarrow> keeps_asking (expiration_sleep_ends now s)"
proof (cases "live s")
  case True
  then show "keeps_asking s \<Longrightarrow> ?thesis" using live_not_finished [of s]
    by (auto simp: expiration_sleep_ends_def keeps_asking_def timer_armed_def request_pending_def
        split: attempt_splits)
next
  case False
  then show ?thesis
    by (auto simp: expiration_sleep_ends_def not_live_settle intro!: not_live_keeps_asking
        split: attempt_splits)
qed

lemma keeps_asking_timer: "keeps_asking s \<Longrightarrow> keeps_asking (expiration_timer_fires now s)"
proof (cases "live s")
  case True
  then show "keeps_asking s \<Longrightarrow> ?thesis"
    by (auto simp: expiration_timer_fires_def expire_on_confirmation_def expire_ownership_def
        attach_def keeps_asking_def timer_armed_def request_pending_def
        simp del: react.simps split: option.splits expiration_promise.splits)
next
  case False
  then show ?thesis
    by (auto simp: expiration_timer_fires_def expire_on_confirmation_def not_live_attach
        intro!: not_live_keeps_asking split: option.splits)
qed

lemma keeps_asking_refresh: "keeps_asking s \<Longrightarrow> keeps_asking (refresh_ownership now st sent_at s)"
  by (cases st)
    (auto simp: refresh_ownership_def renew_lease_def Let_def end_lease_window_def lose_lease_def
      mark_cancellation_requested_def
      intro!: not_live_keeps_asking [of "attach now r s" for now r s] not_live_attach
        not_live_keeps_asking [of "abort r s" for r s]
      intro: keeps_asking_frame split: option.splits)

lemma keeps_asking_step: "keeps_asking s \<Longrightarrow> keeps_asking (attempt_step e s)"
proof (cases e)
  case (Settle_Expiration now)
  then show ?thesis
    by (simp add: settle_expiration_begin_def keeps_asking_sleep_ends not_live_keeps_asking)
next
  case (Expiration_Sleep now)
  then show "keeps_asking s \<Longrightarrow> ?thesis"
    by (auto simp: expiration_sleep_timer_def keeps_asking_sleep_ends split: attempt_splits)
qed (auto simp: keeps_asking_refresh keeps_asking_timer keeps_asking_expire_answer
       lease_watchdog_fires_def require_lease_def require_settlement_lease_def check_window_def
       end_lease_window_def Let_def abort_for_shutdown_def suspend_def
       suspend_for_scheduled_wait_def acknowledge_cancellation_def
       acknowledge_requested_begin_def acknowledge_requested_end_def record_settled_def
       submit_and_record_def record_failure_def record_release_def submit_def not_live_keeps_asking
       intro: keeps_asking_frame split: attempt_splits)

interpretation asking: machine_invariant attempt_step "\<lambda>_. True" keeps_asking
  by unfold_locales (rule keeps_asking_step)

lemma new_attempt_keeps_asking: "keeps_asking (new_attempt t lease c now)"
  by (auto simp: new_attempt_def blank_attempt_def Let_def renew_lease_def arm_expiration_timer_def
      end_lease_window_def keeps_asking_def timer_armed_def split: option.splits)

section \<open>The bounds of the retry waits\<close>

definition retry_ok :: "real \<Rightarrow> bool" where
  "retry_ok r \<longleftrightarrow> EXPIRATION_RETRY_MIN_MS \<le> r \<and> r \<le> EXPIRATION_RETRY_MAX_MS"

definition reaction_ok :: "expiration_reaction \<Rightarrow> bool" where
  "reaction_ok r = (case r of On_Confirmation x \<Rightarrow> retry_ok x | _ \<Rightarrow> True)"

definition phase_ok :: "expiration_phase \<Rightarrow> bool" where
  "phase_ok ph = (case ph of Asking r \<Rightarrow> retry_ok r | Sleeping r until \<Rightarrow> retry_ok r)"

definition retries_ok :: "attempt \<Rightarrow> bool" where
  "retries_ok s \<longleftrightarrow>
     (case expiration_timer s of None \<Rightarrow> True | Some (at_ms, r) \<Rightarrow> retry_ok r) \<and>
     (case expiration_promise s of
        Some (Pending ph rs) \<Rightarrow> phase_ok ph \<and> list_all reaction_ok rs
      | _ \<Rightarrow> True)"

lemma retry_ok_min [simp]: "retry_ok EXPIRATION_RETRY_MIN_MS"
  by (simp add: retry_ok_def EXPIRATION_RETRY_MIN_MS_def EXPIRATION_RETRY_MAX_MS_def)

lemma retry_ok_double [simp]: "retry_ok r \<Longrightarrow> retry_ok (min (r * 2) EXPIRATION_RETRY_MAX_MS)"
  by (auto simp: retry_ok_def EXPIRATION_RETRY_MIN_MS_def EXPIRATION_RETRY_MAX_MS_def min_def)

lemma retries_ok_frame:
  "retries_ok s \<Longrightarrow> expiration_promise s' = expiration_promise s
   \<Longrightarrow> expiration_timer s' = expiration_timer s \<or> expiration_timer s' = None \<Longrightarrow> retries_ok s'"
  by (auto simp: retries_ok_def)

lemma retries_ok_primitives [intro!]:
  "retries_ok s \<Longrightarrow> retries_ok (submitted out s)"
  "retries_ok s \<Longrightarrow> retries_ok (controller_abort r s)"
  "retries_ok s \<Longrightarrow> retries_ok (abort r s)"
  "retries_ok s \<Longrightarrow> retries_ok (stop s)"
  "retries_ok s \<Longrightarrow> retries_ok (stop_heartbeat s)"
  "retries_ok s \<Longrightarrow> retries_ok (record_execution ex s)"
  by (erule retries_ok_frame; simp)+

lemma retries_ok_updates [simp]:
  "retries_ok (s\<lparr>accepted := a\<rparr>) \<longleftrightarrow> retries_ok s"
  "retries_ok (s\<lparr>lease_watchdog := w\<rparr>) \<longleftrightarrow> retries_ok s"
  "retries_ok (s\<lparr>lease_window_ends_at := w\<rparr>) \<longleftrightarrow> retries_ok s"
  "retries_ok (s\<lparr>settling := b\<rparr>) \<longleftrightarrow> retries_ok s"
  "retries_ok (s\<lparr>expiry_reported := b\<rparr>) \<longleftrightarrow> retries_ok s"
  "retries_ok (s\<lparr>shutdown_requested := b\<rparr>) \<longleftrightarrow> retries_ok s"
  by (simp_all add: retries_ok_def)

lemma retries_ok_promise:
  "retries_ok s \<Longrightarrow> (\<And>ph rs. p = Some (Pending ph rs) \<Longrightarrow> phase_ok ph \<and> list_all reaction_ok rs)
   \<Longrightarrow> retries_ok (s\<lparr>expiration_promise := p\<rparr>)"
  by (auto simp: retries_ok_def split: option.splits expiration_promise.splits)

lemma retries_okD:
  "retries_ok s \<Longrightarrow> expiration_promise s = Some (Pending ph rs) \<Longrightarrow> phase_ok ph \<and> list_all reaction_ok rs"
  "retries_ok s \<Longrightarrow> expiration_timer s = Some (at_ms, r) \<Longrightarrow> retry_ok r"
  by (auto simp: retries_ok_def)

lemma retries_ok_react: "retries_ok s \<Longrightarrow> reaction_ok r \<Longrightarrow> retries_ok (react now res r s)"
  by (induction now res r s rule: react.induct)
    (auto simp: lose_lease_def arm_expiration_timer_def reaction_ok_def retries_ok_def [of "s\<lparr>expiration_timer := t\<rparr>" for s t]
      split: expire_owned_status.splits)

lemma retries_ok_settle:
  assumes "retries_ok s" and "list_all reaction_ok rs"
  shows "retries_ok (settle_promise now res rs s)"
  unfolding settle_promise_def
proof (rule fold_invariant_list)
  show "retries_ok (case res of
          Inr st \<Rightarrow> apply_expire_status st (s\<lparr>expiration_promise := Some (Fulfilled st)\<rparr>)
        | Inl err \<Rightarrow> s\<lparr>expiration_promise := Some (Rejected err)\<rparr>)"
    using assms(1)
    by (auto simp: apply_expire_status_def mark_cancellation_requested_def
        intro!: retries_ok_promise split: sum.splits expire_owned_status.splits)
qed (use assms(2) in \<open>auto simp: list_all_iff intro: retries_ok_react\<close>)

lemma retries_ok_attach: "retries_ok s \<Longrightarrow> reaction_ok r \<Longrightarrow> retries_ok (attach now r s)"
  by (auto simp: attach_def intro!: retries_ok_react retries_ok_promise dest: retries_okD
      split: option.splits expiration_promise.splits)

lemma retries_ok_expire_ownership: "retries_ok s \<Longrightarrow> retries_ok (expire_ownership s)"
  by (auto simp: expire_ownership_def phase_ok_def intro!: retries_ok_promise split: option.splits)

lemma retries_ok_sleep_ends: "retries_ok s \<Longrightarrow> retries_ok (expiration_sleep_ends now s)"
  by (auto simp: expiration_sleep_ends_def phase_ok_def dest: retries_okD
      intro!: retries_ok_settle retries_ok_promise split: option.splits expiration_promise.splits
        expiration_phase.splits)

lemma retries_ok_expire_answer: "retries_ok s \<Longrightarrow> retries_ok (expire_answer now res s)"
  by (auto simp: expire_answer_def phase_ok_def dest: retries_okD
      intro!: retries_ok_settle retries_ok_promise split: option.splits expiration_promise.splits
        expiration_phase.splits sum.splits)

lemma retries_ok_timer: "retries_ok s \<Longrightarrow> retries_ok (expiration_timer_fires now s)"
  by (auto simp: expiration_timer_fires_def expire_on_confirmation_def reaction_ok_def
      dest: retries_okD(2)
      intro!: retries_ok_attach retries_ok_expire_ownership
      intro: retries_ok_frame split: option.splits)

lemma retries_ok_step: "retries_ok s \<Longrightarrow> retries_ok (attempt_step e s)"
  by (cases e)
    (auto simp: retries_ok_timer retries_ok_expire_answer retries_ok_sleep_ends
      refresh_ownership_def renew_lease_def lose_lease_def mark_cancellation_requested_def
      lease_watchdog_fires_def require_lease_def require_settlement_lease_def check_window_def
      end_lease_window_def Let_def abort_for_shutdown_def suspend_def
      suspend_for_scheduled_wait_def acknowledge_cancellation_def
      acknowledge_requested_begin_def acknowledge_requested_end_def record_settled_def
      submit_and_record_def record_failure_def record_release_def settle_expiration_begin_def
      expiration_sleep_timer_def reaction_ok_def submit_def
      intro!: retries_ok_attach retries_ok_expire_ownership
      split: attempt_splits)

interpretation retries: machine_invariant attempt_step "\<lambda>_. True" retries_ok
  by unfold_locales (rule retries_ok_step)

lemma new_attempt_retries_ok: "retries_ok (new_attempt t lease c now)"
  by (auto simp: new_attempt_def blank_attempt_def Let_def renew_lease_def arm_expiration_timer_def
      end_lease_window_def retries_ok_def split: option.splits)

section \<open>Fields no event writes\<close>

lemma react_constants [simp]:
  "lease_ms (react now res r s) = lease_ms s" "claimed (react now res r s) = claimed s"
  by (induction now res r s rule: react.induct)
    (auto simp: lose_lease_def arm_expiration_timer_def split: attempt_splits)

lemma settle_promise_constants [simp]:
  "lease_ms (settle_promise now res rs s) = lease_ms s"
  "claimed (settle_promise now res rs s) = claimed s"
  by (auto simp: settle_promise_def apply_expire_status_def mark_cancellation_requested_def
      fold_field_eq [where g = lease_ms] fold_field_eq [where g = claimed] split: attempt_splits)

lemma attach_constants [simp]:
  "lease_ms (attach now r s) = lease_ms s" "claimed (attach now r s) = claimed s"
  "expiration_due_at (attach now r s) = expiration_due_at s"
  by (auto simp: attach_def split: attempt_splits)

lemma sleep_ends_constants [simp]:
  "lease_ms (expiration_sleep_ends now s) = lease_ms s"
  "claimed (expiration_sleep_ends now s) = claimed s"
  "expiration_due_at (expiration_sleep_ends now s) = expiration_due_at s"
  by (auto simp: expiration_sleep_ends_def split: attempt_splits)

lemma attempt_step_constants [simp]:
  "lease_ms (attempt_step e s) = lease_ms s"
  "claimed (attempt_step e s) = claimed s"
  "expiration_due_at (attempt_step e s) = expiration_due_at s"
  by (cases e; auto simp: attempt_step_defs submit_def split: attempt_splits)+

lemma attempt_run_constants [simp]:
  "lease_ms (attempt_run es s) = lease_ms s"
  "claimed (attempt_run es s) = claimed s"
  "expiration_due_at (attempt_run es s) = expiration_due_at s"
  by (rule fold_field_eq; simp)+

lemma new_attempt_constants [simp]:
  "lease_ms (new_attempt t lease c now) = lease"
  "claimed (new_attempt t lease c now) = t"
  "expiration_due_at (new_attempt t lease c now) =
     map_option (\<lambda>at_ms. now + at_ms - (lease_expires_at t - lease) + 1) (expiration_at t)"
  by (auto simp: new_attempt_def blank_attempt_def Let_def renew_lease_def arm_expiration_timer_def
      end_lease_window_def split: option.splits)

end
