(* ===== verification/Task_Attempt_Properties.thy ===== *)
theory Task_Attempt_Properties
  imports Task_Attempt_Expiry
begin

text \<open>The properties of the task attempt, over every sequence of events from its construction.\<close>

lemmas attempt_eval =
  attempt_step_defs new_attempt_def blank_attempt_def window_over_def submit_def stop_def
  stop_heartbeat_def abort_def controller_abort_def record_execution_def expiration_at_def
  earliest_def settle_promise_def attach_def finished_def EXPIRATION_RETRY_MIN_MS_def
  EXPIRATION_RETRY_MAX_MS_def expiration_wait_ms_def expiration_sleep_ends_def

text \<open>A task with a deadline 60 seconds after its claim and a lease of 30 seconds, for the witnesses.\<close>

definition sample_task :: claimed_task where
  "sample_task = \<lparr>task_id = ''t1'', task_attempt = 1, deadline_at = Some 90000,
     attempt_timeout_at = None, lease_expires_at = 60000\<rparr>"

text \<open>The same task under a lease of 70 seconds.\<close>

definition long_lease_task :: claimed_task where
  "long_lease_task = sample_task\<lparr>lease_expires_at := 100000\<rparr>"

section \<open>Outcomes\<close>

text \<open>
  C1. The first outcome submitted to the arbiter and the first reason of the abort signal are final:
  no later event of any kind changes either of them.
\<close>

theorem attempt_outcome_final:
  "(accepted (attempt_run es s) = Some out \<longrightarrow> accepted (attempt_run (es @ es') s) = Some out) \<and>
   (signal_reason (attempt_run es s) = Some r \<longrightarrow>
      signal_reason (attempt_run (es @ es') s) = Some r)"
  using arbiter_run.prefix_settled signal_run.prefix_settled by blast

theorem attempt_outcome_final_witness:
  "accepted (attempt_run ([Heartbeat 5 Hb_Cancel_Requested 4] @ [Submit Completed, Lease_Watchdog 50000])
      (new_attempt sample_task 30000 0 1)) = Some Cancelled \<and>
   signal_reason (attempt_run ([Heartbeat 5 Hb_Cancel_Requested 4] @ [Submit Completed, Lease_Watchdog 50000])
      (new_attempt sample_task 30000 0 1)) = Some (CancellationRequestedError ''t1'')"
proof -
  have a: "accepted (attempt_run [Heartbeat 5 Hb_Cancel_Requested 4]
      (new_attempt sample_task 30000 0 1)) = Some Cancelled"
    and s: "signal_reason (attempt_run [Heartbeat 5 Hb_Cancel_Requested 4]
      (new_attempt sample_task 30000 0 1)) = Some (CancellationRequestedError ''t1'')"
    by (simp_all add: attempt_eval sample_task_def)
  show ?thesis
    using a s attempt_outcome_final [of "[Heartbeat 5 Hb_Cancel_Requested 4]"
        "new_attempt sample_task 30000 0 1" Cancelled "[Submit Completed, Lease_Watchdog 50000]"
        "CancellationRequestedError ''t1''"]
    by blast
qed

text \<open>
  One activation counts one handler execution at most, and the counted outcome is the one the
  activation carries.
\<close>

lemma execution_counted_once:
  assumes "list_all known_execution es"
    and s: "s = attempt_run es (new_attempt t lease claim_sent_at now)"
  shows "handler_executions s =
           (if activation_outcome s = Exec_Unknown then [] else [activation_outcome s])"
proof -
  have "counted_once (new_attempt t lease claim_sent_at now)"
    by (auto simp: new_attempt_def blank_attempt_def Let_def renew_lease_def
        arm_expiration_timer_def end_lease_window_def counted_once_def split: option.splits)
  then show ?thesis
    unfolding s using counting.inv_run [OF _ assms(1)] counted_once_def by blast
qed

section \<open>Leases\<close>

text \<open>
  C3. A durable side effect passes \<^verbatim>\<open>requireLease\<close> only while the lease that PostgreSQL granted is
  younger than the lease duration: some claim or accepted heartbeat of this attempt left less than
  one lease before the check. The worker has not stopped the attempt.
\<close>

theorem durable_effect_has_fresh_lease:
  assumes "Stop \<notin> set es"
    and "fst (require_lease now (attempt_run es (new_attempt t lease claim_sent_at start))) = Inr ()"
  shows "\<exists>sent \<in> set (claim_sent_at # renewal_sends es). now < sent + lease"
proof -
  let ?s = "attempt_run es (new_attempt t lease claim_sent_at start)"
  have owned: "owned_since (insert claim_sent_at (set (renewal_sends es))) ?s"
    using owned_since_run [OF owned_since_new assms(1)] by simp
  from assms(2) have "signal_reason (check_window now ?s) = None"
    by (auto simp: require_lease_def Let_def split: option.splits)
  then have "\<not> window_over now ?s" and "signal_reason ?s = None"
    by (auto simp: check_window_def end_lease_window_def split: if_splits)
  with owned show ?thesis
    by (force simp: owned_since_def window_over_def not_le split: option.splits)
qed

theorem durable_effect_has_fresh_lease_witness:
  "fst (require_lease 39000 (attempt_run [Heartbeat 12000 Hb_Accepted 10000]
     (new_attempt sample_task 30000 0 1))) = Inr () \<and>
   (\<exists>sent \<in> {0, 10000}. (39000 :: real) < sent + 30000)"
proof -
  have ok: "fst (require_lease 39000 (attempt_run [Heartbeat 12000 Hb_Accepted 10000]
     (new_attempt sample_task 30000 0 1))) = Inr ()"
    by (simp add: attempt_eval sample_task_def)
  show ?thesis
    using ok durable_effect_has_fresh_lease [OF _ ok] by auto
qed

text \<open>
  C4. An open lease window is guarded by a watchdog armed at its end. When the watchdog fires at or
  after that end, the handler signal is aborted, an outcome is settled, the heartbeat has stopped,
  and from then on no durable side effect passes, whatever happens later.
\<close>

theorem lease_watchdog_ends_attempt:
  assumes "Stop \<notin> set es"
    and s: "s = attempt_run es (new_attempt t lease claim_sent_at start)"
    and "lease_window_ends_at s = Some ends"
    and "ends \<le> now"
  shows "lease_watchdog s = Some ends \<and>
         heartbeat_stopped (attempt_step (Lease_Watchdog now) s) \<and>
         accepted (attempt_step (Lease_Watchdog now) s) \<noteq> None \<and>
         fst (require_lease later (attempt_run (Lease_Watchdog now # es') s)) \<noteq> Inr ()"
proof (intro conjI)
  show armed: "lease_watchdog s = Some ends"
    using owned_since_run [OF owned_since_new assms(1), of claim_sent_at t lease start] assms(3)
    by (simp add: owned_since_def s)
  with assms(4) have ended: "attempt_step (Lease_Watchdog now) s = end_lease_window s"
    by (simp add: lease_watchdog_fires_def)
  then show "heartbeat_stopped (attempt_step (Lease_Watchdog now) s)"
    and "accepted (attempt_step (Lease_Watchdog now) s) \<noteq> None"
    by (simp_all add: end_lease_window_def)
  from ended have "signal_reason (attempt_step (Lease_Watchdog now) s) \<noteq> None"
    by (simp add: end_lease_window_def)
  then obtain r where "signal_reason (attempt_run (Lease_Watchdog now # es') s) = Some r"
    using signal_run.run_settled by fastforce
  then show "fst (require_lease later (attempt_run (Lease_Watchdog now # es') s)) \<noteq> Inr ()"
    by (auto simp: require_lease_def Let_def check_window_def end_lease_window_def
        split: option.splits)
qed

theorem lease_watchdog_ends_attempt_witness:
  "lease_window_ends_at (attempt_run [] (new_attempt sample_task 30000 0 1)) = Some 30000 \<and>
   fst (require_lease 30002 (attempt_run [Lease_Watchdog 30001, Heartbeat 30001 Hb_Accepted 30000]
     (new_attempt sample_task 30000 0 1))) \<noteq> Inr ()"
proof -
  have open_window: "lease_window_ends_at (attempt_run [] (new_attempt sample_task 30000 0 1)) = Some 30000"
    by (simp add: attempt_eval sample_task_def)
  show ?thesis
    using open_window lease_watchdog_ends_attempt [OF _ refl open_window, of 30001 30002
        "[Heartbeat 30001 Hb_Accepted 30000]"]
    by simp
qed

section \<open>Expiry\<close>

text \<open>
  C5. The handler is aborted for a deadline only after PostgreSQL reported the deadline, and for an
  attempt timeout only after it reported the timeout: a heartbeat answer or the answer of an
  expiration request says so.
\<close>

theorem expiry_abort_confirmed:
  assumes s: "s = attempt_run es (new_attempt t lease claim_sent_at start)"
  shows "(signal_reason s = Some (DeadlineExceededError i) \<longrightarrow> list_ex reports_deadline es) \<and>
         (signal_reason s = Some (ExecutionTimeoutError i n) \<longrightarrow> list_ex reports_timeout es)"
proof (intro conjI impI; rule ccontr)
  assume "signal_reason s = Some (DeadlineExceededError i)" and "\<not> list_ex reports_deadline es"
  then show False
    using deadline.inv_run [OF new_attempt_unreported, of es t lease claim_sent_at start]
    by (auto simp: s unreported_def list_ex_iff list_all_iff)
next
  assume "signal_reason s = Some (ExecutionTimeoutError i n)" and "\<not> list_ex reports_timeout es"
  then show False
    using timeout.inv_run [OF new_attempt_unreported, of es t lease claim_sent_at start]
    by (auto simp: s unreported_def list_ex_iff list_all_iff)
qed

theorem expiry_abort_confirmed_witness:
  "signal_reason (attempt_run [Expiration_Timer 60002, Expire_Answer 60010 (Inr Expire_Deadline_Exceeded)]
     (new_attempt sample_task 30000 0 1)) = Some (DeadlineExceededError ''t1'') \<and>
   list_ex reports_deadline
     [Expiration_Timer 60002, Expire_Answer 60010 (Inr Expire_Deadline_Exceeded)]"
proof -
  have "signal_reason (attempt_run [Expiration_Timer 60002, Expire_Answer 60010 (Inr Expire_Deadline_Exceeded)]
     (new_attempt sample_task 30000 0 1)) = Some (DeadlineExceededError ''t1'')"
    by (simp add: attempt_eval sample_task_def)
  then show ?thesis using expiry_abort_confirmed by blast
qed

text \<open>
  C6. An attempt with a deadline or a timeout never drops the question whether it has expired: while
  no outcome has won, its heartbeat runs and the worker does not settle it, either the expiration
  timer is armed or an expiration request is pending, also after any number of failed requests.
\<close>

theorem live_attempt_keeps_asking:
  assumes "expiration_at t \<noteq> None"
    and s: "s = attempt_run es (new_attempt t lease claim_sent_at start)"
    and "live s"
  shows "(\<exists>timer. expiration_timer s = Some timer) \<or> promise_pending s"
proof -
  have "keeps_asking s"
    unfolding s
    by (rule asking.inv_run) (simp_all add: new_attempt_keeps_asking list_all_iff)
  moreover have "expiration_due_at s \<noteq> None"
    using assms(1) by (auto simp: s)
  ultimately show ?thesis
    using assms(3)
    by (auto simp: keeps_asking_def timer_armed_def request_pending_def promise_pending_def)
qed

theorem live_attempt_keeps_asking_witness:
  "live (attempt_run [Expiration_Timer 60002, Expire_Answer 60010 (Inl ''connection lost''), Heartbeat 60020 Hb_Busy 60015]
     (new_attempt long_lease_task 70000 0 1)) \<and>
   ((\<exists>timer. expiration_timer (attempt_run [Expiration_Timer 60002, Expire_Answer 60010 (Inl ''connection lost''), Heartbeat 60020 Hb_Busy 60015]
     (new_attempt long_lease_task 70000 0 1)) = Some timer) \<or>
    promise_pending (attempt_run [Expiration_Timer 60002, Expire_Answer 60010 (Inl ''connection lost''), Heartbeat 60020 Hb_Busy 60015]
     (new_attempt long_lease_task 70000 0 1)))"
proof -
  have "live (attempt_run [Expiration_Timer 60002, Expire_Answer 60010 (Inl ''connection lost''), Heartbeat 60020 Hb_Busy 60015]
     (new_attempt long_lease_task 70000 0 1))"
    by (simp add: attempt_eval long_lease_task_def sample_task_def live_def)
  moreover have "expiration_at long_lease_task \<noteq> None"
    by (simp add: expiration_at_def earliest_def long_lease_task_def sample_task_def)
  ultimately show ?thesis using live_attempt_keeps_asking by blast
qed

text \<open>
  The expiration timer fires late and never early. PostgreSQL reads its clock once for the lease
  and the expiry, and both timestamps reach the worker truncated to milliseconds. The wait armed at
  construction is longer than the exact time from that reading to the exact expiry.
\<close>

lemma expiration_timer_never_early:
  assumes "expiration_at t = Some (of_int \<lfloor>expiry\<rfloor>)"
    and "lease_expires_at t = of_int \<lfloor>claimed_at + lease\<rfloor>"
    and "expiration_due_at (new_attempt t lease claim_sent_at now) = Some due"
  shows "expiry - claimed_at < due - now"
proof -
  from assms(1,3) have "due - now = of_int \<lfloor>expiry\<rfloor> - lease_expires_at t + lease + 1"
    by auto
  moreover have "expiry < of_int \<lfloor>expiry\<rfloor> + 1" by linarith
  moreover have "lease_expires_at t \<le> claimed_at + lease" using assms(2) by linarith
  ultimately show ?thesis by linarith
qed

text \<open>
  After a \<^verbatim>\<open>not_due\<close> answer, a live attempt sleeps before it asks again: at least 5 ms, and not
  beyond the larger of 1000 ms and the time left to the local due time.
\<close>

lemma expiration_retry_wait_bounds:
  assumes s: "s = attempt_run es (new_attempt t lease claim_sent_at start)"
    and "live s" and "expiration_promise s = Some (Pending (Asking retry) rs)"
  shows "\<exists>until. expiration_promise (attempt_step (Expire_Answer now (Inr Not_Due)) s) =
                   Some (Pending (Sleeping retry until) rs) \<and>
                 5 \<le> until - now \<and>
                 until - now \<le> max 1000 ((case expiration_due_at s of None \<Rightarrow> 0 | Some d \<Rightarrow> d) - now)"
proof -
  have "retries_ok s"
    unfolding s by (rule retries.inv_run) (simp_all add: new_attempt_retries_ok list_all_iff)
  then have "5 \<le> retry" "retry \<le> 1000"
    using assms(3) retries_okD(1) [of s "Asking retry" rs]
    by (auto simp: phase_ok_def retry_ok_def EXPIRATION_RETRY_MIN_MS_def
        EXPIRATION_RETRY_MAX_MS_def)
  then show ?thesis
    using assms(2,3) live_not_finished [of s]
    by (auto simp: expire_answer_def expiration_wait_ms_def max_def)
qed

section \<open>Reconciliation\<close>

text \<open>
  The reconciliation of a stale write, when no expiration request exists, asks PostgreSQL once
  and settles the attempt by the answer: a due deadline or timeout, an accepted cancellation, and in
  every other case a lost lease. It always records an execution and leaves an outcome.
\<close>

lemma reconcile_stale_settles:
  assumes "expiration_promise s = None" and "own_wait env = []" and "ack_wait env = []"
    and "own_answer env = Inr status" and "ack_answer env = Inr acknowledged"
  shows "fst (reconcile_stale env s) = Inr
           (case status of
              Expire_Deadline_Exceeded \<Rightarrow> Span_Deadline_Exceeded
            | Expire_Timeout_Exceeded \<Rightarrow> Span_Timeout_Exceeded
            | Expire_Cancel_Requested \<Rightarrow> if acknowledged then Span_Canceled else Span_Stale
            | _ \<Rightarrow> Span_Stale) \<and>
         activation_outcome (snd (reconcile_stale env s)) \<noteq> Exec_Unknown \<and>
         accepted (snd (reconcile_stale env s)) \<noteq> None"
proof -
  have idle: "shared_expiration es s = (None, s)" for es
    using assms(1) by (cases es) (simp_all add: promise_answer_def promise_pending_def)
  show ?thesis
    using assms(2-)
    by (auto simp: reconcile_stale_def reconcile_status_def settled_as_def idle Let_def
        record_settled_def record_execution_def split: expire_owned_status.splits)
qed

text \<open>
  A request that PostgreSQL answered \<^verbatim>\<open>not_due\<close> before stays in the memoised promise. The
  reconciliation takes that old answer and reports a lost lease: it sends no request of its own,
  whatever PostgreSQL would answer now.
\<close>

lemma reconcile_reuses_old_not_due:
  assumes "expiration_promise s = Some (Fulfilled Not_Due)"
  shows "fst (reconcile_stale env s) = Inr Span_Stale"
proof -
  have "shared_expiration es s = (Some Not_Due, s)" for es
    using assms by (cases es) (simp_all add: promise_answer_def promise_pending_def)
  then show ?thesis
    by (simp add: reconcile_stale_def reconcile_status_def settled_as_def record_settled_def)
qed

end
