(* ===== verification/Js_Strings.thy ===== *)
theory Js_Strings
  imports Workhorse_Prelude "HOL-Library.Word" "HOL-Library.List_Lexorder"
begin

text \<open>
  JavaScript strings as lists of 16-bit code units, and what the sources use of the string methods:
  \<^verbatim>\<open>startsWith\<close>, \<^verbatim>\<open>indexOf\<close>, \<^verbatim>\<open>trim\<close>, the tests of the regular expression classes \<^verbatim>\<open>\s\<close> and \<^verbatim>\<open>\w\<close>, the decimal
  text of a natural number, and the value of a text of digits.
\<close>

type_synonym js_string = "16 word list"

definition js :: "string \<Rightarrow> js_string" where
  "js s = map (\<lambda>c. of_nat (of_char c)) s"

definition starts_with :: "js_string \<Rightarrow> js_string \<Rightarrow> bool" where
  "starts_with p s \<longleftrightarrow> take (length p) s = p"

fun index_of :: "js_string \<Rightarrow> js_string \<Rightarrow> nat option" where
  "index_of p [] = (if p = [] then Some 0 else None)"
| "index_of p (c # s) =
     (if starts_with p (c # s) then Some 0 else map_option Suc (index_of p s))"

definition js_space :: "16 word \<Rightarrow> bool" where
  "js_space c \<longleftrightarrow>
     c \<in> {9, 10, 11, 12, 13, 32, 0xA0, 0x1680, 0x2028, 0x2029, 0x202F, 0x205F, 0x3000, 0xFEFF} \<or>
     0x2000 \<le> c \<and> c \<le> 0x200A"

definition js_trim :: "js_string \<Rightarrow> js_string" where
  "js_trim s = rev (dropWhile js_space (rev (dropWhile js_space s)))"

definition js_digit :: "16 word \<Rightarrow> bool" where
  "js_digit c \<longleftrightarrow> 48 \<le> c \<and> c \<le> 57"

definition js_letter :: "16 word \<Rightarrow> bool" where
  "js_letter c \<longleftrightarrow> 65 \<le> c \<and> c \<le> 90 \<or> 97 \<le> c \<and> c \<le> 122"

definition js_word :: "16 word \<Rightarrow> bool" where
  "js_word c \<longleftrightarrow> js_letter c \<or> js_digit c \<or> c = 95"

fun decimal_text :: "nat \<Rightarrow> js_string" where
  "decimal_text n =
     (if n < 10 then [of_nat (48 + n)] else decimal_text (n div 10) @ [of_nat (48 + n mod 10)])"

declare decimal_text.simps [simp del]

definition int_text :: "int \<Rightarrow> js_string" where
  "int_text i = (if i < 0 then 45 # decimal_text (nat (- i)) else decimal_text (nat i))"

text \<open>The value of a text of digits, as \<^verbatim>\<open>BigInt\<close> and \<^verbatim>\<open>Number\<close> read it.\<close>

definition digit_value :: "16 word \<Rightarrow> int" where
  "digit_value c = int (unat c) - 48"

definition digits_value :: "js_string \<Rightarrow> int" where
  "digits_value s = foldl (\<lambda>n c. 10 * n + digit_value c) 0 s"

fun js_join :: "js_string \<Rightarrow> js_string list \<Rightarrow> js_string" where
  "js_join sep [] = []"
| "js_join sep [x] = x"
| "js_join sep (x # y # xs) = x @ sep @ js_join sep (y # xs)"

lemma starts_with_iff: "starts_with p s \<longleftrightarrow> (\<exists>t. s = p @ t)"
  unfolding starts_with_def by (metis append_eq_conv_conj append_take_drop_id)

lemma starts_with_simps [simp]:
  "starts_with [] s"
  "\<not> starts_with (p # ps) []"
  "starts_with (p # ps) (c # cs) \<longleftrightarrow> p = c \<and> starts_with ps cs"
  by (auto simp: starts_with_def)

lemma index_of_bound: "index_of p s = Some k \<Longrightarrow> k + length p \<le> length s"
proof (induction s arbitrary: k)
  case (Cons c s)
  show ?case
  proof (cases "starts_with p (c # s)")
    case True
    then show ?thesis using Cons.prems by (simp add: starts_with_iff) (metis le_add1 length_Cons length_append)
  qed (use Cons in auto)
qed (simp split: if_splits)

lemma space_code [simp]: "js_space c \<Longrightarrow> \<not> js_word c"
  unfolding js_space_def js_word_def js_letter_def js_digit_def by (auto simp: word_le_nat_alt)

lemma trim_step:
  "js_trim (c # s) = (if js_space c then js_trim s else c # rev (dropWhile js_space (rev s)))"
  by (auto simp: js_trim_def dropWhile_append dropWhile_eq_Nil_conv)

end
