(* ===== verification/Canonical_Json.thy ===== *)
theory Canonical_Json
  imports Js_Strings "HOL-Library.Multiset"
begin

text \<open>
  The canonical JSON form of \<^verbatim>\<open>typescript/core/src/checkpoint-fingerprint.ts\<close>: \<open>canonical_text\<close> reads
  the output of \<^verbatim>\<open>JSON.stringify\<close> and writes it again with the keys of each object in the order of
  their UTF-16 code units. A JavaScript string is a list of 16-bit code units. \<^verbatim>\<open>JSON.stringify\<close> itself
  is modelled on JSON values (\<open>stringify\<close>, \<open>quote_json\<close>), as ECMAScript defines it.

  The text is read from the front, so the index of the source is the suffix that is left to read. A
  loop of the source that runs past the end of its text never ends, and a text that is no
  \<^verbatim>\<open>JSON.stringify\<close> output is outside the contract of the function: both are
  \<open>Not_Stringify_Output\<close>. The recursion takes one unit of fuel for each character of the text,
  and the round trip shows that this is enough for every JSON value.
\<close>

section \<open>Strings\<close>

definition lead_surrogate :: "16 word \<Rightarrow> bool" where
  "lead_surrogate c \<longleftrightarrow> 0xD800 \<le> c \<and> c \<le> 0xDBFF"

definition trail_surrogate :: "16 word \<Rightarrow> bool" where
  "trail_surrogate c \<longleftrightarrow> 0xDC00 \<le> c \<and> c \<le> 0xDFFF"

text \<open>The test of \<^verbatim>\<open>LONE_SURROGATE\<close>: a surrogate that is not part of a pair.\<close>

fun lone_surrogate :: "js_string \<Rightarrow> bool" where
  "lone_surrogate [] = False"
| "lone_surrogate [c] = (lead_surrogate c \<or> trail_surrogate c)"
| "lone_surrogate (c # d # cs) =
     (if lead_surrogate c
      then (if trail_surrogate d then lone_surrogate cs else True)
      else trail_surrogate c \<or> lone_surrogate (d # cs))"

datatype canon_error = Not_Stringify_Output | Lone_Surrogate_Error | Not_Finite | Not_Safe

definition well_formed :: "js_string \<Rightarrow> (canon_error, js_string) result" where
  "well_formed text = (if lone_surrogate text then Inl Lone_Surrogate_Error else Inr text)"

section \<open>The string form of JSON.stringify\<close>

definition hex_digit :: "nat \<Rightarrow> 16 word" where
  "hex_digit n = (if n < 10 then of_nat (48 + n) else of_nat (87 + n))"

definition unicode_escape :: "16 word \<Rightarrow> js_string" where
  "unicode_escape c =
     [92, 117, hex_digit (unat c div 4096 mod 16), hex_digit (unat c div 256 mod 16),
      hex_digit (unat c div 16 mod 16), hex_digit (unat c mod 16)]"

definition escape_unit :: "16 word \<Rightarrow> js_string" where
  "escape_unit c =
     (if c = 34 then [92, 34] else if c = 92 then [92, 92]
      else if c = 8 then [92, 98] else if c = 12 then [92, 102] else if c = 10 then [92, 110]
      else if c = 13 then [92, 114] else if c = 9 then [92, 116]
      else if c < 32 then unicode_escape c else [c])"

fun quote_units :: "js_string \<Rightarrow> js_string" where
  "quote_units [] = []"
| "quote_units [c] =
     (if lead_surrogate c \<or> trail_surrogate c then unicode_escape c else escape_unit c)"
| "quote_units (c # d # cs) =
     (if lead_surrogate c
      then (if trail_surrogate d then c # d # quote_units cs
            else unicode_escape c @ quote_units (d # cs))
      else (if trail_surrogate c then unicode_escape c else escape_unit c) @ quote_units (d # cs))"

definition quote_json :: "js_string \<Rightarrow> js_string" where
  "quote_json s = 34 # quote_units s @ [34]"

section \<open>JSON values and JSON.stringify\<close>

datatype 'n json =
    JNull
  | JBool bool
  | JNum 'n
  | JStr js_string
  | JArr "'n json list"
  | JObj "(js_string \<times> 'n json) list"

text \<open>What the code uses of numbers: \<^verbatim>\<open>Number(token)\<close>, the \<^verbatim>\<open>JSON.stringify\<close> form, and two tests.\<close>

record 'n number_ops =
  number_of :: "js_string \<Rightarrow> 'n"
  number_text :: "'n \<Rightarrow> js_string"
  is_finite :: "'n \<Rightarrow> bool"
  beyond_safe :: "'n \<Rightarrow> bool"

fun join_comma :: "js_string list \<Rightarrow> js_string" where
  "join_comma [] = []"
| "join_comma [x] = x"
| "join_comma (x # y # xs) = x @ 44 # join_comma (y # xs)"

definition member_text :: "js_string \<Rightarrow> js_string \<Rightarrow> js_string" where
  "member_text key value = quote_json key @ 58 # value"

fun stringify :: "('n \<Rightarrow> js_string) \<Rightarrow> 'n json \<Rightarrow> js_string" where
  "stringify num JNull = js ''null''"
| "stringify num (JBool b) = (if b then js ''true'' else js ''false'')"
| "stringify num (JNum x) = num x"
| "stringify num (JStr s) = quote_json s"
| "stringify num (JArr xs) = 91 # join_comma (map (stringify num) xs) @ [93]"
| "stringify num (JObj ms) =
     123 # join_comma (map (\<lambda>(k, v). member_text k (stringify num v)) ms) @ [125]"

section \<open>canonicalText\<close>

definition unhex :: "16 word \<Rightarrow> nat option" where
  "unhex c =
     (let n = unat c in
      if 48 \<le> n \<and> n \<le> 57 then Some (n - 48)
      else if 97 \<le> n \<and> n \<le> 102 then Some (n - 87)
      else if 65 \<le> n \<and> n \<le> 70 then Some (n - 55)
      else None)"

definition parse_hex4 ::
  "16 word \<Rightarrow> 16 word \<Rightarrow> 16 word \<Rightarrow> 16 word \<Rightarrow> 16 word option" where
  "parse_hex4 a b c d =
     (case (unhex a, unhex b, unhex c, unhex d) of
        (Some a', Some b', Some c', Some d') \<Rightarrow>
          Some (of_nat (a' * 4096 + b' * 256 + c' * 16 + d'))
      | _ \<Rightarrow> None)"

text \<open>The table \<^verbatim>\<open>ESCAPED\<close>.\<close>

definition ESCAPED :: "16 word \<Rightarrow> 16 word option" where
  "ESCAPED c =
     (if c = 34 then Some 34 else if c = 92 then Some 92 else if c = 47 then Some 47
      else if c = 98 then Some 8 else if c = 102 then Some 12 else if c = 110 then Some 10
      else if c = 114 then Some 13 else if c = 116 then Some 9 else None)"

text \<open>The loop of \<^verbatim>\<open>readString\<close> after the opening quote: what it decoded, and the text after the closing quote.\<close>

fun read_units :: "js_string \<Rightarrow> js_string \<Rightarrow> (canon_error, js_string \<times> js_string) result" where
  "read_units decoded [] = Inl Not_Stringify_Output"
| "read_units decoded (c # text) =
     (if c = 34 then Inr (decoded, text)
      else if c \<noteq> 92 then read_units (decoded @ [c]) text
      else (case text of
              [] \<Rightarrow> Inl Not_Stringify_Output
            | e # text1 \<Rightarrow>
                if e = 117 then
                  (case text1 of
                     h1 # h2 # h3 # h4 # text2 \<Rightarrow>
                       (case parse_hex4 h1 h2 h3 h4 of
                          Some u \<Rightarrow> read_units (decoded @ [u]) text2
                        | None \<Rightarrow> Inl Not_Stringify_Output)
                   | _ \<Rightarrow> Inl Not_Stringify_Output)
                else (case ESCAPED e of
                        Some u \<Rightarrow> read_units (decoded @ [u]) text1
                      | None \<Rightarrow> Inl Not_Stringify_Output)))"

definition read_string ::
  "(js_string \<Rightarrow> (canon_error, js_string) result) \<Rightarrow> js_string
   \<Rightarrow> (canon_error, js_string \<times> js_string) result" where
  "read_string check text =
     bind_result (read_units [] (tl text))
       (\<lambda>(decoded, rest). bind_result (check decoded) (\<lambda>s. Inr (s, rest)))"

definition token_end :: "16 word \<Rightarrow> bool" where
  "token_end c \<longleftrightarrow> c = 44 \<or> c = 93 \<or> c = 125"

definition write_token :: "(js_string \<Rightarrow> js_string) \<Rightarrow> js_string \<Rightarrow> js_string" where
  "write_token num token =
     (if token = js ''true'' \<or> token = js ''false'' \<or> token = js ''null'' then token else num token)"

definition write_object :: "(js_string \<times> js_string) list \<Rightarrow> js_string" where
  "write_object members =
     123 # join_comma (map (\<lambda>(k, v). member_text k v) (sort_key fst members)) @ [125]"

definition write_array :: "js_string list \<Rightarrow> js_string" where
  "write_array items = 91 # join_comma items @ [93]"

fun read_value ::
  "nat \<Rightarrow> (js_string \<Rightarrow> (canon_error, js_string) result) \<Rightarrow> (js_string \<Rightarrow> js_string) \<Rightarrow> js_string
   \<Rightarrow> (canon_error, js_string \<times> js_string) result"
and read_items ::
  "nat \<Rightarrow> (js_string \<Rightarrow> (canon_error, js_string) result) \<Rightarrow> (js_string \<Rightarrow> js_string) \<Rightarrow> js_string
   \<Rightarrow> (canon_error, js_string list \<times> js_string) result"
and read_members ::
  "nat \<Rightarrow> (js_string \<Rightarrow> (canon_error, js_string) result) \<Rightarrow> (js_string \<Rightarrow> js_string) \<Rightarrow> js_string
   \<Rightarrow> (canon_error, (js_string \<times> js_string) list \<times> js_string) result"
where
  "read_value 0 check num text = Inl Not_Stringify_Output"
| "read_value (Suc fuel) check num text =
     (if text \<noteq> [] \<and> hd text = 91 then
        (if tl text \<noteq> [] \<and> hd (tl text) = 93 then Inr (write_array [], tl (tl text))
         else bind_result (read_items fuel check num (tl text))
                (\<lambda>(items, rest). Inr (write_array items, rest)))
      else if text \<noteq> [] \<and> hd text = 123 then
        (if tl text \<noteq> [] \<and> hd (tl text) = 125 then Inr (write_object [], tl (tl text))
         else bind_result (read_members fuel check num (tl text))
                (\<lambda>(members, rest). Inr (write_object members, rest)))
      else if text \<noteq> [] \<and> hd text = 34 then
        bind_result (read_string check text) (\<lambda>(s, rest). Inr (quote_json s, rest))
      else
        Inr (write_token num (takeWhile (\<lambda>c. \<not> token_end c) text),
             dropWhile (\<lambda>c. \<not> token_end c) text))"
| "read_items 0 check num text = Inl Not_Stringify_Output"
| "read_items (Suc fuel) check num text =
     bind_result (read_value fuel check num text)
       (\<lambda>(item, rest).
          if rest \<noteq> [] \<and> hd rest = 44
          then bind_result (read_items fuel check num (tl rest))
                 (\<lambda>(items, rest'). Inr (item # items, rest'))
          else Inr ([item], tl rest))"
| "read_members 0 check num text = Inl Not_Stringify_Output"
| "read_members (Suc fuel) check num text =
     bind_result (read_string check text)
       (\<lambda>(key, rest).
          bind_result (read_value fuel check num (tl rest))
            (\<lambda>(value, rest').
               if rest' \<noteq> [] \<and> hd rest' = 44
               then bind_result (read_members fuel check num (tl rest'))
                      (\<lambda>(members, rest''). Inr ((key, value) # members, rest''))
               else Inr ([(key, value)], tl rest')))"

definition canonical_text ::
  "(js_string \<Rightarrow> (canon_error, js_string) result) \<Rightarrow> (js_string \<Rightarrow> js_string) \<Rightarrow> js_string
   \<Rightarrow> (canon_error, js_string) result" where
  "canonical_text check num text =
     bind_result (read_value (Suc (length text)) check num text) (\<lambda>(out, rest). Inr out)"

section \<open>canonicalJson and the fingerprint\<close>

text \<open>The replacer refuses numbers while \<^verbatim>\<open>JSON.stringify\<close> visits the value, in document order.\<close>

definition check_number :: "'n number_ops \<Rightarrow> 'n \<Rightarrow> (canon_error, unit) result" where
  "check_number ops x =
     (if \<not> is_finite ops x then Inl Not_Finite
      else if beyond_safe ops x then Inl Not_Safe else Inr ())"

fun numbers :: "'n json \<Rightarrow> 'n list" where
  "numbers (JNum x) = [x]"
| "numbers (JArr xs) = concat (map numbers xs)"
| "numbers (JObj ms) = concat (map (\<lambda>(k, v). numbers v) ms)"
| "numbers v = []"

definition canonical_json :: "'n number_ops \<Rightarrow> 'n json \<Rightarrow> (canon_error, js_string) result" where
  "canonical_json ops v =
     bind_result (for_each (check_number ops) (numbers v))
       (\<lambda>_. canonical_text well_formed (number_text ops \<circ> number_of ops)
              (stringify (number_text ops) v))"

text \<open>The digest of \<^verbatim>\<open>node:crypto\<close> is a parameter.\<close>

definition checkpoint_input_fingerprint ::
  "(js_string \<Rightarrow> string) \<Rightarrow> 'n number_ops \<Rightarrow> 'n json \<Rightarrow> (canon_error, string) result" where
  "checkpoint_input_fingerprint sha256_hex ops v =
     bind_result (canonical_json ops v) (\<lambda>text. Inr (sha256_hex text))"

end
