(* ===== verification/Canonical_Json_Proofs.thy ===== *)
theory Canonical_Json_Proofs
  imports Canonical_Json
begin

text \<open>
  Reading back what \<^verbatim>\<open>JSON.stringify\<close> wrote: strings, then values. The canonical text of a value is the
  \<^verbatim>\<open>JSON.stringify\<close> form of the value with sorted keys, and it determines the value.
\<close>

section \<open>Strings\<close>

lemma unhex_hex_digit: "n < 16 \<Longrightarrow> unhex (hex_digit n) = Some n"
proof -
  assume n: "n < 16"
  have "unat (hex_digit n) = (if n < 10 then 48 + n else 87 + n)"
    using n by (auto simp: hex_digit_def unat_of_nat simp del: of_nat_add)
  then show ?thesis using n by (simp add: unhex_def Let_def)
qed

lemma unat_16_less: "unat (c :: 16 word) < 65536"
  using unsigned_less [of c, where ?'a = nat] by simp

lemma hex4_sum:
  fixes n :: nat
  assumes "n < 65536"
  shows "n div 4096 mod 16 * 4096 + n div 256 mod 16 * 256 + n div 16 mod 16 * 16 + n mod 16 = n"
proof -
  define a where "a = n div 16"
  define b where "b = a div 16"
  define c where "c = b div 16"
  have "n div 256 = b" "n div 4096 = c" by (simp_all add: a_def b_def c_def div_mult2_eq [symmetric])
  moreover have "c < 16" using assms by (simp add: a_def b_def c_def div_mult2_eq [symmetric])
  moreover have "n = a * 16 + n mod 16" "a = b * 16 + a mod 16" "b = c * 16 + b mod 16"
    by (simp_all add: a_def b_def c_def)
  ultimately show ?thesis by (simp add: a_def [symmetric])
qed

lemma parse_hex4_digits:
  "parse_hex4 (hex_digit (unat c div 4096 mod 16)) (hex_digit (unat c div 256 mod 16))
     (hex_digit (unat c div 16 mod 16)) (hex_digit (unat c mod 16)) = Some c"
proof -
  have "unhex (hex_digit (n mod 16)) = Some (n mod 16)" for n
    by (simp add: unhex_hex_digit)
  then show ?thesis
    unfolding parse_hex4_def by (simp only: prod.case option.case hex4_sum [OF unat_16_less] of_nat_unat ucast_id)
qed

lemma read_unicode_escape [simp]:
  "read_units decoded (unicode_escape c @ text) = read_units (decoded @ [c]) text"
  by (simp add: unicode_escape_def parse_hex4_digits)

lemma read_escape_unit [simp]:
  "read_units decoded (escape_unit c @ text) = read_units (decoded @ [c]) text"
  by (simp add: escape_unit_def ESCAPED_def)

lemma surrogate_plain:
  "lead_surrogate c \<or> trail_surrogate c \<Longrightarrow> c \<noteq> 34 \<and> c \<noteq> 92"
  by (auto simp: lead_surrogate_def trail_surrogate_def)

lemma read_quote_units:
  "read_units decoded (quote_units s @ 34 # rest) = Inr (decoded @ s, rest)"
proof (induction s arbitrary: decoded rule: quote_units.induct)
  case (3 c d cs)
  then show ?case
    using surrogate_plain [of c] surrogate_plain [of d] by (simp del: read_units.simps(2)) simp
qed (use surrogate_plain in auto)

lemma read_string_quote:
  "read_string check (quote_json s @ rest) = bind_result (check s) (\<lambda>s'. Inr (s', rest))"
  by (simp add: read_string_def quote_json_def read_quote_units)

lemma quote_json_inj:
  assumes "quote_json s @ rest = quote_json t @ rest'"
  shows "s = t \<and> rest = rest'"
proof -
  have "Inr (s, rest) = read_string Inr (quote_json s @ rest)"
    by (simp add: read_string_quote)
  also have "\<dots> = Inr (t, rest')"
    unfolding assms by (simp add: read_string_quote)
  finally show ?thesis by simp
qed

lemma quote_json_nonempty [simp]: "quote_json s \<noteq> []" "hd (quote_json s @ r) = 34"
  by (simp_all add: quote_json_def)

section \<open>Sorted keys\<close>

fun sort_keys :: "'n json \<Rightarrow> 'n json" where
  "sort_keys (JArr xs) = JArr (map sort_keys xs)"
| "sort_keys (JObj ms) = JObj (sort_key fst (map (\<lambda>(k, v). (k, sort_keys v)) ms))"
| "sort_keys v = v"

text \<open>Every string and key of a value, and every number.\<close>

fun strings :: "'n json \<Rightarrow> js_string list" where
  "strings (JStr s) = [s]"
| "strings (JArr xs) = concat (map strings xs)"
| "strings (JObj ms) = concat (map (\<lambda>(k, v). k # strings v) ms)"
| "strings v = []"

definition number_char :: "16 word \<Rightarrow> bool" where
  "number_char c \<longleftrightarrow> c = 43 \<or> c = 45 \<or> c = 46 \<or> c = 101 \<or> (48 \<le> c \<and> c \<le> 57)"

text \<open>
  What ECMAScript says of the text of a finite number: digits, signs, a point and an exponent mark,
  and the number that the text reads as has the same text.
\<close>

definition number_laws :: "'n number_ops \<Rightarrow> bool" where
  "number_laws ops \<longleftrightarrow>
     (\<forall>x. is_finite ops x \<longrightarrow>
        number_text ops x \<noteq> [] \<and> list_all number_char (number_text ops x) \<and>
        number_text ops (number_of ops (number_text ops x)) = number_text ops x)"

lemma insort_key_map:
  "insort_key fst (k, f v) (map (\<lambda>(k, v). (k, f v)) ms) =
     map (\<lambda>(k, v). (k, f v)) (insort_key fst (k, v) ms)"
  by (induction ms) auto

lemma sort_key_map:
  "sort_key fst (map (\<lambda>(k, v). (k, f v)) ms) = map (\<lambda>(k, v). (k, f v)) (sort_key fst ms)"
  by (induction ms) (auto simp: insort_key_map split: prod.splits)

lemma write_object_map:
  "write_object (map (\<lambda>(k, v). (k, f v)) ms) =
     123 # join_comma (map (\<lambda>(k, v). member_text k (f v)) (sort_key fst ms)) @ [125]"
  unfolding write_object_def sort_key_map by (simp add: o_def case_prod_unfold)

lemma number_char_token: "number_char c \<Longrightarrow> \<not> token_end c \<and> c \<noteq> 91 \<and> c \<noteq> 123 \<and> c \<noteq> 34"
  by (auto simp: number_char_def token_end_def)

lemma number_not_keyword:
  assumes "list_all number_char t"
  shows "t \<noteq> js ''true''" "t \<noteq> js ''false''" "t \<noteq> js ''null''"
  using assms by (auto simp: js_def number_char_def)

section \<open>Reading values\<close>

declare read_value.simps [simp del] read_items.simps [simp del] read_members.simps [simp del]

definition at_end :: "js_string \<Rightarrow> bool" where
  "at_end rest \<longleftrightarrow> rest = [] \<or> token_end (hd rest)"

lemma takeWhile_token:
  "list_all (\<lambda>c. \<not> token_end c) t \<Longrightarrow> at_end rest \<Longrightarrow>
     takeWhile (\<lambda>c. \<not> token_end c) (t @ rest) = t \<and> dropWhile (\<lambda>c. \<not> token_end c) (t @ rest) = rest"
  by (induction t; cases rest) (auto simp: at_end_def)

lemma read_token:
  assumes "t \<noteq> []" and "list_all (\<lambda>c. \<not> token_end c) t" and "hd t \<notin> {91, 123, 34}" and "at_end rest"
  shows "read_value (Suc fuel) check num (t @ rest) = Inr (write_token num t, rest)"
  using takeWhile_token [OF assms(2,4)] assms(1,3) by (simp add: read_value.simps)

lemma read_number:
  assumes "t \<noteq> []" and "list_all number_char t" and "at_end rest"
  shows "read_value (Suc fuel) check num (t @ rest) = Inr (num t, rest)"
proof -
  have "list_all (\<lambda>c. \<not> token_end c) t"
    using assms(2) number_char_token by (auto simp: list_all_iff)
  moreover have "hd t \<notin> {91, 123, 34}"
    using assms(1,2) number_char_token by (cases t) auto
  ultimately show ?thesis
    using read_token [OF assms(1) _ _ assms(3)] number_not_keyword [OF assms(2)]
    by (simp add: write_token_def)
qed

definition number_ok :: "('n \<Rightarrow> js_string) \<Rightarrow> (js_string \<Rightarrow> js_string) \<Rightarrow> 'n \<Rightarrow> bool" where
  "number_ok nt num x \<longleftrightarrow> nt x \<noteq> [] \<and> list_all number_char (nt x) \<and> num (nt x) = nt x"

lemma stringify_nonempty:
  "list_all (\<lambda>x. nt x \<noteq> []) (numbers v) \<Longrightarrow> 0 < length (stringify nt v)"
  by (cases v) (auto simp: js_def quote_json_def)

lemma stringify_hd:
  "list_all (number_ok nt num) (numbers v) \<Longrightarrow> hd (stringify nt v) \<noteq> 93"
  by (cases v)
    (auto simp: js_def quote_json_def number_ok_def neq_Nil_conv number_char_def)

lemma hd_join_comma: "x \<noteq> [] \<Longrightarrow> hd (join_comma (x # xs) @ r) = hd x"
  by (cases xs) auto

text \<open>
  \<open>check_string\<close> is what a reader does with one string, its text left out. A value whose strings are
  checked in document order is then written with its keys in order.
\<close>

definition check_string ::
  "(js_string \<Rightarrow> (canon_error, js_string) result) \<Rightarrow> js_string \<Rightarrow> (canon_error, unit) result" where
  "check_string check s = bind_result (check s) (\<lambda>_. Inr ())"

definition returns_input :: "(js_string \<Rightarrow> (canon_error, js_string) result) \<Rightarrow> bool" where
  "returns_input check \<longleftrightarrow> (\<forall>s t. check s = Inr t \<longrightarrow> t = s)"

lemma bind_check:
  "returns_input check \<Longrightarrow> bind_result (check s) f = bind_result (check_string check s) (\<lambda>_. f s)"
  by (cases "check s") (auto simp: check_string_def returns_input_def)

lemma read_items_spec:
  assumes "xs \<noteq> []"
    and "\<And>x fuel rest. x \<in> set xs \<Longrightarrow> length (f x) \<le> fuel \<Longrightarrow> at_end rest
           \<Longrightarrow> read_value fuel check num (f x @ rest) = bind_result (c x) (\<lambda>_. Inr (g x, rest))"
    and "\<And>x. x \<in> set xs \<Longrightarrow> 0 < length (f x)"
    and "Suc (length (join_comma (map f xs))) \<le> fuel"
  shows "read_items fuel check num (join_comma (map f xs) @ 93 # rest) =
    bind_result (for_each c xs) (\<lambda>_. Inr (map g xs, rest))"
  using assms
proof (induction xs arbitrary: fuel)
  case (Cons x xs)
  then obtain m where m: "fuel = Suc m" by (cases fuel) auto
  show ?case
  proof (cases xs)
    case Nil
    then show ?thesis
      using Cons.prems(2) [of x m "93 # rest"] Cons.prems(4) m
      by (simp add: at_end_def token_end_def read_items.simps bind_result_assoc)
  next
    case (Cons y ys)
    have len: "length (f x) \<le> m" "Suc (length (join_comma (map f xs))) \<le> m"
      using Cons.prems(4) Cons.prems(3) [of x] m Cons by auto
    have "read_value m check num (f x @ 44 # join_comma (map f xs) @ 93 # rest) =
        bind_result (c x) (\<lambda>_. Inr (g x, 44 # join_comma (map f xs) @ 93 # rest))"
      using Cons.prems(2) [of x m] len by (simp add: at_end_def token_end_def)
    moreover have "read_items m check num (join_comma (map f xs) @ 93 # rest) =
        bind_result (for_each c xs) (\<lambda>_. Inr (map g xs, rest))"
      using Cons.prems(2,3) Cons len by (intro Cons.IH) auto
    ultimately show ?thesis using m Cons by (simp add: read_items.simps bind_result_assoc)
  qed
qed simp

lemma read_members_spec:
  assumes "ms \<noteq> []" and "returns_input check"
    and "\<And>p fuel rest. p \<in> set ms \<Longrightarrow> length (f (snd p)) \<le> fuel \<Longrightarrow> at_end rest
           \<Longrightarrow> read_value fuel check num (f (snd p) @ rest) =
               bind_result (c (snd p)) (\<lambda>_. Inr (g (snd p), rest))"
    and "Suc (length (join_comma (map (\<lambda>(k, v). member_text k (f v)) ms))) \<le> fuel"
  shows "read_members fuel check num
           (join_comma (map (\<lambda>(k, v). member_text k (f v)) ms) @ 125 # rest) =
    bind_result (for_each (\<lambda>(k, v). bind_result (check_string check k) (\<lambda>_. c v)) ms)
      (\<lambda>_. Inr (map (\<lambda>(k, v). (k, g v)) ms, rest))"
  using assms
proof (induction ms arbitrary: fuel)
  case (Cons p ms)
  obtain k v where p: "p = (k, v)" by fastforce
  from Cons.prems obtain m where m: "fuel = Suc m" by (cases fuel) auto
  let ?j = "join_comma (map (\<lambda>(k, v). member_text k (f v)) ms)"
  note bind = bind_check [OF Cons.prems(2)]
  show ?case
  proof (cases ms)
    case Nil
    then show ?thesis
      using Cons.prems(3) [of p m "125 # rest"] Cons.prems(4) m p
      by (simp add: at_end_def token_end_def member_text_def read_string_quote read_members.simps
          bind_result_assoc bind)
  next
    case (Cons q qs)
    have len: "length (f v) \<le> m" "Suc (length ?j) \<le> m"
      using Cons.prems(4) m p Cons by (auto simp: member_text_def quote_json_def)
    have "read_value m check num (f v @ 44 # ?j @ 125 # rest) =
        bind_result (c v) (\<lambda>_. Inr (g v, 44 # ?j @ 125 # rest))"
      using Cons.prems(3) [of p m] len p by (simp add: at_end_def token_end_def)
    moreover have "read_members m check num (?j @ 125 # rest) =
        bind_result (for_each (\<lambda>(k, v). bind_result (check_string check k) (\<lambda>_. c v)) ms)
          (\<lambda>_. Inr (map (\<lambda>(k, v). (k, g v)) ms, rest))"
      using Cons.prems(2,3) Cons len by (intro Cons.IH) auto
    ultimately show ?thesis
      using m p Cons
      by (simp add: member_text_def read_string_quote read_members.simps bind_result_assoc bind)
  qed
qed simp

lemma numbers_member:
  "list_all P (numbers (JObj ms)) \<Longrightarrow> q \<in> set ms \<Longrightarrow> list_all P (numbers (snd q))"
  by (cases q) (auto simp: list_all_iff)

lemma for_each_strings:
  "for_each f (strings (JArr xs)) = for_each (\<lambda>x. for_each f (strings x)) xs"
  "for_each f (strings (JObj ms)) =
     for_each (\<lambda>(k, v). bind_result (f k) (\<lambda>_. for_each f (strings v))) ms"
  by (simp_all add: for_each_concat for_each_map case_prod_unfold)

lemma read_stringify:
  assumes "list_all (number_ok nt num) (numbers v)" and "returns_input check"
    and "length (stringify nt v) \<le> fuel" and "at_end rest"
  shows "read_value fuel check num (stringify nt v @ rest) =
    bind_result (for_each (check_string check) (strings v))
      (\<lambda>_. Inr (stringify nt (sort_keys v), rest))"
  using assms
proof (induction v arbitrary: fuel rest)
  case JNull
  then show ?case
    using read_token [of "js ''null''" rest "fuel - 1" check num]
    by (cases fuel) (simp_all add: js_def token_end_def write_token_def)
next
  case (JBool b)
  then show ?case
    using read_token [of "js ''true''" rest "fuel - 1" check num]
      read_token [of "js ''false''" rest "fuel - 1" check num]
    by (cases fuel; cases b) (simp_all add: js_def token_end_def write_token_def)
next
  case (JNum x)
  then show ?case
    using read_number [of "nt x" rest "fuel - 1" check num]
    by (cases fuel) (auto simp: number_ok_def)
next
  case (JStr s)
  then obtain m where "fuel = Suc m" by (cases fuel) (auto simp: quote_json_def)
  with JStr show ?case
    by (simp add: read_string_quote read_value.simps bind_check bind_result_assoc)
next
  case (JArr xs)
  then obtain m where m: "fuel = Suc m" by (cases fuel) auto
  show ?case
  proof (cases xs)
    case Nil
    with m show ?thesis by (simp add: read_value.simps write_array_def)
  next
    case (Cons y ys)
    have nonempty: "0 < length (stringify nt x)" if "x \<in> set xs" for x
      using that JArr.prems(1) by (intro stringify_nonempty) (auto simp: list_all_iff number_ok_def)
    have items: "read_items m check num (join_comma (map (stringify nt) xs) @ 93 # rest) =
        bind_result (for_each (\<lambda>x. for_each (check_string check) (strings x)) xs)
          (\<lambda>_. Inr (map (\<lambda>x. stringify nt (sort_keys x)) xs, rest))"
      using JArr.prems m Cons nonempty
      by (intro read_items_spec JArr.IH) (auto simp: list_all_iff)
    have "hd (join_comma (map (stringify nt) xs) @ 93 # rest) \<noteq> 93"
      using Cons nonempty [of y] stringify_hd [of nt num y] JArr.prems(1)
      by (simp add: hd_join_comma)
    with items m show ?thesis
      by (simp add: read_value.simps write_array_def o_def for_each_concat for_each_map
          bind_result_assoc)
  qed
next
  case (JObj ms)
  then obtain m where m: "fuel = Suc m" by (cases fuel) auto
  show ?case
  proof (cases ms)
    case Nil
    with m show ?thesis by (simp add: read_value.simps write_object_def)
  next
    case (Cons p ps)
    obtain k v where p: "p = (k, v)" by fastforce
    have members: "read_members m check num
        (join_comma (map (\<lambda>(k, v). member_text k (stringify nt v)) ms) @ 125 # rest) =
        bind_result (for_each (check_string check) (strings (JObj ms)))
          (\<lambda>_. Inr (map (\<lambda>(k, v). (k, stringify nt (sort_keys v))) ms, rest))"
      unfolding for_each_strings
    proof (rule read_members_spec)
      show "read_value fuel check num (stringify nt (snd q) @ rest) =
          bind_result (for_each (check_string check) (strings (snd q)))
            (\<lambda>_. Inr (stringify nt (sort_keys (snd q)), rest))"
        if "q \<in> set ms" "length (stringify nt (snd q)) \<le> fuel" "at_end rest" for q fuel rest
        using JObj.IH [of q "snd q"] that numbers_member [OF JObj.prems(1)] JObj.prems(2)
        by (simp add: snds.simps prod_set_simps)
    qed (use Cons m JObj.prems(2,3) in auto)
    have "hd (join_comma (map (\<lambda>(k, v). member_text k (stringify nt v)) ms) @ 125 # rest) \<noteq> 125"
      using Cons p by (simp add: hd_join_comma member_text_def)
    with members have "read_value fuel check num (stringify nt (JObj ms) @ rest) =
        bind_result (for_each (check_string check) (strings (JObj ms)))
          (\<lambda>_. Inr (write_object (map (\<lambda>(k, v). (k, stringify nt (sort_keys v))) ms), rest))"
      by (simp add: read_value.simps m bind_result_assoc del: strings.simps)
    then show ?thesis
      by (simp only: write_object_map sort_keys.simps stringify.simps sort_key_map)
        (simp add: o_def case_prod_unfold)
  qed
qed

section \<open>Canonical text is injective\<close>

lemma join_comma_inj:
  assumes "join_comma (map f xs) @ z # r = join_comma (map f ys) @ z # r'"
    and "\<And>x y r r'. x \<in> set xs \<Longrightarrow> y \<in> set ys \<Longrightarrow> f x @ r = f y @ r' \<Longrightarrow> at_end r \<Longrightarrow> at_end r'
           \<Longrightarrow> g x = g y \<and> r = r'"
    and "\<And>x. x \<in> set xs \<union> set ys \<Longrightarrow> f x \<noteq> [] \<and> hd (f x) \<noteq> z"
    and "z = 93 \<or> z = 125"
  shows "map g xs = map g ys \<and> r = r'"
  using assms
proof (induction xs arbitrary: ys)
  case Nil
  then show ?case
    by (cases ys) (auto simp: hd_join_comma dest: arg_cong [where f = hd])
next
  case (Cons x xs)
  show ?case
  proof (cases ys)
    case Nil
    then show ?thesis
      using Cons.prems(1) Cons.prems(3) [of x] hd_join_comma [of "f x" "map f xs" "z # r"]
      by simp
  next
    case (Cons y ys')
    define tail where "tail us s = (if us = [] then z # s else 44 # join_comma (map f us) @ z # s)"
      for us s
    have split: "join_comma (map f (u # us)) @ z # s = f u @ tail us s" for u us s
      by (cases us) (auto simp: tail_def)
    have end_tail: "at_end (tail us s)" for us s
      using Cons.prems(4) by (auto simp: tail_def at_end_def token_end_def)
    have eq: "g x = g y" "tail xs r = tail ys' r'"
      using Cons.prems(2) [of x y "tail xs r" "tail ys' r'"] Cons.prems(1) Cons split end_tail
      by auto
    have "map g xs = map g ys' \<and> r = r'"
    proof (cases "xs = [] \<or> ys' = []")
      case True
      then show ?thesis using eq(2) Cons.prems(4) by (auto simp: tail_def split: if_splits)
    next
      case False
      then have "join_comma (map f xs) @ z # r = join_comma (map f ys') @ z # r'"
        using eq(2) by (simp add: tail_def)
      then show ?thesis
        using Cons.prems(2,3,4) Cons by (intro Cons.IH) auto
    qed
    then show ?thesis using eq(1) Cons by simp
  qed
qed

lemma token_inj:
  assumes "t @ r = u @ r'" and "list_all (\<lambda>c. \<not> token_end c) t" "list_all (\<lambda>c. \<not> token_end c) u"
    and "at_end r" "at_end r'"
  shows "t = u \<and> r = r'"
  using takeWhile_token [OF assms(2,4)] takeWhile_token [OF assms(3,5)] unfolding assms(1)
  by metis

definition number_texts_ok :: "('n \<Rightarrow> js_string) \<Rightarrow> 'n json \<Rightarrow> bool" where
  "number_texts_ok nt v \<longleftrightarrow> list_all (\<lambda>x. nt x \<noteq> [] \<and> list_all number_char (nt x)) (numbers v)"

lemma number_texts_ok_simps [simp]:
  "number_texts_ok nt (JNum x) \<longleftrightarrow> nt x \<noteq> [] \<and> list_all number_char (nt x)"
  "number_texts_ok nt (JArr xs) \<longleftrightarrow> (\<forall>x \<in> set xs. number_texts_ok nt x)"
  "number_texts_ok nt (JObj ms) \<longleftrightarrow> (\<forall>p \<in> set ms. number_texts_ok nt (snd p))"
  by (auto simp: number_texts_ok_def list_all_iff)

text \<open>What the first code unit of a text says of the value.\<close>

definition head_class :: "16 word \<Rightarrow> nat" where
  "head_class c = (if c = 110 then 0 else if c = 116 \<or> c = 102 then 1 else if c = 34 then 3
     else if c = 91 then 4 else if c = 123 then 5 else 2)"

fun json_class :: "'n json \<Rightarrow> nat" where
  "json_class JNull = 0" | "json_class (JBool b) = 1" | "json_class (JNum x) = 2"
| "json_class (JStr s) = 3" | "json_class (JArr xs) = 4" | "json_class (JObj ms) = 5"

lemma number_head_class: "number_char c \<Longrightarrow> head_class c = 2"
  by (auto simp: number_char_def head_class_def)

lemma stringify_class:
  assumes "number_texts_ok nt v"
  shows "stringify nt v \<noteq> [] \<and> head_class (hd (stringify nt v)) = json_class v"
proof (cases v)
  case (JNum x)
  then show ?thesis using assms by (cases "nt x") (auto simp: number_head_class)
qed (auto simp: head_class_def js_def quote_json_def)

lemma stringify_same_class:
  assumes "stringify nt v @ r = stringify nt w @ r'" "number_texts_ok nt v" "number_texts_ok nt w"
  shows "json_class v = json_class w"
  using stringify_class [OF assms(2)] stringify_class [OF assms(3)] arg_cong [OF assms(1), of hd]
  by simp

lemma stringify_not_close:
  "number_texts_ok nt v \<Longrightarrow> stringify nt v \<noteq> [] \<and> hd (stringify nt v) \<noteq> 93"
  by (cases v) (auto simp: js_def quote_json_def neq_Nil_conv number_char_def)

lemma member_text_head: "member_text k t \<noteq> [] \<and> hd (member_text k t) \<noteq> 125"
  by (simp add: member_text_def quote_json_def)

lemma stringify_inj:
  assumes "stringify nt v @ r = stringify nt w @ r'" "at_end r" "at_end r'"
    and "number_texts_ok nt v" "number_texts_ok nt w"
  shows "map_json nt v = map_json nt w \<and> r = r'"
  using assms
proof (induction v arbitrary: w r r')
  case JNull
  then show ?case
    using stringify_same_class [OF JNull.prems(1,4,5)] by (cases w) auto
next
  case (JBool b)
  then show ?case
    using stringify_same_class [OF JBool.prems(1,4,5)]
    by (cases w) (auto simp: js_def split: if_splits)
next
  case (JNum x)
  then obtain y where w: "w = JNum y"
    using stringify_same_class [OF JNum.prems(1,4,5)] by (cases w) auto
  have plain: "list_all (\<lambda>c. \<not> token_end c) (nt x)" "list_all (\<lambda>c. \<not> token_end c) (nt y)"
    using JNum.prems(4,5) w number_char_token by (auto simp: list_all_iff)
  have "nt x @ r = nt y @ r'" using JNum.prems(1) w by simp
  from token_inj [OF this plain JNum.prems(2,3)] show ?case using w by simp
next
  case (JStr s)
  then obtain t where w: "w = JStr t"
    using stringify_same_class [OF JStr.prems(1,4,5)] by (cases w) auto
  then have "quote_json s @ r = quote_json t @ r'" using JStr.prems(1) by simp
  from quote_json_inj [OF this] show ?case using w by simp
next
  case (JArr xs)
  then obtain ys where w: "w = JArr ys"
    using stringify_same_class [OF JArr.prems(1,4,5)] by (cases w) auto
  have "map (map_json nt) xs = map (map_json nt) ys \<and> r = r'"
  proof (rule join_comma_inj [where f = "stringify nt" and z = 93])
    show "join_comma (map (stringify nt) xs) @ 93 # r = join_comma (map (stringify nt) ys) @ 93 # r'"
      using JArr.prems(1) w by simp
    show "map_json nt x = map_json nt y \<and> s = s'"
      if "x \<in> set xs" "y \<in> set ys" "stringify nt x @ s = stringify nt y @ s'" "at_end s" "at_end s'"
      for x y s s'
      using that(1,2) JArr.prems(4,5) w by (intro JArr.IH [OF that(1,3-5)]) auto
  qed (use JArr.prems w stringify_not_close in auto)
  then show ?case using w by simp
next
  case (JObj ms)
  then obtain ns where w: "w = JObj ns"
    using stringify_same_class [OF JObj.prems(1,4,5)] by (cases w) auto
  let ?f = "\<lambda>(k, v). member_text k (stringify nt v)"
  have "map (map_prod id (map_json nt)) ms = map (map_prod id (map_json nt)) ns \<and> r = r'"
  proof (rule join_comma_inj [where f = ?f and z = 125])
    show "join_comma (map ?f ms) @ 125 # r = join_comma (map ?f ns) @ 125 # r'"
      using JObj.prems(1) w by simp
    show "map_prod id (map_json nt) p = map_prod id (map_json nt) q \<and> s = s'"
      if "p \<in> set ms" "q \<in> set ns" "?f p @ s = ?f q @ s'" "at_end s" "at_end s'" for p q s s'
    proof -
      obtain k v l u where pq: "p = (k, v)" "q = (l, u)" by fastforce
      have "quote_json k @ 58 # stringify nt v @ s = quote_json l @ 58 # stringify nt u @ s'"
        using that(3) pq by (simp add: member_text_def)
      from quote_json_inj [OF this]
      have kv: "k = l" "stringify nt v @ s = stringify nt u @ s'" by auto
      have "number_texts_ok nt v" "number_texts_ok nt u"
        using JObj.prems(4,5) w that(1,2) pq by auto
      then have "map_json nt v = map_json nt u \<and> s = s'"
        using that(1) pq kv(2) by (intro JObj.IH [OF that(1) _ _ that(4,5)]) auto
      then show ?thesis using pq kv(1) by simp
    qed
  qed (auto simp: member_text_head)
  then show ?case using w by simp
qed

end
