(* ===== verification/Canonical_Json_Properties.thy ===== *)
theory Canonical_Json_Properties
  imports Canonical_Json_Proofs "HOL-Library.Multiset"
begin

text \<open>
  What a fingerprint says: the canonical text of a value is its text with sorted keys, two values have
  the same canonical text exactly when they are the same JSON value up to the order of members, and a
  value the fingerprint cannot represent is refused.
\<close>

section \<open>The same JSON value\<close>

text \<open>
  Two JSON values are the same when they differ only in the order in which objects list their members.
\<close>

inductive same_json :: "'n json \<Rightarrow> 'n json \<Rightarrow> bool" where
  same_refl: "same_json v v"
| same_sym: "same_json v w \<Longrightarrow> same_json w v"
| same_trans: "same_json u v \<Longrightarrow> same_json v w \<Longrightarrow> same_json u w"
| same_arr: "list_all2 same_json xs ys \<Longrightarrow> same_json (JArr xs) (JArr ys)"
| same_obj: "list_all2 (\<lambda>p q. fst p = fst q \<and> same_json (snd p) (snd q)) ms ns
             \<Longrightarrow> same_json (JObj ms) (JObj ns)"
| same_perm: "mset ms = mset ns \<Longrightarrow> same_json (JObj ms) (JObj ns)"

text \<open>An object has each key once.\<close>

fun unique_keys :: "'n json \<Rightarrow> bool" where
  "unique_keys (JArr xs) \<longleftrightarrow> (\<forall>x \<in> set xs. unique_keys x)"
| "unique_keys (JObj ms) \<longleftrightarrow> distinct (map fst ms) \<and> (\<forall>(k, v) \<in> set ms. unique_keys v)"
| "unique_keys v \<longleftrightarrow> True"

lemma sort_key_perm:
  assumes "mset ms = mset ns" "distinct (map fst ms)"
  shows "sort_key fst ms = sort_key fst ns"
  by (rule sort_key_inj_key_eq) (use assms in \<open>auto simp: distinct_map\<close>)

lemma list_all2_map_eq: "list_all2 (\<lambda>x y. f x = g y) xs ys \<Longrightarrow> map f xs = map g ys"
  by (induction rule: list_all2_induct) auto

lemma sort_keys_congruence:
  assumes "list_all2 (\<lambda>p q. fst p = fst q \<and> sort_keys (snd p) = sort_keys (snd q)) ms ns"
  shows "sort_keys (JObj ms) = sort_keys (JObj ns)"
proof -
  have "map (\<lambda>(k, v). (k, sort_keys v)) ms = map (\<lambda>(k, v). (k, sort_keys v)) ns"
    using assms by (intro list_all2_map_eq) (auto elim!: list_all2_mono)
  then show ?thesis by simp
qed

lemma same_json_sort_keys:
  "same_json v w \<Longrightarrow>
     (unique_keys v \<longleftrightarrow> unique_keys w) \<and> (unique_keys v \<longrightarrow> sort_keys v = sort_keys w)"
proof (induction rule: same_json.induct)
  case (same_arr xs ys)
  then show ?case by (induction rule: list_all2_induct) auto
next
  case (same_obj ms ns)
  then have keys: "map fst ms = map fst ns"
    and uniq: "(\<forall>(k, v) \<in> set ms. unique_keys v) \<longleftrightarrow> (\<forall>(k, v) \<in> set ns. unique_keys v)"
    by (induction rule: list_all2_induct) auto
  have "sort_keys (JObj ms) = sort_keys (JObj ns)" if "unique_keys (JObj ms)"
  proof (rule sort_keys_congruence)
    have "unique_keys (snd p)" if "p \<in> set ms" for p
      using \<open>unique_keys (JObj ms)\<close> that by auto
    with same_obj show "list_all2 (\<lambda>p q. fst p = fst q \<and> sort_keys (snd p) = sort_keys (snd q)) ms ns"
      by (auto simp: list_all2_conv_all_nth)
  qed
  with keys uniq show ?case by simp
next
  case (same_perm ms ns)
  have "set ms = set ns"
    by (rule mset_eq_setD [OF same_perm])
  moreover have "distinct (map fst ms) \<longleftrightarrow> distinct (map fst ns)"
    by (rule mset_eq_imp_distinct_iff) (simp add: same_perm)
  ultimately have "unique_keys (JObj ms) \<longleftrightarrow> unique_keys (JObj ns)"
    by (simp only: unique_keys.simps)
  moreover have "sort_keys (JObj ms) = sort_keys (JObj ns)" if "unique_keys (JObj ms)"
    using that same_perm by (simp add: sort_key_map sort_key_perm)
  ultimately show ?case by blast
qed auto

lemma same_json_sorted: "same_json v (sort_keys v)"
proof (induction v)
  case (JArr xs)
  then show ?case
    by (auto intro!: same_arr simp: list_all2_map2 list_all2_same)
next
  case (JObj ms)
  have "same_json (JObj ms) (JObj (map (\<lambda>(k, v). (k, sort_keys v)) ms))"
    using JObj by (auto intro!: same_obj simp: list_all2_map2 list_all2_same snds.simps split: prod.splits)
  moreover have "same_json (JObj (map (\<lambda>(k, v). (k, sort_keys v)) ms)) (sort_keys (JObj ms))"
    by (auto intro!: same_perm)
  ultimately show ?case by (rule same_trans)
qed (auto intro: same_refl)

lemma same_json_of_sorted: "sort_keys v = sort_keys w \<Longrightarrow> same_json v w"
  by (rule same_trans [OF same_json_sorted [of v]]) (simp add: same_sym [OF same_json_sorted])

lemma same_json_iff:
  assumes "unique_keys v"
  shows "same_json v w \<longleftrightarrow> sort_keys v = sort_keys w"
  using assms same_json_sort_keys [of v w] same_json_of_sorted [of v w] by blast

lemma same_json_leaves:
  "same_json v w \<Longrightarrow> set (numbers v) = set (numbers w) \<and> set (strings v) = set (strings w)"
proof (induction rule: same_json.induct)
  case (same_arr xs ys)
  then show ?case by (induction rule: list_all2_induct) auto
next
  case (same_obj ms ns)
  then show ?case by (induction rule: list_all2_induct) auto
next
  case (same_perm ms ns)
  then have "set ms = set ns" by (metis mset_eq_setD)
  then show ?case by simp
qed auto

lemma map_json_sort_keys: "map_json f (sort_keys v) = sort_keys (map_json f v)"
proof (induction v)
  case (JObj ms)
  have pair: "map_prod id g = (\<lambda>(k, v). (k, g v))" for g :: "'x \<Rightarrow> 'y"
    by (auto simp: fun_eq_iff)
  have "map_json f (sort_keys (JObj ms)) =
      JObj (map (\<lambda>(k, v). (k, map_json f v)) (sort_key fst (map (\<lambda>(k, v). (k, sort_keys v)) ms)))"
    by (simp add: pair)
  also have "\<dots> = JObj (sort_key fst (map (\<lambda>(k, v). (k, map_json f v)) (map (\<lambda>(k, v). (k, sort_keys v)) ms)))"
    by (simp only: sort_key_map)
  also have "map (\<lambda>(k, v). (k, map_json f v)) (map (\<lambda>(k, v). (k, sort_keys v)) ms) =
      map (\<lambda>(k, v). (k, sort_keys v)) (map (\<lambda>(k, v). (k, map_json f v)) ms)"
    using JObj by (auto simp: snds.simps)
  finally show ?case by (simp add: pair)
qed simp_all

section \<open>The canonical text\<close>

lemma returns_input_well_formed: "returns_input well_formed"
  by (simp add: returns_input_def well_formed_def)

lemma check_well_formed:
  "check_string well_formed s = guard_that (\<not> lone_surrogate s) Lone_Surrogate_Error"
  by (simp add: check_string_def well_formed_def)

lemma canonical_text_stringify:
  assumes "list_all (number_ok nt num) (numbers v)"
  shows "canonical_text well_formed num (stringify nt v) =
    bind_result (for_each (check_string well_formed) (strings v))
      (\<lambda>_. Inr (stringify nt (sort_keys v)))"
  using read_stringify [OF assms returns_input_well_formed, of "Suc (length (stringify nt v))" "[]"]
  by (simp add: canonical_text_def at_end_def bind_result_assoc)

lemma number_laws_ok:
  assumes "number_laws ops" "\<forall>x \<in> set (numbers v). check_number ops x = Inr ()"
  shows "list_all (number_ok (number_text ops) (number_text ops \<circ> number_of ops)) (numbers v)"
  using assms
  by (auto simp: number_laws_def number_ok_def list_all_iff check_number_def split: if_splits)

lemma canonical_json_equation:
  assumes "number_laws ops"
  shows "canonical_json ops v =
    bind_result (for_each (check_number ops) (numbers v))
      (\<lambda>_. bind_result
         (for_each (\<lambda>s. guard_that (\<not> lone_surrogate s) Lone_Surrogate_Error) (strings v))
         (\<lambda>_. Inr (stringify (number_text ops) (sort_keys v))))"
proof (cases "for_each (check_number ops) (numbers v)")
  case (Inr u)
  then have "list_all (number_ok (number_text ops) (number_text ops \<circ> number_of ops)) (numbers v)"
    using number_laws_ok [OF assms] by simp
  from canonical_text_stringify [OF this] Inr show ?thesis
    by (simp add: canonical_json_def check_well_formed [abs_def])
qed (simp add: canonical_json_def)

lemma canonical_json_accepts:
  assumes "number_laws ops"
  shows "canonical_json ops v = Inr t \<longleftrightarrow>
    (\<forall>x \<in> set (numbers v). check_number ops x = Inr ()) \<and>
    (\<forall>s \<in> set (strings v). \<not> lone_surrogate s) \<and> t = stringify (number_text ops) (sort_keys v)"
  by (auto simp: canonical_json_equation [OF assms])

lemma number_laws_texts_ok:
  assumes "number_laws ops" "\<forall>x \<in> set (numbers v). check_number ops x = Inr ()"
  shows "number_texts_ok (number_text ops) (sort_keys v)"
proof -
  have "set (numbers (sort_keys v)) = set (numbers v)"
    using same_json_leaves [OF same_json_sorted [of v]] by simp
  then show ?thesis
    using number_laws_ok [OF assms] by (auto simp: number_texts_ok_def number_ok_def list_all_iff)
qed

lemma canonical_json_same:
  assumes "number_laws ops" "unique_keys v" "same_json v w" "canonical_json ops v = Inr t"
  shows "canonical_json ops w = Inr t"
proof -
  have "sort_keys v = sort_keys w" "set (numbers v) = set (numbers w)" "set (strings v) = set (strings w)"
    using same_json_leaves [OF assms(3)] same_json_iff [OF assms(2)] assms(3) by auto
  then show ?thesis using assms(4) unfolding canonical_json_accepts [OF assms(1)] by metis
qed

lemma canonical_json_inj:
  assumes "number_laws ops" "unique_keys v"
    and "canonical_json ops v = Inr t" "canonical_json ops w = Inr t"
  shows "same_json (map_json (number_text ops) v) (map_json (number_text ops) w)"
proof -
  let ?nt = "number_text ops"
  have ok: "\<forall>x \<in> set (numbers v). check_number ops x = Inr ()"
      "\<forall>x \<in> set (numbers w). check_number ops x = Inr ()"
    and "stringify ?nt (sort_keys v) = stringify ?nt (sort_keys w)"
    using assms(3,4) by (auto simp: canonical_json_accepts [OF assms(1)])
  then have "stringify ?nt (sort_keys v) @ [] = stringify ?nt (sort_keys w) @ []" by simp
  from stringify_inj [OF this] have "map_json ?nt (sort_keys v) = map_json ?nt (sort_keys w)"
    using number_laws_texts_ok [OF assms(1)] ok by (simp add: at_end_def)
  then have "sort_keys (map_json ?nt v) = sort_keys (map_json ?nt w)"
    by (simp add: map_json_sort_keys)
  then show ?thesis by (rule same_json_of_sorted)
qed

section \<open>Decimal naturals\<close>

text \<open>An instance of the laws of numbers: naturals in decimal notation, safe below two to the 53.\<close>

definition decimal_value :: "js_string \<Rightarrow> nat" where
  "decimal_value t = foldl (\<lambda>a c. 10 * a + (unat c - 48)) 0 t"

definition decimal_ops :: "nat number_ops" where
  "decimal_ops = \<lparr>number_of = decimal_value, number_text = decimal_text,
     is_finite = (\<lambda>_. True), beyond_safe = (\<lambda>n. 2 ^ 53 \<le> n)\<rparr>"

lemma unat_digit: "d < 10 \<Longrightarrow> unat (of_nat (48 + d) :: 16 word) = 48 + d"
  by (simp add: unsigned_of_nat take_bit_eq_mod del: of_nat_add)

lemma number_char_digit: "d < 10 \<Longrightarrow> number_char (of_nat (48 + d))"
  using unat_digit [of d]
  by (auto simp: number_char_def word_le_nat_alt simp del: of_nat_add)

lemma decimal_text_laws:
  "decimal_text n \<noteq> [] \<and> list_all number_char (decimal_text n) \<and> decimal_value (decimal_text n) = n"
proof (induction n rule: decimal_text.induct)
  case (1 n)
  show ?case
  proof (cases "n < 10")
    case True
    then show ?thesis
      using unat_digit [of n] number_char_digit [of n]
      by (simp add: decimal_text.simps [of n] decimal_value_def del: of_nat_add)
  next
    case False
    then show ?thesis
      using 1 unat_digit [of "n mod 10"] number_char_digit [of "n mod 10"]
      by (simp add: decimal_text.simps [of n] decimal_value_def del: of_nat_add)
  qed
qed

lemma decimal_ops_laws: "number_laws decimal_ops"
  by (simp add: number_laws_def decimal_ops_def decimal_text_laws)

section \<open>Properties\<close>


definition sample_value :: "nat json" where
  "sample_value = JObj [(js ''b'', JArr [JNum 12, JNull]), (js ''a'', JStr (js ''x''))]"

definition sample_shuffled :: "nat json" where
  "sample_shuffled = JObj [(js ''a'', JStr (js ''x'')), (js ''b'', JArr [JNum 12, JNull])]"

lemma sample_sorted: "sort_keys sample_value = sample_shuffled"
  by (simp add: sample_value_def sample_shuffled_def js_def)

lemma sample_leaves:
  "numbers sample_value = [12]" "strings sample_value = [[98], [97], [120]]"
  "numbers sample_shuffled = [12]" "strings sample_shuffled = [[97], [120], [98]]"
  "unique_keys sample_value"
  by (simp_all add: sample_value_def sample_shuffled_def js_def)

lemma sample_same: "same_json sample_value sample_shuffled"
  using same_json_sorted [of sample_value] by (simp add: sample_sorted)

lemma sample_canonical:
  "canonical_json decimal_ops sample_value = Inr (stringify decimal_text sample_shuffled)"
  "canonical_json decimal_ops sample_shuffled = Inr (stringify decimal_text sample_shuffled)"
proof -
  show v: "canonical_json decimal_ops sample_value = Inr (stringify decimal_text sample_shuffled)"
    unfolding canonical_json_equation [OF decimal_ops_laws]
    by (simp add: sample_leaves sample_sorted check_number_def lead_surrogate_def
        trail_surrogate_def) (simp add: decimal_ops_def)
  show "canonical_json decimal_ops sample_shuffled = Inr (stringify decimal_text sample_shuffled)"
    by (rule canonical_json_same [OF decimal_ops_laws sample_leaves(5) sample_same v])
qed


text \<open>
  C12. The fingerprint does not depend on the order in which objects list their members: reordering
  members, at any depth, gives the same fingerprint, whatever the digest.
\<close>

theorem fingerprint_ignores_member_order:
  assumes "number_laws ops" and "unique_keys v" and "same_json v w"
    and "checkpoint_input_fingerprint sha256_hex ops v = Inr h"
  shows "checkpoint_input_fingerprint sha256_hex ops w = Inr h"
  using assms(4) canonical_json_same [OF assms(1-3)]
  by (auto simp: checkpoint_input_fingerprint_def)

theorem fingerprint_ignores_member_order_witness:
  "checkpoint_input_fingerprint (map (\<lambda>c. char_of (unat c))) decimal_ops sample_shuffled =
     Inr (map (\<lambda>c. char_of (unat c)) (stringify decimal_text sample_shuffled))"
  by (rule fingerprint_ignores_member_order [OF decimal_ops_laws sample_leaves(5) sample_same])
    (simp add: checkpoint_input_fingerprint_def sample_canonical)

text \<open>
  C13. The canonical text tells values apart: two accepted inputs have the same canonical text only if
  they are the same JSON value up to member order, numbers being compared by their text. A different
  input therefore reuses a checkpoint only through a collision of the digest.
\<close>

theorem canonical_json_injective:
  assumes "number_laws ops" and "unique_keys v"
    and "canonical_json ops v = Inr t" and "canonical_json ops w = Inr t"
  shows "same_json (map_json (number_text ops) v) (map_json (number_text ops) w)"
  by (rule canonical_json_inj [OF assms])

theorem canonical_json_injective_witness:
  "same_json (map_json decimal_text sample_value) (map_json decimal_text sample_shuffled)"
  using canonical_json_injective
    [OF decimal_ops_laws sample_leaves(5) sample_canonical(1) sample_canonical(2)]
  by (simp add: decimal_ops_def)

end
