(* ===== verification/Handler_Replay.thy ===== *)
theory Handler_Replay
  imports Workhorse_Prelude Canonical_Json_Proofs
begin

text \<open>
  The model of \<^verbatim>\<open>handler-replay.ts\<close>: running a handler against the stored durable state of one task.

  The class \<^verbatim>\<open>Replay\<close> is the record \<open>replay\<close> and its methods are actions. A handler is any sequence of
  calls on its context: \<open>replay_call\<close> has one constructor for each function of the context, and
  \<open>replay_step\<close> performs a call, whatever the handler does with what the call returns or throws.
  Calls can overlap, so \<^verbatim>\<open>checkpoint\<close> is split where it awaits: the call, the end of the operation it
  runs, and the \<^verbatim>\<open>finally\<close> that takes the call out of the calls in flight.

  Names of the source's JSON records are lists of pairs in the order of \<^verbatim>\<open>Object.keys\<close>. The time that
  \<^verbatim>\<open>new Date\<close> reads from a stored target is a number of milliseconds, absent for an invalid date.
  Messages are constructors that carry what the text mentions.
\<close>

section \<open>The stored state\<close>

datatype durable_kind = Checkpoint_Kind | Wait_Kind | Signal_Kind | Human_Wait_Kind | Child_Kind

type_synonym durable_name = "durable_kind \<times> js_string"

record 'n stored_checkpoint =
  checkpoint_value :: "'n json"
  input_fingerprint :: "string option"

datatype wait_mode = Relative_Wait | Absolute_Wait

record stored_wait =
  stored_mode :: wait_mode
  stored_wake_at :: "real option"
  stored_pending :: bool

datatype 'n stored_signal = Signal_Payload "'n json" | Signal_Pending

record 'n stored_human_wait =
  human_context :: "'n json"
  human_result :: "'n json option"

datatype join_mode = Settled | All_Success

datatype 'n child_outcome = Child_Succeeded "'n json" | Child_Failed "'n json" | Child_Canceled "'n json"

record 'n stored_child =
  child_type :: js_string
  child_payload :: "'n json"
  child_options :: "'n json option"
  stored_set :: "join_mode option"
  stored_outcome :: "'n child_outcome option"

record 'n durable_state =
  checkpoints :: "(js_string \<times> 'n stored_checkpoint) list"
  waits :: "(js_string \<times> stored_wait) list"
  signals :: "(js_string \<times> 'n stored_signal) list"
  human_waits :: "(js_string \<times> 'n stored_human_wait) list"
  children :: "(js_string \<times> 'n stored_child) list"

record 'n child_request =
  request_name :: js_string
  request_type :: js_string
  request_payload :: "'n json"
  request_options :: "'n json option"

section \<open>Comparing JSON values\<close>

record 'n replay_numbers = "'n number_ops" +
  is_minus_zero :: "'n \<Rightarrow> bool"
  number_string :: "'n \<Rightarrow> js_string"

definition replayed_number :: "'n replay_numbers \<Rightarrow> 'n \<Rightarrow> js_string" where
  "replayed_number ops x =
     (if is_minus_zero ops x then js ''-0''
      else if is_finite ops x then number_text ops x else number_string ops x)"

definition to_json :: "'n replay_numbers \<Rightarrow> 'n json \<Rightarrow> (canon_error, js_string) result" where
  "to_json ops v =
     canonical_text Inr (replayed_number ops \<circ> number_of ops) (stringify (number_text ops) v)"

definition same_json_text :: "'n replay_numbers \<Rightarrow> 'n json \<Rightarrow> 'n json \<Rightarrow> bool" where
  "same_json_text ops left right \<longleftrightarrow> to_json ops left = to_json ops right"

definition no_options :: "'n json" where
  "no_options = JObj []"

definition request_json :: "js_string \<Rightarrow> 'n json \<Rightarrow> 'n json option \<Rightarrow> 'n json" where
  "request_json ty payload options =
     JObj [(js ''type'', JStr ty), (js ''payload'', payload),
           (js ''options'', case options of None \<Rightarrow> no_options | Some v \<Rightarrow> v)]"

definition child_request_json ::
  "'n replay_numbers \<Rightarrow> js_string \<Rightarrow> 'n json \<Rightarrow> 'n json option \<Rightarrow> (canon_error, js_string) result" where
  "child_request_json ops ty payload options = to_json ops (request_json ty payload options)"

text \<open>\<^verbatim>\<open>isDeepStrictEqual\<close> on JSON values does not look place the order of the keys of an object.\<close>

definition deep_equal :: "'n json \<Rightarrow> 'n json \<Rightarrow> bool" where
  "deep_equal v w \<longleftrightarrow> sort_keys v = sort_keys w"

definition request_equal :: "'n child_request \<Rightarrow> 'n child_request \<Rightarrow> bool" where
  "request_equal a b \<longleftrightarrow>
     request_name a = request_name b \<and> request_type a = request_type b \<and>
     deep_equal (request_payload a) (request_payload b) \<and>
     rel_option deep_equal (request_options a) (request_options b)"

section \<open>The replay\<close>

datatype problem_reason = New_Before_Stored | Conflict

datatype input_source = Earlier_Call | Stored_Result

datatype problem_detail =
    Still_Holds durable_name
  | Input_Differs input_source
  | Human_Context_Differs_From_Earlier
  | Human_Context_Differs_From_Stored
  | Wait_Mode_Differs wait_mode wait_mode
  | Wait_Target_Differs "real option" real
  | Child_Request_Differs_From_Stored
  | Child_Join_Differs "join_mode option" "join_mode option"
  | Child_Request_Differs_From_Earlier
  | Second_Child js_string
  | Child_Set_Differs_From_Earlier
  | Child_Set_Names_Differ

record replay_problem =
  problem_reason :: problem_reason
  problem_at :: durable_name
  problem_detail :: problem_detail

record replay_names =
  names_replayed :: "durable_name list"
  names_new :: "durable_name list"
  names_unused :: "durable_name list"

datatype thrown =
    Handler_Replay_Error replay_problem replay_names
  | Replay_Suspension durable_name
  | Child_Does_Not_Resume js_string
  | Child_Names_Not_Unique
  | Bad_Input canon_error
  | Handler_Error string

record 'n replay =
  seen :: "durable_name list"
  replayed :: "durable_name list"
  added :: "durable_name list"
  new_checkpoints :: "js_string \<rightharpoonup> 'n json \<times> string option"
  child_requests :: "(js_string \<times> 'n child_request) list"
  child_set_request :: "('n child_request list \<times> join_mode) option"
  human_contexts :: "js_string \<rightharpoonup> js_string"
  progress :: "('n json \<times> nat) option"
  problem :: "replay_problem option"
  suspended_at :: "durable_name option"
  in_flight :: "js_string \<rightharpoonup> nat \<times> string option"

record 'n replay_env =
  stored_state :: "'n durable_state"
  allow_new :: "js_string list"
  numbers_of :: "'n replay_numbers"
  digest :: "js_string \<Rightarrow> string"

definition new_replay :: "'n replay" where
  "new_replay = \<lparr>seen = [], replayed = [], added = [], new_checkpoints = Map.empty, child_requests = [],
     child_set_request = None, human_contexts = Map.empty, progress = None, problem = None,
     suspended_at = None, in_flight = Map.empty\<rparr>"

fun is_stored :: "'n durable_state \<Rightarrow> durable_kind \<Rightarrow> js_string \<Rightarrow> bool" where
  "is_stored st Checkpoint_Kind name \<longleftrightarrow> name \<in> fst ` set (checkpoints st)"
| "is_stored st Wait_Kind name \<longleftrightarrow> name \<in> fst ` set (waits st)"
| "is_stored st Signal_Kind name \<longleftrightarrow> name \<in> fst ` set (signals st)"
| "is_stored st Human_Wait_Kind name \<longleftrightarrow> name \<in> fst ` set (human_waits st)"
| "is_stored st Child_Kind name \<longleftrightarrow> name \<in> fst ` set (children st)"

definition stored_names :: "'n durable_state \<Rightarrow> durable_name list" where
  "stored_names st =
     map (Pair Checkpoint_Kind \<circ> fst) (checkpoints st) @ map (Pair Wait_Kind \<circ> fst) (waits st) @
     map (Pair Signal_Kind \<circ> fst) (signals st) @ map (Pair Human_Wait_Kind \<circ> fst) (human_waits st) @
     map (Pair Child_Kind \<circ> fst) (children st)"

definition names :: "'n replay_env \<Rightarrow> 'n replay \<Rightarrow> replay_names" where
  "names env s = \<lparr>names_replayed = replayed s, names_new = added s,
     names_unused = filter (\<lambda>place. place \<notin> set (seen s)) (stored_names (stored_state env))\<rparr>"

type_synonym ('n, 'a) replay_action = "('n replay, thrown, 'a) action"

definition throw_problem :: "'n replay_env \<Rightarrow> ('n, unit) replay_action" where
  "throw_problem env =
     act_read (\<lambda>s. case problem s of
        None \<Rightarrow> act_return ()
      | Some p \<Rightarrow> act_throw (Handler_Replay_Error p (names env s)))"

definition fail_replay ::
  "'n replay_env \<Rightarrow> problem_reason \<Rightarrow> durable_name \<Rightarrow> problem_detail \<Rightarrow> ('n, 'a) replay_action" where
  "fail_replay env reason place detail =
     act_read (\<lambda>s.
       let p = (case problem s of
                  None \<Rightarrow> \<lparr>problem_reason = reason, problem_at = place, problem_detail = detail\<rparr>
                | Some p \<Rightarrow> p) in
       act_then (act_update (\<lambda>s. s\<lparr>problem := Some p\<rparr>))
         (act_throw (Handler_Replay_Error p (names env s))))"

definition suspend_replay :: "durable_name \<Rightarrow> ('n, 'a) replay_action" where
  "suspend_replay place =
     act_then
       (act_update (\<lambda>s. s\<lparr>suspended_at :=
          Some (case suspended_at s of None \<Rightarrow> place | Some first \<Rightarrow> first)\<rparr>))
       (act_throw (Replay_Suspension place))"

definition stop_replay :: "'n replay_env \<Rightarrow> ('n, unit) replay_action" where
  "stop_replay env =
     act_then (throw_problem env)
       (act_read (\<lambda>s. case suspended_at s of
          None \<Rightarrow> act_return ()
        | Some place \<Rightarrow> act_throw (Replay_Suspension place)))"

definition ask :: "'n replay_env \<Rightarrow> durable_kind \<Rightarrow> js_string \<Rightarrow> ('n, bool) replay_action" where
  "ask env kind name =
     act_then (stop_replay env)
       (act_read (\<lambda>s.
          let place = (kind, name); stored = is_stored (stored_state env) kind name in
          if place \<in> set (seen s) then act_return stored
          else if stored then
            act_then (act_update (\<lambda>s. s\<lparr>seen := seen s @ [place], replayed := replayed s @ [place]\<rparr>))
              (act_return True)
          else
            act_then (act_update (\<lambda>s. s\<lparr>seen := seen s @ [place], added := added s @ [place]\<rparr>))
              (act_read (\<lambda>s.
                 if name \<in> set (allow_new env) then act_return False
                 else (case names_unused (names env s) of
                         [] \<Rightarrow> act_return False
                       | waiting # _ \<Rightarrow>
                           fail_replay env New_Before_Stored place (Still_Holds waiting))))))"

definition read_stored :: "'n replay_env \<Rightarrow> durable_kind \<Rightarrow> js_string \<Rightarrow> ('n, unit) replay_action" where
  "read_stored env kind name =
     act_then (stop_replay env)
       (if \<not> is_stored (stored_state env) kind name then act_return ()
        else act_read (\<lambda>s.
          if (kind, name) \<in> set (seen s) then act_return ()
          else act_update (\<lambda>s. s\<lparr>seen := seen s @ [(kind, name)],
                 replayed := replayed s @ [(kind, name)]\<rparr>)))"

section \<open>The context\<close>

definition check_input ::
  "'n replay_env \<Rightarrow> js_string \<Rightarrow> string option \<Rightarrow> string option \<Rightarrow> input_source \<Rightarrow> ('n, unit) replay_action" where
  "check_input env name stored requested source =
     (if stored = None \<or> requested = None \<or> stored = requested then act_return ()
      else fail_replay env Conflict (Checkpoint_Kind, name) (Input_Differs source))"

definition get_checkpoint ::
  "'n replay_env \<Rightarrow> js_string \<Rightarrow> ('n, ('n json \<times> string option) option) replay_action" where
  "get_checkpoint env name =
     act_then (read_stored env Checkpoint_Kind name)
       (case map_of (checkpoints (stored_state env)) name of
          Some c \<Rightarrow> act_return (Some (checkpoint_value c, input_fingerprint c))
        | None \<Rightarrow> act_read (\<lambda>s. act_return (new_checkpoints s name)))"

definition get_wait :: "'n replay_env \<Rightarrow> js_string \<Rightarrow> ('n, stored_wait option) replay_action" where
  "get_wait env name =
     act_then (read_stored env Wait_Kind name)
       (act_return (map_of (waits (stored_state env)) name))"

definition set_progress :: "'n replay_env \<Rightarrow> 'n json \<Rightarrow> ('n, nat) replay_action" where
  "set_progress env value =
     act_then (stop_replay env)
       (act_read (\<lambda>s.
          let revision = (case progress s of None \<Rightarrow> 0 | Some (_, r) \<Rightarrow> r) + 1 in
          act_then (act_update (\<lambda>s. s\<lparr>progress := Some (value, revision)\<rparr>)) (act_return revision)))"

text \<open>
  What a checkpoint call does: it joins the call in flight with the given identity, it answers
  from what is stored, or it runs its operation.
\<close>

datatype 'n checkpoint_reply = Joined nat | Answered "'n json" | Run_Operation

definition checkpoint_execution ::
  "'n replay_env \<Rightarrow> js_string \<Rightarrow> string option \<Rightarrow> ('n, 'n checkpoint_reply) replay_action" where
  "checkpoint_execution env name fingerprint =
     act_bind (ask env Checkpoint_Kind name) (\<lambda>stored.
       case (if stored then map_of (checkpoints (stored_state env)) name else None) of
         Some c \<Rightarrow>
           act_then (check_input env name (input_fingerprint c) fingerprint Stored_Result)
             (act_return (Answered (checkpoint_value c)))
       | None \<Rightarrow>
           act_read (\<lambda>s. case new_checkpoints s name of
               Some (value, first) \<Rightarrow>
                 act_then (check_input env name first fingerprint Earlier_Call)
                   (act_return (Answered value))
             | None \<Rightarrow> act_return Run_Operation))"

definition input_digest :: "'n replay_env \<Rightarrow> 'n json option \<Rightarrow> (thrown, string option) result" where
  "input_digest env input =
     (case input of
        None \<Rightarrow> Inr None
      | Some v \<Rightarrow>
          (case checkpoint_input_fingerprint (digest env) (number_ops.truncate (numbers_of env)) v of
             Inl e \<Rightarrow> Inl (Bad_Input e)
           | Inr h \<Rightarrow> Inr (Some h)))"

definition checkpoint_call ::
  "'n replay_env \<Rightarrow> nat \<Rightarrow> js_string \<Rightarrow> 'n json option \<Rightarrow> ('n, 'n checkpoint_reply) replay_action" where
  "checkpoint_call env call name input =
     (case input_digest env input of
        Inl e \<Rightarrow> act_throw e
      | Inr fingerprint \<Rightarrow>
          act_read (\<lambda>s. case in_flight s name of
             Some (other, pending) \<Rightarrow>
               act_then (throw_problem env)
                 (act_then (check_input env name pending fingerprint Earlier_Call)
                    (act_return (Joined other)))
           | None \<Rightarrow>
               (\<lambda>s. let (reply, s') = checkpoint_execution env name fingerprint s in
                    (reply, s'\<lparr>in_flight := (in_flight s')(name \<mapsto> (call, fingerprint))\<rparr>))))"

definition operation_ends ::
  "'n replay_env \<Rightarrow> js_string \<Rightarrow> string option \<Rightarrow> 'n json \<Rightarrow> ('n, 'n json) replay_action" where
  "operation_ends env name fingerprint value =
     act_then (stop_replay env)
       (act_then (act_update (\<lambda>s. s\<lparr>new_checkpoints := (new_checkpoints s)(name \<mapsto> (value, fingerprint))\<rparr>))
          (act_return value))"

definition checkpoint_released :: "nat \<Rightarrow> js_string \<Rightarrow> ('n, unit) replay_action" where
  "checkpoint_released call name =
     act_update (\<lambda>s. case in_flight s name of
         Some (other, _) \<Rightarrow> if other = call then s\<lparr>in_flight := (in_flight s)(name := None)\<rparr> else s
       | None \<Rightarrow> s)"

definition timer ::
  "'n replay_env \<Rightarrow> js_string \<Rightarrow> wait_mode \<Rightarrow> real option \<Rightarrow> ('n, unit) replay_action" where
  "timer env name mode wake_at =
     act_bind (ask env Wait_Kind name) (\<lambda>stored.
       case (if stored then map_of (waits (stored_state env)) name else None) of
         None \<Rightarrow> suspend_replay (Wait_Kind, name)
       | Some w \<Rightarrow>
           act_then
             (if stored_mode w \<noteq> mode
              then fail_replay env Conflict (Wait_Kind, name) (Wait_Mode_Differs (stored_mode w) mode)
              else act_return ())
             (act_then
               (case wake_at of
                  None \<Rightarrow> act_return ()
                | Some target \<Rightarrow>
                    if stored_wake_at w \<noteq> Some target
                    then fail_replay env Conflict (Wait_Kind, name)
                           (Wait_Target_Differs (stored_wake_at w) target)
                    else act_return ())
               (if stored_pending w then suspend_replay (Wait_Kind, name) else act_return ())))"

definition wait_for_signal :: "'n replay_env \<Rightarrow> js_string \<Rightarrow> ('n, 'n json) replay_action" where
  "wait_for_signal env name =
     act_bind (ask env Signal_Kind name) (\<lambda>stored.
       case (if stored then map_of (signals (stored_state env)) name else None) of
         None \<Rightarrow> suspend_replay (Signal_Kind, name)
       | Some sig \<Rightarrow>
           (case sig of
              Signal_Pending \<Rightarrow> suspend_replay (Signal_Kind, name)
            | Signal_Payload payload \<Rightarrow> act_return payload))"

definition compare_human_context ::
  "'n replay_env \<Rightarrow> js_string \<Rightarrow> 'n json \<Rightarrow> ('n, unit) replay_action" where
  "compare_human_context env name context =
     act_read (\<lambda>s. case human_contexts s name of
        None \<Rightarrow>
          act_update (\<lambda>s. s\<lparr>human_contexts :=
            (human_contexts s)(name \<mapsto> stringify (number_text (numbers_of env)) context)\<rparr>)
      | Some first \<Rightarrow>
          if first \<noteq> stringify (number_text (numbers_of env)) context
          then fail_replay env Conflict (Human_Wait_Kind, name) Human_Context_Differs_From_Earlier
          else act_return ())"

definition wait_for_human :: "'n replay_env \<Rightarrow> js_string \<Rightarrow> 'n json \<Rightarrow> ('n, 'n json) replay_action" where
  "wait_for_human env name context =
     act_then (throw_problem env)
       (act_then (compare_human_context env name context)
         (act_bind (ask env Human_Wait_Kind name) (\<lambda>stored.
            case (if stored then map_of (human_waits (stored_state env)) name else None) of
              None \<Rightarrow> suspend_replay (Human_Wait_Kind, name)
            | Some h \<Rightarrow>
                if \<not> same_json_text (numbers_of env) (human_context h) context
                then fail_replay env Conflict (Human_Wait_Kind, name) Human_Context_Differs_From_Stored
                else (case human_result h of
                        None \<Rightarrow> suspend_replay (Human_Wait_Kind, name)
                      | Some value \<Rightarrow> act_return value))))"

section \<open>Children\<close>

definition check_child_request ::
  "'n replay_env \<Rightarrow> 'n child_request \<Rightarrow> join_mode option \<Rightarrow> ('n, unit) replay_action" where
  "check_child_request env request join =
     (case map_of (children (stored_state env)) (request_name request) of
        None \<Rightarrow> act_return ()
      | Some c \<Rightarrow>
          act_then
            (if child_request_json (numbers_of env) (request_type request) (request_payload request)
                  (request_options request) \<noteq>
                child_request_json (numbers_of env) (child_type c) (child_payload c) (child_options c)
             then fail_replay env Conflict (Child_Kind, request_name request)
                    Child_Request_Differs_From_Stored
             else act_return ())
            (if stored_set c \<noteq> join
             then fail_replay env Conflict (Child_Kind, request_name request)
                    (Child_Join_Differs (stored_set c) join)
             else act_return ()))"

text \<open>The request as \<^verbatim>\<open>runChild\<close> keeps it, with its options filled in.\<close>

definition child_call_of :: "'n child_request \<Rightarrow> 'n child_request" where
  "child_call_of request =
     request\<lparr>request_options :=
       Some (case request_options request of None \<Rightarrow> no_options | Some v \<Rightarrow> v)\<rparr>"

definition compare_child_call :: "'n replay_env \<Rightarrow> 'n child_request \<Rightarrow> ('n, unit) replay_action" where
  "compare_child_call env request =
     act_read (\<lambda>s. case map_of (child_requests s) (request_name request) of
        None \<Rightarrow>
          act_update (\<lambda>s. s\<lparr>child_requests :=
            child_requests s @ [(request_name request, child_call_of request)]\<rparr>)
      | Some first \<Rightarrow>
          if \<not> request_equal first (child_call_of request)
          then fail_replay env Conflict (Child_Kind, request_name request)
                 Child_Request_Differs_From_Earlier
          else act_return ())"

definition other_child :: "'n replay_env \<Rightarrow> js_string \<Rightarrow> 'n replay \<Rightarrow> js_string option" where
  "other_child env name s =
     (case find (\<lambda>n. n \<noteq> name) (map fst (children (stored_state env))) of
        Some n \<Rightarrow> Some n
      | None \<Rightarrow> find (\<lambda>n. n \<noteq> name) (map fst (child_requests s)))"

definition child :: "'n replay_env \<Rightarrow> 'n child_request \<Rightarrow> ('n, 'n child_outcome option) replay_action" where
  "child env request =
     act_then (throw_problem env)
       (act_then (compare_child_call env request)
         (act_then (check_child_request env request None)
           (act_then
             (act_read (\<lambda>s. case other_child env (request_name request) s of
                 None \<Rightarrow> act_return ()
               | Some other \<Rightarrow>
                   fail_replay env Conflict (Child_Kind, request_name request) (Second_Child other)))
             (act_bind (ask env Child_Kind (request_name request)) (\<lambda>stored.
                act_return
                  (case (if stored then map_of (children (stored_state env)) (request_name request)
                         else None) of
                     None \<Rightarrow> None
                   | Some c \<Rightarrow> stored_outcome c))))))"

definition run_child :: "'n replay_env \<Rightarrow> 'n child_request \<Rightarrow> ('n, 'n json) replay_action" where
  "run_child env request =
     act_bind (child env request) (\<lambda>outcome.
       case outcome of
         None \<Rightarrow> suspend_replay (Child_Kind, request_name request)
       | Some out \<Rightarrow>
           (case out of
              Child_Succeeded value \<Rightarrow> act_return value
            | _ \<Rightarrow> act_throw (Child_Does_Not_Resume (request_name request))))"

definition compare_child_set ::
  "'n replay_env \<Rightarrow> 'n child_request list \<Rightarrow> join_mode \<Rightarrow> ('n, unit) replay_action" where
  "compare_child_set env requests mode =
     act_read (\<lambda>s. case child_set_request s of
        None \<Rightarrow> act_update (\<lambda>s. s\<lparr>child_set_request := Some (requests, mode)\<rparr>)
      | Some (first, first_mode) \<Rightarrow>
          if \<not> (list_all2 request_equal first requests \<and> first_mode = mode)
          then fail_replay env Conflict
                 (Child_Kind, case requests of [] \<Rightarrow> js ''child set'' | r # _ \<Rightarrow> request_name r)
                 Child_Set_Differs_From_Earlier
          else act_return ())"

definition missing_child :: "'n replay_env \<Rightarrow> js_string list \<Rightarrow> js_string option" where
  "missing_child env requested =
     (let stored = map fst (children (stored_state env)) in
      if stored = [] then None
      else (case find (\<lambda>n. n \<notin> set stored) requested of
              Some n \<Rightarrow> Some n
            | None \<Rightarrow> find (\<lambda>n. n \<notin> set requested) stored))"

definition ask_child ::
  "'n replay_env \<Rightarrow> 'n child_request \<Rightarrow> ('n, js_string \<times> 'n child_outcome option) replay_action" where
  "ask_child env request =
     act_bind (ask env Child_Kind (request_name request)) (\<lambda>stored.
       act_return (request_name request,
         case (if stored then map_of (children (stored_state env)) (request_name request) else None) of
           None \<Rightarrow> None
         | Some c \<Rightarrow> stored_outcome c))"

datatype 'n joined = Joined_Outcomes "(js_string \<times> 'n child_outcome) list"
  | Joined_Results "(js_string \<times> 'n json) list"

definition child_succeeded :: "'n child_outcome \<Rightarrow> bool" where
  "child_succeeded out = (case out of Child_Succeeded _ \<Rightarrow> True | _ \<Rightarrow> False)"

definition child_result :: "'n child_outcome \<Rightarrow> 'n json" where
  "child_result out = (case out of Child_Succeeded v \<Rightarrow> v | Child_Failed v \<Rightarrow> v | Child_Canceled v \<Rightarrow> v)"

definition join_outcomes ::
  "join_mode \<Rightarrow> (js_string \<times> 'n child_outcome option) list \<Rightarrow> ('n, 'n joined) replay_action" where
  "join_outcomes mode outcomes =
     (case find (\<lambda>p. snd p = None) outcomes of
        Some p \<Rightarrow> suspend_replay (Child_Kind, fst p)
      | None \<Rightarrow>
          let settled = map (\<lambda>(n, out). (n, the out)) outcomes in
          (case mode of
             Settled \<Rightarrow> act_return (Joined_Outcomes settled)
           | All_Success \<Rightarrow>
               (case find (\<lambda>p. \<not> child_succeeded (snd p)) settled of
                  Some p \<Rightarrow> act_throw (Child_Does_Not_Resume (fst p))
                | None \<Rightarrow> act_return (Joined_Results (map (\<lambda>(n, out). (n, child_result out)) settled)))))"

definition child_set ::
  "'n replay_env \<Rightarrow> 'n child_request list \<Rightarrow> join_mode \<Rightarrow> ('n, 'n joined) replay_action" where
  "child_set env requests mode =
     act_then (throw_problem env)
       (if \<not> distinct (map request_name requests) then act_throw Child_Names_Not_Unique
        else
          act_then (compare_child_set env requests mode)
            (act_then
              (case missing_child env (map request_name requests) of
                 None \<Rightarrow> act_return ()
               | Some missing \<Rightarrow>
                   fail_replay env Conflict (Child_Kind, missing) Child_Set_Names_Differ)
              (act_then (act_each (\<lambda>r. check_child_request env r (Some mode)) requests)
                (act_bind (act_map (ask_child env) requests) (join_outcomes mode)))))"

section \<open>Runs\<close>

datatype 'n replay_call =
    Get_Checkpoint js_string
  | Get_Wait js_string
  | Set_Progress "'n json"
  | Checkpoint_Call nat js_string "'n json option"
  | Operation_Ends js_string "string option" "'n json"
  | Checkpoint_Released nat js_string
  | Sleep js_string
  | Sleep_Until js_string real
  | Wait_For_Signal js_string
  | Wait_For_Human js_string "'n json"
  | Run_Child "'n child_request"
  | Run_Children "'n child_request list"
  | Run_Children_All "'n child_request list"

fun replay_step :: "'n replay_env \<Rightarrow> 'n replay_call \<Rightarrow> 'n replay \<Rightarrow> 'n replay" where
  "replay_step env (Get_Checkpoint name) s = snd (get_checkpoint env name s)"
| "replay_step env (Get_Wait name) s = snd (get_wait env name s)"
| "replay_step env (Set_Progress v) s = snd (set_progress env v s)"
| "replay_step env (Checkpoint_Call call name input) s = snd (checkpoint_call env call name input s)"
| "replay_step env (Operation_Ends name fingerprint v) s = snd (operation_ends env name fingerprint v s)"
| "replay_step env (Checkpoint_Released call name) s = snd (checkpoint_released call name s)"
| "replay_step env (Sleep name) s = snd (timer env name Relative_Wait None s)"
| "replay_step env (Sleep_Until name place) s = snd (timer env name Absolute_Wait (Some place) s)"
| "replay_step env (Wait_For_Signal name) s = snd (wait_for_signal env name s)"
| "replay_step env (Wait_For_Human name context) s = snd (wait_for_human env name context s)"
| "replay_step env (Run_Child r) s = snd (run_child env r s)"
| "replay_step env (Run_Children rs) s = snd (child_set env rs Settled s)"
| "replay_step env (Run_Children_All rs) s = snd (child_set env rs All_Success s)"

definition replay_run :: "'n replay_env \<Rightarrow> 'n replay_call list \<Rightarrow> 'n replay" where
  "replay_run env calls = fold (replay_step env) calls new_replay"

datatype 'n replay_outcome = Completed "'n json" | Suspended durable_name

definition replay_handler ::
  "'n replay_env \<Rightarrow> 'n replay_call list \<Rightarrow> (thrown, 'n json) result
   \<Rightarrow> (thrown, replay_names \<times> 'n replay_outcome) result" where
  "replay_handler env calls handler_result =
     (let s = replay_run env calls in
      bind_result (fst (throw_problem env s)) (\<lambda>_.
        case suspended_at s of
          Some place \<Rightarrow> Inr (names env s, Suspended place)
        | None \<Rightarrow> bind_result handler_result (\<lambda>v. Inr (names env s, Completed v))))"

end
