(* ===== verification/Handler_Replay_Proofs.thy ===== *)
theory Handler_Replay_Proofs
  imports Handler_Replay
begin

text \<open>
  Invariants of a replay. The locale \<open>replay_invariant\<close> says what a property of the replay has to
  survive: the two methods that record names, the two cells that are written once, and the fields
  that only one method uses. Every call of the context then keeps it, in any order of calls.
\<close>

locale replay_invariant =
  fixes env :: "'n replay_env" and P :: "'n replay \<Rightarrow> bool"
  assumes ask_keeps: "P s \<Longrightarrow> P (snd (ask env kind name s))"
    and read_keeps: "P s \<Longrightarrow> P (snd (read_stored env kind name s))"
    and problem_keeps: "P s \<Longrightarrow> P (s\<lparr>problem := Some (case problem s of None \<Rightarrow> p | Some q \<Rightarrow> q)\<rparr>)"
    and suspend_keeps:
      "P s \<Longrightarrow> P (s\<lparr>suspended_at := Some (case suspended_at s of None \<Rightarrow> place | Some q \<Rightarrow> q)\<rparr>)"
    and checkpoints_keep: "P s \<Longrightarrow> P (s\<lparr>new_checkpoints := m\<rparr>)"
    and child_requests_keep: "P s \<Longrightarrow> P (s\<lparr>child_requests := rs\<rparr>)"
    and child_set_keep: "P s \<Longrightarrow> P (s\<lparr>child_set_request := r\<rparr>)"
    and human_keep: "P s \<Longrightarrow> P (s\<lparr>human_contexts := h\<rparr>)"
    and progress_keep: "P s \<Longrightarrow> P (s\<lparr>progress := g\<rparr>)"
    and in_flight_keep: "P s \<Longrightarrow> P (s\<lparr>in_flight := f\<rparr>)"
begin

lemmas field_keeps =
  checkpoints_keep child_requests_keep child_set_keep human_keep progress_keep in_flight_keep

lemma keeps_ask: "act_keeps P (ask env kind name)"
  by (rule act_keepsI) (rule ask_keeps)

lemma keeps_read_stored: "act_keeps P (read_stored env kind name)"
  by (rule act_keepsI) (rule read_keeps)

lemma keeps_throw_problem: "act_keeps P (throw_problem env)"
  unfolding throw_problem_def by (intro keeps keeps_read)

lemma keeps_stop: "act_keeps P (stop_replay env)"
  unfolding stop_replay_def by (intro keeps keeps_read keeps_throw_problem)

lemma keeps_fail: "act_keeps P (fail_replay env reason place detail)"
  by (rule act_keepsI)
    (simp add: fail_replay_def act_then_def act_bind_def problem_keeps Let_def)

lemma keeps_suspend: "act_keeps P (suspend_replay place)"
  unfolding suspend_replay_def by (intro keeps suspend_keeps)

lemma keeps_check_input: "act_keeps P (check_input env name stored requested source)"
  unfolding check_input_def by (intro keeps keeps_fail)

lemma keeps_check_child: "act_keeps P (check_child_request env r join)"
  unfolding check_child_request_def by (intro keeps keeps_fail)

lemmas keeps_base =
  keeps keeps_read keeps_ask keeps_read_stored keeps_throw_problem keeps_stop keeps_fail keeps_suspend
  keeps_check_input keeps_check_child field_keeps

lemma keeps_get_checkpoint: "act_keeps P (get_checkpoint env name)"
  unfolding get_checkpoint_def by (intro keeps_base)

lemma keeps_get_wait: "act_keeps P (get_wait env name)"
  unfolding get_wait_def by (intro keeps_base)

lemma keeps_set_progress: "act_keeps P (set_progress env v)"
  unfolding set_progress_def Let_def by (intro keeps_base)

lemma keeps_execution: "act_keeps P (checkpoint_execution env name fp)"
  unfolding checkpoint_execution_def
  by (intro keeps_base) (auto split: prod.split intro!: keeps_base)

lemma keeps_checkpoint_call: "act_keeps P (checkpoint_call env call name input)"
proof (cases "input_digest env input")
  case (Inr fp)
  have "act_keeps P (\<lambda>s. let (reply, s') = checkpoint_execution env name fp s in
      (reply, s'\<lparr>in_flight := (in_flight s')(name \<mapsto> (call, fp))\<rparr>))"
    using act_keepsD [OF keeps_execution]
    by (intro act_keepsI) (auto simp: case_prod_unfold Let_def intro: in_flight_keep)
  then show ?thesis
    unfolding checkpoint_call_def Inr sum.case
    by (intro keeps_base) (auto split: prod.split intro!: keeps_base)
qed (simp add: checkpoint_call_def keeps)

lemma keeps_operation_ends: "act_keeps P (operation_ends env name fp v)"
  unfolding operation_ends_def by (intro keeps_base)

lemma keeps_released: "act_keeps P (checkpoint_released call name)"
  unfolding checkpoint_released_def
  by (intro keeps_base) (auto split: option.split intro: in_flight_keep)

lemma keeps_timer: "act_keeps P (timer env name mode wake)"
  unfolding timer_def by (intro keeps_base)

lemma keeps_signal: "act_keeps P (wait_for_signal env name)"
  unfolding wait_for_signal_def
  by (intro keeps_base) (auto split: stored_signal.split intro!: keeps_base)

lemma keeps_human: "act_keeps P (wait_for_human env name context)"
  unfolding wait_for_human_def compare_human_context_def by (intro keeps_base)

lemma keeps_run_child: "act_keeps P (run_child env r)"
  unfolding run_child_def child_def compare_child_call_def
  by (intro keeps_base) (auto split: child_outcome.split intro!: keeps_base)

lemma keeps_join: "act_keeps P (join_outcomes mode outcomes)"
  unfolding join_outcomes_def Let_def
  by (intro keeps_base) (auto split: join_mode.split intro!: keeps_base)

lemma keeps_child_set: "act_keeps P (child_set env rs mode)"
  unfolding child_set_def compare_child_set_def ask_child_def
  by (intro keeps_base keeps_join) (auto split: prod.split intro!: keeps_base)

lemma keeps_step: "P s \<Longrightarrow> P (replay_step env call s)"
  by (cases call)
    (simp_all add: act_keepsD keeps_get_checkpoint keeps_get_wait keeps_set_progress
      keeps_checkpoint_call keeps_operation_ends keeps_released keeps_timer keeps_signal keeps_human
      keeps_run_child keeps_child_set)

lemma keeps_run: "P s \<Longrightarrow> P (fold (replay_step env) calls s)"
  by (induction calls arbitrary: s) (simp_all add: keeps_step)

end

section \<open>What the recording methods do\<close>

lemma stored_names_iff: "(kind, name) \<in> set (stored_names st) \<longleftrightarrow> is_stored st kind name"
  by (cases kind) (auto simp: stored_names_def)

lemma throw_problem_run:
  "throw_problem env s =
     (case problem s of None \<Rightarrow> Inr () | Some p \<Rightarrow> Inl (Handler_Replay_Error p (names env s)), s)"
  by (simp add: throw_problem_def split: option.split)

lemma stop_replay_run:
  "stop_replay env s =
     (case problem s of
        Some p \<Rightarrow> Inl (Handler_Replay_Error p (names env s))
      | None \<Rightarrow> (case suspended_at s of Some place \<Rightarrow> Inl (Replay_Suspension place) | None \<Rightarrow> Inr ()), s)"
  by (simp add: stop_replay_def act_then_def act_bind_def throw_problem_run split: option.split)

text \<open>
  Asking for a name either changes nothing, or records the name as replayed or as new, or records it
  as new and fails the replay.
\<close>

lemma ask_cases:
  obtains
    (same) "snd (ask env kind name s) = s"
  | (stored) "is_stored (stored_state env) kind name" "(kind, name) \<notin> set (seen s)"
      "problem s = None"
      "snd (ask env kind name s) =
         s\<lparr>seen := seen s @ [(kind, name)], replayed := replayed s @ [(kind, name)]\<rparr>"
  | (new) p where "\<not> is_stored (stored_state env) kind name" "(kind, name) \<notin> set (seen s)"
      "problem s = None"
      "snd (ask env kind name s) =
         s\<lparr>seen := seen s @ [(kind, name)], added := added s @ [(kind, name)], problem := p\<rparr>"
      "p = None \<longleftrightarrow> name \<in> set (allow_new env) \<or>
         set (stored_names (stored_state env)) \<subseteq> insert (kind, name) (set (seen s))"
proof -
  consider "(\<exists>e. stop_replay env s = (Inl e, s)) \<or> (kind, name) \<in> set (seen s)"
    | "stop_replay env s = (Inr (), s)" "problem s = None" "(kind, name) \<notin> set (seen s)"
    by (cases "problem s"; cases "suspended_at s"; cases "(kind, name) \<in> set (seen s)")
      (auto simp: stop_replay_run)
  then show thesis
  proof cases
    case 1
    then have "snd (ask env kind name s) = s"
      by (auto simp: ask_def act_then_def act_bind_def stop_replay_run Let_def split: option.splits)
    then show ?thesis by (rule same)
  next
    case 2
    show ?thesis
    proof (cases "is_stored (stored_state env) kind name")
      case True
      then show ?thesis
        using 2 by (intro stored) (simp_all add: ask_def act_then_def act_bind_def Let_def)
    next
      case False
      define s' where "s' = s\<lparr>seen := seen s @ [(kind, name)], added := added s @ [(kind, name)]\<rparr>"
      define p where "p = problem (snd (ask env kind name s))"
      have empty: "names_unused (names env s') = [] \<longleftrightarrow>
          set (stored_names (stored_state env)) \<subseteq> insert (kind, name) (set (seen s))"
        by (auto simp: names_def s'_def filter_empty_conv)
      have "snd (ask env kind name s) = s'\<lparr>problem := p\<rparr> \<and>
          (p = None \<longleftrightarrow> name \<in> set (allow_new env) \<or> names_unused (names env s') = [])"
        using 2 False
        by (auto simp: ask_def act_then_def act_bind_def p_def s'_def [symmetric] fail_replay_def Let_def
            split: list.split) (simp_all add: s'_def)
      then show ?thesis
        using 2 False empty by (intro new [of p]) (simp_all add: s'_def)
    qed
  qed
qed

lemma read_stored_cases:
  obtains
    (same) "snd (read_stored env kind name s) = s"
  | (stored) "is_stored (stored_state env) kind name" "(kind, name) \<notin> set (seen s)"
      "snd (read_stored env kind name s) =
         s\<lparr>seen := seen s @ [(kind, name)], replayed := replayed s @ [(kind, name)]\<rparr>"
proof -
  have "snd (read_stored env kind name s) = s \<or>
      is_stored (stored_state env) kind name \<and> (kind, name) \<notin> set (seen s) \<and>
      snd (read_stored env kind name s) =
        s\<lparr>seen := seen s @ [(kind, name)], replayed := replayed s @ [(kind, name)]\<rparr>"
    by (simp add: read_stored_def act_then_def act_bind_def stop_replay_run split: option.split)
  then show thesis using same stored by blast
qed

section \<open>The invariants\<close>

text \<open>Every name is recorded once, as replayed when the state holds it and as new when it does not.\<close>

definition names_recorded :: "'n replay_env \<Rightarrow> 'n replay \<Rightarrow> bool" where
  "names_recorded env s \<longleftrightarrow>
     distinct (replayed s) \<and> distinct (added s) \<and>
     set (seen s) = set (replayed s) \<union> set (added s) \<and>
     set (replayed s) \<subseteq> set (stored_names (stored_state env)) \<and>
     set (added s) \<inter> set (stored_names (stored_state env)) = {}"

text \<open>Without a problem, a new name that is not allowed was asked for after every stored name.\<close>

definition new_after_stored :: "'n replay_env \<Rightarrow> 'n replay \<Rightarrow> bool" where
  "new_after_stored env s \<longleftrightarrow>
     (problem s = None \<longrightarrow>
      (\<forall>place \<in> set (added s). snd place \<in> set (allow_new env) \<or>
         set (stored_names (stored_state env)) \<subseteq> insert place (set (seen s))))"

lemma names_recorded_ask: "names_recorded env s \<Longrightarrow> names_recorded env (snd (ask env kind name s))"
  by (rule ask_cases [of env kind name s])
    (auto simp: names_recorded_def stored_names_iff [symmetric])

lemma names_recorded_read:
  "names_recorded env s \<Longrightarrow> names_recorded env (snd (read_stored env kind name s))"
  by (rule read_stored_cases [of env kind name s])
    (auto simp: names_recorded_def stored_names_iff [symmetric])

lemma new_after_stored_ask: "new_after_stored env s \<Longrightarrow> new_after_stored env (snd (ask env kind name s))"
  by (rule ask_cases [of env kind name s]) (auto simp: new_after_stored_def)

lemma new_after_stored_read:
  "new_after_stored env s \<Longrightarrow> new_after_stored env (snd (read_stored env kind name s))"
  by (rule read_stored_cases [of env kind name s]) (auto simp: new_after_stored_def)

interpretation recorded: replay_invariant env "names_recorded env" for env
  by unfold_locales (simp_all add: names_recorded_ask names_recorded_read, simp_all add: names_recorded_def)

interpretation in_order: replay_invariant env "new_after_stored env" for env
  by unfold_locales (simp_all add: new_after_stored_ask new_after_stored_read, simp_all add: new_after_stored_def)

lemma problem_ask: "problem s = Some p \<Longrightarrow> problem (snd (ask env kind name s)) = Some p"
  by (rule ask_cases [of env kind name s]) auto

lemma problem_read: "problem (snd (read_stored env kind name s)) = problem s"
  by (rule read_stored_cases [of env kind name s]) auto

lemma suspended_ask: "suspended_at (snd (ask env kind name s)) = suspended_at s"
  by (rule ask_cases [of env kind name s]) auto

lemma suspended_read: "suspended_at (snd (read_stored env kind name s)) = suspended_at s"
  by (rule read_stored_cases [of env kind name s]) auto

interpretation problem_stays: replay_invariant env "\<lambda>s. problem s = Some p" for env p
  by unfold_locales (simp_all add: problem_ask problem_read)

interpretation suspension_stays: replay_invariant env "\<lambda>s. suspended_at s = Some place" for env place
  by unfold_locales (simp_all add: suspended_ask suspended_read)

lemma names_recorded_new: "names_recorded env new_replay"
  by (simp add: names_recorded_def new_replay_def)

lemma new_after_stored_new: "new_after_stored env new_replay"
  by (simp add: new_after_stored_def new_replay_def)

lemma run_recorded: "names_recorded env (replay_run env calls)"
  unfolding replay_run_def by (rule recorded.keeps_run) (rule names_recorded_new)

lemma run_in_order: "new_after_stored env (replay_run env calls)"
  unfolding replay_run_def by (rule in_order.keeps_run) (rule new_after_stored_new)

lemma replay_run_append: "replay_run env (calls @ later) = fold (replay_step env) later (replay_run env calls)"
  by (simp add: replay_run_def)

end
