(* ===== verification/Handler_Replay_Properties.thy ===== *)
theory Handler_Replay_Properties
  imports Handler_Replay_Proofs Canonical_Json_Properties
begin

text \<open>
  What a replay report says, and what a replayed boundary returns.
\<close>

section \<open>JSON texts of a replay\<close>

text \<open>
  What ECMAScript says of the text of a finite number, for the numbers of a replay: the text reads as a
  finite number that is not negative zero and that has the same text.
\<close>

definition replay_number_laws :: "'n replay_numbers \<Rightarrow> bool" where
  "replay_number_laws ops \<longleftrightarrow>
     (\<forall>x. is_finite ops x \<longrightarrow>
        number_text ops x \<noteq> [] \<and> list_all number_char (number_text ops x) \<and>
        is_finite ops (number_of ops (number_text ops x)) \<and>
        \<not> is_minus_zero ops (number_of ops (number_text ops x)) \<and>
        number_text ops (number_of ops (number_text ops x)) = number_text ops x)"

definition finite_numbers :: "'n replay_numbers \<Rightarrow> 'n json \<Rightarrow> bool" where
  "finite_numbers ops v \<longleftrightarrow> list_all (is_finite ops) (numbers v)"

lemma returns_input_Inr: "returns_input Inr"
  by (simp add: returns_input_def)

lemma to_json_stringify:
  assumes "replay_number_laws ops" "finite_numbers ops v"
  shows "to_json ops v = Inr (stringify (number_text ops) (sort_keys v))"
proof -
  have "list_all (number_ok (number_text ops) (replayed_number ops \<circ> number_of ops)) (numbers v)"
    using assms
    by (auto simp: replay_number_laws_def finite_numbers_def number_ok_def replayed_number_def list_all_iff)
  moreover have "for_each (check_string Inr) xs = Inr ()" for xs
    by (simp add: check_string_def)
  ultimately show ?thesis
    using read_stringify [OF _ returns_input_Inr, of "number_text ops" _ v
        "Suc (length (stringify (number_text ops) v))" "[]"]
    by (simp add: to_json_def canonical_text_def at_end_def)
qed

lemma finite_texts_ok:
  assumes "replay_number_laws ops" "finite_numbers ops v"
  shows "number_texts_ok (number_text ops) (sort_keys v)"
  using assms same_json_leaves [OF same_json_sorted [of v]]
  by (auto simp: number_texts_ok_def finite_numbers_def replay_number_laws_def list_all_iff)

lemma same_json_text_sound:
  assumes "replay_number_laws ops" "finite_numbers ops v" "finite_numbers ops w"
    and "same_json_text ops v w"
  shows "same_json (map_json (number_text ops) v) (map_json (number_text ops) w)"
proof -
  let ?nt = "number_text ops"
  have "stringify ?nt (sort_keys v) @ [] = stringify ?nt (sort_keys w) @ []"
    using assms by (simp add: same_json_text_def to_json_stringify)
  from stringify_inj [OF this] have "map_json ?nt (sort_keys v) = map_json ?nt (sort_keys w)"
    using finite_texts_ok [OF assms(1,2)] finite_texts_ok [OF assms(1,3)] by (simp add: at_end_def)
  then show ?thesis by (simp add: map_json_sort_keys same_json_of_sorted)
qed

section \<open>Results of the context\<close>

lemma ask_result:
  "ask env kind name s = (Inr b, s') \<Longrightarrow> b = is_stored (stored_state env) kind name"
  by (auto simp: ask_def act_then_def act_bind_def stop_replay_run Let_def fail_replay_def
      split: option.splits if_splits list.splits)

lemma fail_not_Inr [simp]: "fail_replay env reason place detail s \<noteq> (Inr a, s')"
  by (simp add: fail_replay_def act_then_def act_bind_def Let_def)

lemma suspend_not_Inr [simp]: "suspend_replay place s \<noteq> (Inr a, s')"
  by (simp add: suspend_replay_def act_then_def act_bind_def)

lemma ask_stored_run:
  assumes "problem s = None" "suspended_at s = None" "is_stored (stored_state env) kind name"
  shows "fst (ask env kind name s) = Inr True" "problem (snd (ask env kind name s)) = None"
    "suspended_at (snd (ask env kind name s)) = None"
  using assms
  by (simp_all add: ask_def act_then_def act_bind_def stop_replay_run Let_def)

lemma checkpoint_call_stored:
  assumes "problem s = None" "suspended_at s = None" "in_flight s name = None"
    and "map_of (checkpoints (stored_state env)) name = Some c"
    and "input_digest env input = Inr fingerprint"
  shows "fst (checkpoint_call env call name input s) =
    (if input_fingerprint c = None \<or> fingerprint = None \<or> input_fingerprint c = fingerprint
     then Inr (Answered (checkpoint_value c))
     else Inl (Handler_Replay_Error
       \<lparr>problem_reason = Conflict, problem_at = (Checkpoint_Kind, name),
        problem_detail = Input_Differs Stored_Result\<rparr>
       (names env (snd (ask env Checkpoint_Kind name s)))))"
proof -
  have "is_stored (stored_state env) Checkpoint_Kind name"
    using assms(4) by (auto dest: map_of_SomeD simp: image_iff intro: bexI [of _ "(name, c)"])
  from ask_stored_run [OF assms(1,2) this] obtain s1
    where s1: "ask env Checkpoint_Kind name s = (Inr True, s1)" "problem s1 = None"
    by (metis prod.collapse)
  then show ?thesis
    using assms(3-5)
    by (simp add: checkpoint_call_def checkpoint_execution_def act_bind_def act_then_def check_input_def
        fail_replay_def Let_def case_prod_unfold)
qed

section \<open>Properties\<close>


definition sample_state :: "nat durable_state" where
  "sample_state = \<lparr>checkpoints = [(js ''charge'', \<lparr>checkpoint_value = JNum 7, input_fingerprint = Some ''h''\<rparr>)],
     waits = [], signals = [],
     human_waits = [(js ''ok'', \<lparr>human_context = JObj [(js ''a'', JNum 2), (js ''b'', JNull)],
        human_result = Some (JBool True)\<rparr>)],
     children = [(js ''c'', \<lparr>child_type = js ''mail'', child_payload = JNull, child_options = None,
        stored_set = Some All_Success, stored_outcome = Some (Child_Succeeded (JNum 3))\<rparr>)]\<rparr>"

definition replay_decimal :: "nat replay_numbers" where
  "replay_decimal = number_ops.extend decimal_ops \<lparr>is_minus_zero = (\<lambda>_. False), number_string = decimal_text\<rparr>"

definition sample_env :: "nat replay_env" where
  "sample_env = \<lparr>stored_state = sample_state, allow_new = [js ''v2''], numbers_of = replay_decimal,
     digest = (\<lambda>_. ''h'')\<rparr>"

lemma replay_decimal_simps [simp]:
  "number_text replay_decimal = decimal_text" "number_of replay_decimal = decimal_value"
  "is_finite replay_decimal x" "\<not> is_minus_zero replay_decimal x"
  by (simp_all add: replay_decimal_def number_ops.extend_def decimal_ops_def)

lemma replay_decimal_laws: "replay_number_laws replay_decimal"
  by (simp add: replay_number_laws_def decimal_text_laws)

lemma sample_env_simps [simp]:
  "stored_state sample_env = sample_state" "allow_new sample_env = [js ''v2'']"
  "numbers_of sample_env = replay_decimal" "digest sample_env = (\<lambda>_. ''h'')"
  by (simp_all add: sample_env_def)

lemma unat_js_unit: "unat (of_nat (of_char c) :: 16 word) = of_char c"
proof -
  have "of_char c < (65536 :: nat)"
    by (rule less_trans [OF nat_of_char_less_256]) simp
  then show ?thesis by (simp add: unsigned_of_nat take_bit_eq_mod)
qed

lemma js_distinct [simp]: "js s = js t \<longleftrightarrow> s = t"
proof -
  have "inj (\<lambda>c. of_nat (of_char c) :: 16 word)"
    by (rule injI) (metis unat_js_unit of_char_eq_iff)
  then show ?thesis by (simp add: js_def inj_map_eq_map)
qed


text \<open>
  C15. A report is only given for a handler that asked in order: at every point of the replay at which
  the handler had asked for a new name that is not allowed, it had asked for every stored name before.
\<close>

theorem replay_report_in_order:
  assumes "replay_handler env (calls @ later) r = Inr report"
    and "place \<in> set (added (replay_run env calls))" and "snd place \<notin> set (allow_new env)"
  shows "names_unused (names env (replay_run env calls)) = []"
proof -
  have "problem (replay_run env (calls @ later)) = None"
    using assms(1) by (auto simp: replay_handler_def throw_problem_run Let_def split: option.splits)
  then have "problem (replay_run env calls) = None"
    using problem_stays.keeps_run [of "replay_run env calls" _ env later]
    by (cases "problem (replay_run env calls)") (auto simp: replay_run_append)
  moreover have "place \<in> set (seen (replay_run env calls))"
    using assms(2) run_recorded [of env calls] by (simp add: names_recorded_def)
  ultimately show ?thesis
    using run_in_order [of env calls] assms(2,3)
    by (fastforce simp: new_after_stored_def names_def filter_empty_conv)
qed

definition sample_request :: "nat child_request" where
  "sample_request = \<lparr>request_name = js ''c'', request_type = js ''mail'', request_payload = JNull,
     request_options = None\<rparr>"

definition sample_context :: "nat json" where
  "sample_context = JObj [(js ''b'', JNull), (js ''a'', JNum 2)]"

lemmas replay_eval =
  replay_run_def names_def get_checkpoint_def read_stored_def timer_def ask_def act_then_def act_bind_def
  stop_replay_run throw_problem_run new_replay_def suspend_replay_def Let_def child_set_def
  compare_child_set_def missing_child_def check_child_request_def ask_child_def join_outcomes_def
  child_succeeded_def child_result_def sample_request_def wait_for_human_def compare_human_context_def
  checkpoint_call_def checkpoint_execution_def input_digest_def check_input_def fail_replay_def
  stored_names_def replay_handler_def

lemma sample_contexts_same: "same_json_text replay_decimal
    (JObj [(js ''a'', JNum 2), (js ''b'', JNull)]) sample_context"
proof -
  have "sort_keys sample_context = JObj [(js ''a'', JNum 2), (js ''b'', JNull)]"
    "sort_keys (JObj [(js ''a'', JNum (2::nat)), (js ''b'', JNull)]) = JObj [(js ''a'', JNum 2), (js ''b'', JNull)]"
    by (simp_all add: sample_context_def js_def)
  then show ?thesis
    unfolding same_json_text_def
    by (simp add: to_json_stringify [OF replay_decimal_laws] finite_numbers_def sample_context_def
        del: sort_keys.simps)
qed

abbreviation sample_calls :: "nat replay_call list" where
  "sample_calls \<equiv> [Get_Checkpoint (js ''charge''), Wait_For_Human (js ''ok'') sample_context,
     Run_Children_All [sample_request], Checkpoint_Call 1 (js ''z'') None]"

theorem replay_report_in_order_witness:
  "names_unused (names sample_env (replay_run sample_env sample_calls)) = []"
proof (rule replay_report_in_order)
  show "replay_handler sample_env (sample_calls @ []) (Inr JNull) =
      Inr (names sample_env (replay_run sample_env sample_calls), Completed JNull)"
    by (simp add: replay_eval sample_state_def sample_contexts_same)
  show "(Checkpoint_Kind, js ''z'') \<in> set (added (replay_run sample_env sample_calls))"
    by (simp add: replay_eval sample_state_def sample_contexts_same)
qed simp

text \<open>
  A problem is final: once the replay has found one, the replay ends with that problem, whatever
  the handler does after it, catches, returns or throws.
\<close>

lemma replay_problem_final:
  assumes "problem (replay_run env calls) = Some p"
  shows "replay_handler env (calls @ later) r =
    Inl (Handler_Replay_Error p (names env (replay_run env (calls @ later))))"
  using problem_stays.keeps_run [OF assms, of env later]
  by (simp add: replay_handler_def throw_problem_run Let_def replay_run_append)

text \<open>
  C17. A replayed human decision is the stored result of that decision, and it is only returned for a
  context that is the stored context as JSON, up to the order of members.
\<close>

theorem replayed_human_decision:
  assumes "replay_number_laws (numbers_of env)"
    and "\<And>h. h \<in> snd ` set (human_waits (stored_state env)) \<Longrightarrow> finite_numbers (numbers_of env) (human_context h)"
    and "finite_numbers (numbers_of env) context"
    and "wait_for_human env name context s = (Inr value, s')"
  shows "\<exists>h. map_of (human_waits (stored_state env)) name = Some h \<and> human_result h = Some value \<and>
    same_json (map_json (number_text (numbers_of env)) (human_context h))
      (map_json (number_text (numbers_of env)) context)"
proof -
  obtain h where h: "map_of (human_waits (stored_state env)) name = Some h"
    "human_result h = Some value" "same_json_text (numbers_of env) (human_context h) context"
    using assms(4)
    by (auto simp: wait_for_human_def act_then_eq_Inr act_bind_eq_Inr split: option.splits if_splits)
  then have "finite_numbers (numbers_of env) (human_context h)"
    using assms(2) [of h] by (force dest: map_of_SomeD)
  then show ?thesis
    using h same_json_text_sound [OF assms(1) _ assms(3)] by blast
qed

theorem replayed_human_decision_witness:
  "\<exists>h. map_of (human_waits (stored_state sample_env)) (js ''ok'') = Some h \<and>
     human_result h = Some (JBool True) \<and>
     same_json (map_json decimal_text (human_context h)) (map_json decimal_text sample_context)"
proof -
  have "wait_for_human sample_env (js ''ok'') sample_context new_replay =
      (Inr (JBool True), snd (wait_for_human sample_env (js ''ok'') sample_context new_replay))"
    by (simp add: replay_eval sample_state_def sample_contexts_same)
  from replayed_human_decision [OF _ _ _ this] show ?thesis
    by (simp add: replay_decimal_laws finite_numbers_def list_all_iff)
qed

text \<open>
  A replayed checkpoint returns its stored value, and does not look at the order of the members of
  its input: where the stored fingerprint is that of an input, a call with the same input up to the
  order of members is answered with the stored value.
\<close>

lemma replayed_checkpoint_answers:
  assumes "number_laws (number_ops.truncate (numbers_of env))" and "unique_keys v" and "same_json v w"
    and "problem s = None" "suspended_at s = None" "in_flight s name = None"
    and "map_of (checkpoints (stored_state env)) name = Some c"
    and "input_fingerprint c = Some h"
    and "checkpoint_input_fingerprint (digest env) (number_ops.truncate (numbers_of env)) v = Inr h"
  shows "fst (checkpoint_call env call name (Some w) s) = Inr (Answered (checkpoint_value c))"
proof -
  have "checkpoint_input_fingerprint (digest env) (number_ops.truncate (numbers_of env)) w = Inr h"
    using assms(9) canonical_json_same [OF assms(1-3)]
    by (auto simp: checkpoint_input_fingerprint_def)
  then have "input_digest env (Some w) = Inr (Some h)" by (simp add: input_digest_def)
  from checkpoint_call_stored [OF assms(4-7) this] show ?thesis
    by (simp add: assms(8))
qed

lemma replay_decimal_truncate: "number_ops.truncate replay_decimal = decimal_ops"
  by (simp add: replay_decimal_def number_ops.extend_def number_ops.truncate_def decimal_ops_def)

definition matches_stored ::
  "'n replay_env \<Rightarrow> join_mode option \<Rightarrow> 'n child_request \<Rightarrow> 'n stored_child \<Rightarrow> bool" where
  "matches_stored env join r c \<longleftrightarrow>
     stored_set c = join \<and>
     child_request_json (numbers_of env) (request_type r) (request_payload r) (request_options r) =
     child_request_json (numbers_of env) (child_type c) (child_payload c) (child_options c)"

lemma check_child_request_Inr:
  "check_child_request env r join s = (Inr u, s') \<Longrightarrow> map_of (children (stored_state env)) (request_name r) = Some c
   \<Longrightarrow> matches_stored env join r c"
  by (auto simp: check_child_request_def matches_stored_def act_then_eq_Inr split: if_splits)

lemma check_children_Inr:
  "act_each (\<lambda>r. check_child_request env r join) rs s = (Inr u, s') \<Longrightarrow> r \<in> set rs
   \<Longrightarrow> map_of (children (stored_state env)) (request_name r) = Some c \<Longrightarrow> matches_stored env join r c"
  by (induction rs arbitrary: s) (auto simp: act_then_eq_Inr dest: check_child_request_Inr)

definition outcome_of :: "'n replay_env \<Rightarrow> 'n child_request \<Rightarrow> 'n child_outcome option" where
  "outcome_of env r = Option.bind (map_of (children (stored_state env)) (request_name r)) stored_outcome"

lemma ask_child_Inr:
  assumes "ask_child env r s = (Inr out, s')"
  shows "out = (request_name r, outcome_of env r)"
proof -
  obtain b where b: "b = is_stored (stored_state env) Child_Kind (request_name r)"
    and out: "out = (request_name r,
      case (if b then map_of (children (stored_state env)) (request_name r) else None) of
        None \<Rightarrow> None | Some c \<Rightarrow> stored_outcome c)"
    using assms by (auto simp: ask_child_def act_bind_eq_Inr dest: ask_result)
  have "b \<longleftrightarrow> map_of (children (stored_state env)) (request_name r) \<noteq> None"
    by (simp add: b map_of_eq_None_iff)
  then show ?thesis
    unfolding out by (auto simp: outcome_of_def split: option.splits)
qed

lemma ask_children_Inr:
  "act_map (ask_child env) rs s = (Inr outs, s') \<Longrightarrow> outs = map (\<lambda>r. (request_name r, outcome_of env r)) rs"
  by (induction rs arbitrary: s outs) (fastforce simp: act_bind_eq_Inr dest: ask_child_Inr)+

lemma missing_child_None:
  assumes "missing_child env requested = None" "children (stored_state env) \<noteq> []"
  shows "set requested = fst ` set (children (stored_state env))"
  using assms by (auto simp: missing_child_def Let_def find_None_iff split: option.splits if_splits)

lemma join_outcomes_Inr:
  assumes "join_outcomes mode outs s = (Inr j, s')" "p \<in> set outs"
  shows "snd p \<noteq> None"
proof -
  have "find (\<lambda>p. snd p = None) outs = None"
    using assms(1) by (auto simp: join_outcomes_def split: option.splits)
  then show ?thesis using assms(2) by (cases p; cases "snd p") (auto simp: find_None_iff)
qed

text \<open>
  C19. A joined child set is the stored one: it is only returned when the request names exactly the
  stored children, each stored child was created by the same join with the same request as JSON text,
  and every one of them is terminal.
\<close>

theorem joined_child_set_is_stored:
  assumes "child_set env rs mode s = (Inr j, s')"
  shows "set (map request_name rs) = set (map fst (children (stored_state env))) \<and>
    (\<forall>r \<in> set rs. \<exists>c out. map_of (children (stored_state env)) (request_name r) = Some c \<and>
       matches_stored env (Some mode) r c \<and> stored_outcome c = Some out)"
proof -
  obtain outs s1 s2 s3 where run:
      "missing_child env (map request_name rs) = None"
      "act_each (\<lambda>r. check_child_request env r (Some mode)) rs s1 = (Inr (), s2)"
      "act_map (ask_child env) rs s2 = (Inr outs, s3)" "join_outcomes mode outs s3 = (Inr j, s')"
    using assms
    by (auto simp: child_set_def act_then_eq_Inr act_bind_eq_Inr split: option.splits if_splits)
  have stored: "\<exists>c out. map_of (children (stored_state env)) (request_name r) = Some c \<and>
       stored_outcome c = Some out" if "r \<in> set rs" for r
    using join_outcomes_Inr [OF run(4), of "(request_name r, outcome_of env r)"]
      ask_children_Inr [OF run(3)] that
    by (auto simp: outcome_of_def bind_eq_Some_conv)
  have "set (map request_name rs) = set (map fst (children (stored_state env)))"
  proof (cases "children (stored_state env) = []")
    case True
    then show ?thesis using stored by (cases rs) auto
  next
    case False
    then show ?thesis using missing_child_None [OF run(1)] by simp
  qed
  then show ?thesis using stored check_children_Inr [OF run(2)] by blast
qed

theorem joined_child_set_is_stored_witness:
  "child_set sample_env [sample_request] All_Success new_replay =
     (Inr (Joined_Results [(js ''c'', JNum 3)]),
      snd (child_set sample_env [sample_request] All_Success new_replay)) \<and>
   set (map request_name [sample_request]) = set (map fst (children (stored_state sample_env)))"
proof -
  have run: "child_set sample_env [sample_request] All_Success new_replay =
      (Inr (Joined_Results [(js ''c'', JNum 3)]),
       snd (child_set sample_env [sample_request] All_Success new_replay))"
    by (simp add: replay_eval sample_state_def)
  then show ?thesis using joined_child_set_is_stored [OF run] by blast
qed

end
