(* ===== verification/Database_Errors.thy ===== *)
theory Database_Errors
  imports Js_Strings
begin

text \<open>
  How the runtime reads errors it did not throw: the walkers of \<^verbatim>\<open>errors.ts\<close> over the wrappers of an
  error, the search for a replay conflict in a cause chain (\<^verbatim>\<open>queue/replay-conflicts.ts\<close>), and the
  fenced write that is sent again after a deadlock (\<^verbatim>\<open>queue/fenced-write.ts\<close>).

  Objects live in a heap, a function from addresses to objects, so a chain of wrappers can be a cycle.
  An object is the class that \<^verbatim>\<open>instanceof\<close> sees and a map from property names to values, with inherited
  properties included. The generator \<^verbatim>\<open>wrappedErrors\<close> is the list of what it yields.
\<close>

section \<open>Objects\<close>

datatype js_value = Undefined_Value | Null_Value | Text_Value js_string | Other_Value | Object_Value nat

datatype js_class = Conflict_Class | Error_Class | Plain_Class

record js_object =
  js_class :: js_class
  js_fields :: "string \<rightharpoonup> js_value"

type_synonym js_heap = "nat \<Rightarrow> js_object"

definition property :: "js_object \<Rightarrow> string \<Rightarrow> js_value" where
  "property obj key = (case js_fields obj key of None \<Rightarrow> Undefined_Value | Some v \<Rightarrow> v)"

definition MAX_ERROR_WRAPPERS :: nat where
  "MAX_ERROR_WRAPPERS = 16"

definition WRAPPER_KEYS :: "string list" where
  "WRAPPER_KEYS = [''cause'', ''driverError'', ''meta'', ''driverAdapterError'']"

section \<open>Walking the wrappers\<close>

text \<open>The inner loop: what one object adds to the queue.\<close>

definition wrapper_values :: "js_object \<Rightarrow> js_value list" where
  "wrapper_values obj = List.map_filter (js_fields obj) WRAPPER_KEYS"

function wrapped_loop :: "js_heap \<Rightarrow> js_value list \<Rightarrow> nat list \<Rightarrow> nat \<Rightarrow> nat list" where
  "wrapped_loop heap pending seen visited =
     (if pending = [] \<or> MAX_ERROR_WRAPPERS \<le> visited then []
      else
        (case hd pending of
           Object_Value current \<Rightarrow>
             if current \<in> set seen then wrapped_loop heap (tl pending) seen visited
             else current # wrapped_loop heap (tl pending @ wrapper_values (heap current))
                    (current # seen) (visited + 1)
         | _ \<Rightarrow> wrapped_loop heap (tl pending) seen visited))"
  by pat_completeness auto
termination
  by (relation "measures [\<lambda>(_, _, _, visited). MAX_ERROR_WRAPPERS - visited,
      \<lambda>(_, pending, _, _). length pending]") auto

declare wrapped_loop.simps [simp del]

definition wrapped_errors :: "js_heap \<Rightarrow> js_value \<Rightarrow> nat list" where
  "wrapped_errors heap error = wrapped_loop heap [error] [] 0"

section \<open>SQLSTATE and DETAIL\<close>

text \<open>\<^verbatim>\<open>SQLSTATE_PATTERN\<close>, and the pattern of the codes of Prisma.\<close>

definition sqlstate :: "js_string \<Rightarrow> bool" where
  "sqlstate code \<longleftrightarrow> length code = 5 \<and> list_all (\<lambda>c. js_digit c \<or> 65 \<le> c \<and> c \<le> 90) code"

definition prisma_code :: "js_string \<Rightarrow> bool" where
  "prisma_code code \<longleftrightarrow> length code = 5 \<and> hd code = 80 \<and> list_all js_digit (tl code)"

definition wrapper_code :: "js_object \<Rightarrow> js_value" where
  "wrapper_code obj =
     (if js_fields obj ''code'' \<noteq> None then property obj ''code'' else property obj ''originalCode'')"

fun code_loop :: "js_object list \<Rightarrow> js_string option \<Rightarrow> js_string option" where
  "code_loop [] found = found"
| "code_loop (obj # objs) found =
     (case wrapper_code obj of
        Text_Value code \<Rightarrow>
          if \<not> sqlstate code then code_loop objs found
          else if prisma_code code \<and> property obj ''meta'' \<noteq> Undefined_Value
          then code_loop objs (if found = None then Some code else found)
          else Some code
      | _ \<Rightarrow> code_loop objs found)"

definition database_error_code :: "js_heap \<Rightarrow> js_value \<Rightarrow> js_string option" where
  "database_error_code heap error = code_loop (map heap (wrapped_errors heap error)) None"

definition database_error_details :: "js_heap \<Rightarrow> js_value \<Rightarrow> js_string list" where
  "database_error_details heap error =
     List.map_filter (\<lambda>a. case property (heap a) ''detail'' of Text_Value d \<Rightarrow> Some d | _ \<Rightarrow> None)
       (wrapped_errors heap error)"

definition is_missing_relation_error :: "js_heap \<Rightarrow> js_value \<Rightarrow> bool" where
  "is_missing_relation_error heap error =
     (let code = database_error_code heap error in
      code = Some (js ''3F000'') \<or> code = Some (js ''42P01''))"

definition is_missing_function_error :: "js_heap \<Rightarrow> js_value \<Rightarrow> bool" where
  "is_missing_function_error heap error = (database_error_code heap error = Some (js ''42883''))"

section \<open>Replay conflicts\<close>

definition MAX_CAUSE_DEPTH :: nat where
  "MAX_CAUSE_DEPTH = 16"

fun conflict_loop :: "js_heap \<Rightarrow> nat \<Rightarrow> js_value \<Rightarrow> nat option" where
  "conflict_loop heap 0 current = None"
| "conflict_loop heap (Suc left) current =
     (case current of
        Object_Value a \<Rightarrow>
          (case js_class (heap a) of
             Conflict_Class \<Rightarrow> Some a
           | Error_Class \<Rightarrow> conflict_loop heap left (property (heap a) ''cause'')
           | Plain_Class \<Rightarrow> None)
      | _ \<Rightarrow> None)"

definition durable_replay_conflict :: "js_heap \<Rightarrow> js_value \<Rightarrow> nat option" where
  "durable_replay_conflict heap error = conflict_loop heap MAX_CAUSE_DEPTH error"

section \<open>Fenced writes\<close>

definition FENCED_WRITE_DEADLOCK_ATTEMPTS :: nat where
  "FENCED_WRITE_DEADLOCK_ATTEMPTS = 3"

text \<open>
  The database is a parameter: \<open>query\<close> sends the statement once, with the state of everything it
  can change.
\<close>

function fenced_loop ::
  "js_heap \<Rightarrow> ('db, js_value, 'r) action \<Rightarrow> nat \<Rightarrow> js_value option \<Rightarrow> ('db, js_value, 'r) action" where
  "fenced_loop heap query attempt deadlock db =
     (case query db of
        (Inr rows, db') \<Rightarrow> (Inr rows, db')
      | (Inl error, db') \<Rightarrow>
          let code = database_error_code heap error in
          if deadlock \<noteq> None \<and> code = Some (js ''25P02'') then (Inl (the deadlock), db')
          else if code \<noteq> Some (js ''40P01'') \<or> FENCED_WRITE_DEADLOCK_ATTEMPTS \<le> attempt
          then (Inl error, db')
          else fenced_loop heap query (attempt + 1) (Some error) db')"
  by pat_completeness auto
termination
  by (relation "measure (\<lambda>(_, _, attempt, _, _). FENCED_WRITE_DEADLOCK_ATTEMPTS - attempt)") auto

declare fenced_loop.simps [simp del]

definition query_fenced_write :: "js_heap \<Rightarrow> ('db, js_value, 'r) action \<Rightarrow> ('db, js_value, 'r) action" where
  "query_fenced_write heap query db = fenced_loop heap query 1 None db"

end
