(* ===== verification/Heartbeat_Connection.thy ===== *)
theory Heartbeat_Connection
  imports Task_Attempt Database_Errors
begin

text \<open>
  The model of the class \<^verbatim>\<open>ReservedConnection\<close> of \<^verbatim>\<open>heartbeat-connection.ts\<close>: one pooled connection that
  every worker of a process shares for its heartbeats.

  Rounds, transactions and connects are objects with an identity, kept in maps. A promise the code
  waits for is a field of its object: the answer of a round, the state of a connect, and for a
  transaction the statement it has sent and waits for. An event is one callback of the event loop:
  a round that starts, a timer, a connect that settles, a transaction that resumes after its wait
  for the client, a statement that returns, and the calls of the holders. A callback can read the
  clock more than once, so an event carries the readings in their order.
\<close>

section \<open>Data\<close>

record pool_batch =
  batch_worker :: string
  batch_leases :: "string list"

record pool_row =
  row_batch :: nat
  row_task :: string
  row_status :: heartbeat_status

text \<open>\<open>Database_Error\<close> carries what \<^verbatim>\<open>databaseErrorCode\<close> reads from the error.\<close>

datatype round_error =
    Heartbeat_Did_Not_Finish real
  | Round_Expired
  | Round_Expired_Cleanly
  | Connection_Is_Closed
  | Database_Error "string option"
  | Build_Failed string

fun database_code :: "round_error \<Rightarrow> string option" where
  "database_code (Database_Error code) = code"
| "database_code _ = None"

record request =
  batches :: "pool_batch list"
  deadline :: real
  timeout_ms :: real
  answer :: "(round_error, pool_row list) result option"

abbreviation settled :: "request \<Rightarrow> bool" where
  "settled r \<equiv> answer r \<noteq> None"

datatype pending_client = Connect nat | Refused

text \<open>
  A statement that was sent: the settings keep when they were computed and for how long, \<^verbatim>\<open>COMMIT\<close> the
  rows that will be returned, \<^verbatim>\<open>ROLLBACK\<close> the error that will be thrown.
\<close>

datatype statement =
    Begin
  | Settings real real
  | Heartbeat_Statement
  | Commit "pool_row list"
  | Rollback round_error

record transaction =
  leader :: nat
  members :: "nat list"
  pending :: pending_client
  lent :: bool
  ended :: bool
  attempt_number :: nat
  heartbeat_sent :: bool
  in_flight :: "statement option"

datatype connect_state = Connecting | Arrived | Failed

record reserved =
  client :: "nat option"
  connected :: "nat option"
  lost :: bool
  ready_listeners :: "nat list"
  ready_waits :: "nat list"
  ready_answers :: "nat \<rightharpoonup> bool"
  notified :: "nat list"
  retry_timer :: "real option"
  retry_attempt :: nat
  waiting :: "nat list"
  current :: "nat option"
  closed :: bool
  requests :: "nat \<rightharpoonup> request"
  transactions :: "nat \<rightharpoonup> transaction"
  connects :: "nat \<rightharpoonup> connect_state"
  next_transaction :: nat
  next_connect :: nat
  released :: "(nat \<times> bool) list"
  sent :: "(nat \<times> statement \<times> real) list"
  parked_closes :: "nat list"
  drained_calls :: nat

definition REPLACEMENT_RETRY_BASE_MS :: real where
  "REPLACEMENT_RETRY_BASE_MS = 100"

definition MINIMUM_REMAINING_MS :: real where
  "MINIMUM_REMAINING_MS = 8"

definition new_reserved :: reserved where
  "new_reserved = \<lparr>client = None, connected = None, lost = True, ready_listeners = [],
     ready_waits = [], ready_answers = Map.empty, notified = [], retry_timer = None, retry_attempt = 0,
     waiting = [], current = None, closed = False, requests = Map.empty, transactions = Map.empty,
     connects = Map.empty, next_transaction = 0, next_connect = 0, released = [], sent = [],
     parked_closes = [], drained_calls = 0\<rparr>"

section \<open>The connection\<close>

definition usable :: "reserved \<Rightarrow> bool" where
  "usable s \<longleftrightarrow> \<not> closed s \<and> client s \<noteq> None \<and> (connected s \<noteq> None \<or> \<not> lost s)"

definition acquire :: "reserved \<Rightarrow> pending_client \<times> reserved" where
  "acquire s =
     (if closed s then (Refused, s)
      else (case client s of
              Some c \<Rightarrow> (Connect c, s)
            | None \<Rightarrow>
                let c = next_connect s in
                (Connect c, s\<lparr>client := Some c, next_connect := Suc c, retry_timer := None,
                   connects := (connects s)(c \<mapsto> Connecting)\<rparr>)))"

definition reserve :: "reserved \<Rightarrow> reserved" where
  "reserve s = (if closed s then s else snd (acquire s))"

text \<open>Settle the ready waits, as \<^verbatim>\<open>finish\<close> does: a wait is answered once and then no longer listens.\<close>

definition finish_wait :: "bool \<Rightarrow> nat \<Rightarrow> reserved \<Rightarrow> reserved" where
  "finish_wait b w s =
     (if w \<in> set (ready_waits s)
      then s\<lparr>ready_waits := filter (\<lambda>x. x \<noteq> w) (ready_waits s),
             ready_answers := (ready_answers s)(w \<mapsto> b)\<rparr>
      else s)"

definition became_ready :: "reserved \<Rightarrow> reserved" where
  "became_ready s =
     (let s1 = s\<lparr>lost := False\<rparr> in
      if lost s
      then fold (\<lambda>w s. if usable s then finish_wait True w s else s) (ready_waits s)
             (s1\<lparr>notified := notified s @ ready_listeners s\<rparr>)
      else s1)"

definition release_client :: "nat \<Rightarrow> bool \<Rightarrow> reserved \<Rightarrow> reserved" where
  "release_client c destroy s = s\<lparr>released := released s @ [(c, destroy)]\<rparr>"

text \<open>
  \<^verbatim>\<open>scheduleRetry\<close>: \<open>cap\<close> is what \<^verbatim>\<open>retryCapMs\<close> returns, absent without readiness keeping.
\<close>

definition schedule_retry :: "real option \<Rightarrow> reserved \<Rightarrow> reserved" where
  "schedule_retry cap s =
     (case cap of
        None \<Rightarrow> s
      | Some cap_ms \<Rightarrow>
          if closed s \<or> retry_timer s \<noteq> None then s
          else s\<lparr>retry_timer := Some (min cap_ms (REPLACEMENT_RETRY_BASE_MS * 2 ^ retry_attempt s)),
                 retry_attempt := min (retry_attempt s + 1) 30\<rparr>)"

definition retry_timer_fires :: "reserved \<Rightarrow> reserved" where
  "retry_timer_fires s =
     (if retry_timer s = None then s
      else (let s1 = s\<lparr>retry_timer := None\<rparr> in if client s1 = None then reserve s1 else s1))"

text \<open>
  \<^verbatim>\<open>discard\<close>: release with an error destroys the client, at once or when its connect lands.
\<close>

definition discard :: "real option \<Rightarrow> nat \<Rightarrow> bool \<Rightarrow> reserved \<Rightarrow> reserved" where
  "discard cap c is_lost s =
     (if client s \<noteq> Some c then s
      else
        let s1 = release_client c True (s\<lparr>client := None, connected := None\<rparr>) in
        if \<not> is_lost then s1
        else (let s2 = s1\<lparr>lost := True\<rparr> in if cap \<noteq> None then reserve s2 else s2))"

definition adopt :: "nat \<Rightarrow> reserved \<Rightarrow> reserved" where
  "adopt c s =
     (let s1 = s\<lparr>connects := (connects s)(c \<mapsto> Arrived)\<rparr> in
      if client s1 \<noteq> Some c then s1
      else
        let s2 = s1\<lparr>connected := Some c, retry_attempt := 0\<rparr> in
        if closed s2 then s2 else became_ready s2)"

definition connect_failed :: "real option \<Rightarrow> nat \<Rightarrow> reserved \<Rightarrow> reserved" where
  "connect_failed cap c s =
     (let s1 = s\<lparr>connects := (connects s)(c \<mapsto> Failed)\<rparr> in
      if client s1 \<noteq> Some c then s1
      else schedule_retry cap (s1\<lparr>client := None, connected := None, lost := True\<rparr>))"

text \<open>What a \<^verbatim>\<open>close\<close> that parked the connect does when the connect settles.\<close>

definition parked_close_settles :: "nat \<Rightarrow> bool \<Rightarrow> reserved \<Rightarrow> reserved" where
  "parked_close_settles c arrived s =
     (if arrived then
        (if \<not> closed s \<or> client s \<noteq> Some c then s
         else (let s1 = release_client c False (s\<lparr>client := None, connected := None, lost := True\<rparr>) in
               s1\<lparr>drained_calls := Suc (drained_calls s1)\<rparr>))
      else if closed s then s\<lparr>drained_calls := Suc (drained_calls s)\<rparr> else s)"

definition connect_settles :: "real option \<Rightarrow> nat \<Rightarrow> bool \<Rightarrow> reserved \<Rightarrow> reserved" where
  "connect_settles cap c arrived s =
     (if connects s c \<noteq> Some Connecting then s
      else
        let s1 = (if arrived then adopt c s else connect_failed cap c s) in
        fold (\<lambda>c s. parked_close_settles c arrived s) (filter (\<lambda>p. p = c) (parked_closes s1))
          (s1\<lparr>parked_closes := filter (\<lambda>p. p \<noteq> c) (parked_closes s1)\<rparr>))"

section \<open>Rounds and transactions\<close>

text \<open>The answer of a round: the first settles its promise and clears its timer.\<close>

definition settle :: "(round_error, pool_row list) result \<Rightarrow> nat \<Rightarrow> reserved \<Rightarrow> reserved" where
  "settle res i s =
     (case requests s i of
        None \<Rightarrow> s
      | Some r \<Rightarrow>
          if settled r then s
          else s\<lparr>requests := (requests s)(i \<mapsto> r\<lparr>answer := Some res\<rparr>)\<rparr>)"

definition is_settled :: "reserved \<Rightarrow> nat \<Rightarrow> bool" where
  "is_settled s i = (case requests s i of None \<Rightarrow> True | Some r \<Rightarrow> settled r)"

definition deadline_of :: "reserved \<Rightarrow> nat \<Rightarrow> real" where
  "deadline_of s i = (case requests s i of None \<Rightarrow> 0 | Some r \<Rightarrow> deadline r)"

definition batches_of :: "reserved \<Rightarrow> nat \<Rightarrow> pool_batch list" where
  "batches_of s i = (case requests s i of None \<Rightarrow> [] | Some r \<Rightarrow> batches r)"

text \<open>The loop of \<^verbatim>\<open>startNext\<close> runs from the last waiting round to the first.\<close>

fun pick_leader :: "reserved \<Rightarrow> nat list \<Rightarrow> nat option" where
  "pick_leader s [] = None"
| "pick_leader s (i # is) =
     (let best = pick_leader s is in
      if is_settled s i then best
      else (case best of
              None \<Rightarrow> Some i
            | Some j \<Rightarrow> if deadline_of s i \<le> deadline_of s j then Some i else Some j))"

definition start_next :: "reserved \<Rightarrow> reserved" where
  "start_next s =
     (if current s \<noteq> None then s
      else
        let open_rounds = filter (\<lambda>i. \<not> is_settled s i) (waiting s) in
        (case pick_leader s (waiting s) of
           None \<Rightarrow> s\<lparr>waiting := open_rounds\<rparr>
         | Some l \<Rightarrow>
             let t = next_transaction s;
                 (p, s1) = acquire (s\<lparr>waiting := remove1 l open_rounds, current := Some t,
                   next_transaction := Suc t\<rparr>) in
             s1\<lparr>transactions := (transactions s1)(t \<mapsto>
               \<lparr>leader = l, members = [l], pending = p, lent = False, ended = False,
                attempt_number = 0, heartbeat_sent = False, in_flight = None\<rparr>)\<rparr>))"

text \<open>The rows of one member: those of its own batches, numbered from one within them.\<close>

definition member_rows :: "nat \<Rightarrow> nat \<Rightarrow> pool_row list \<Rightarrow> pool_row list" where
  "member_rows lo hi rows =
     map (\<lambda>row. row\<lparr>row_batch := row_batch row - lo\<rparr>)
       (filter (\<lambda>row. lo < row_batch row \<and> row_batch row \<le> hi) rows)"

fun resolve_members :: "pool_row list \<Rightarrow> nat \<Rightarrow> nat list \<Rightarrow> reserved \<Rightarrow> reserved" where
  "resolve_members rows offset [] s = s"
| "resolve_members rows offset (i # is) s =
     (let hi = offset + length (batches_of s i) in
      resolve_members rows hi is (settle (Inr (member_rows offset hi rows)) i s))"

definition end_transaction ::
  "real option \<Rightarrow> nat \<Rightarrow> (round_error, pool_row list) result \<Rightarrow> reserved \<Rightarrow> reserved" where
  "end_transaction cap t outcome s =
     (case transactions s t of
        None \<Rightarrow> s
      | Some txn \<Rightarrow>
          if ended txn then s
          else
            let s1 = s\<lparr>transactions := (transactions s)(t \<mapsto> txn\<lparr>ended := True\<rparr>),
                       current := (if current s = Some t then None else current s)\<rparr> in
            start_next
              (case outcome of
                 Inr rows \<Rightarrow> resolve_members rows 0 (members txn) s1
               | Inl e \<Rightarrow>
                   let s2 = (case pending txn of
                               Connect c \<Rightarrow>
                                 if lent txn \<and> e \<noteq> Round_Expired_Cleanly then discard cap c False s1
                                 else s1
                             | Refused \<Rightarrow> s1) in
                   reserve (fold (settle (Inl e)) (members txn) s2)))"

definition request_starts ::
  "nat \<Rightarrow> real \<Rightarrow> real \<Rightarrow> (string, pool_batch list) result \<Rightarrow> reserved \<Rightarrow> reserved" where
  "request_starts i now timeout built s =
     (if requests s i \<noteq> None then s
      else if closed s then
        s\<lparr>requests := (requests s)(i \<mapsto> \<lparr>batches = [], deadline = now + timeout, timeout_ms = timeout,
            answer = Some (Inl Connection_Is_Closed)\<rparr>)\<rparr>
      else
        (case built of
           Inl e \<Rightarrow>
             s\<lparr>requests := (requests s)(i \<mapsto> \<lparr>batches = [], deadline = now + timeout,
                 timeout_ms = timeout, answer = Some (Inl (Build_Failed e))\<rparr>)\<rparr>
         | Inr bs \<Rightarrow>
             start_next (s\<lparr>requests := (requests s)(i \<mapsto> \<lparr>batches = bs, deadline = now + timeout,
                 timeout_ms = timeout, answer = None\<rparr>), waiting := waiting s @ [i]\<rparr>)))"

definition timed_out :: "real option \<Rightarrow> nat \<Rightarrow> reserved \<Rightarrow> reserved" where
  "timed_out cap i s =
     (case requests s i of
        None \<Rightarrow> s
      | Some r \<Rightarrow>
          if settled r then s
          else
            (case (case current s of
                     None \<Rightarrow> None
                   | Some t \<Rightarrow> (case transactions s t of
                                None \<Rightarrow> None
                              | Some txn \<Rightarrow> if leader txn = i then Some t else None)) of
               Some t \<Rightarrow> end_transaction cap t (Inl (Heartbeat_Did_Not_Finish (timeout_ms r))) s
             | None \<Rightarrow>
                 settle (Inl (Heartbeat_Did_Not_Finish (timeout_ms r))) i
                   (s\<lparr>waiting := remove1 i (waiting s)\<rparr>)))"

text \<open>The loop of \<^verbatim>\<open>join\<close>: the rounds it takes, and the rounds that stay.\<close>

definition joins :: "transaction \<Rightarrow> reserved \<Rightarrow> nat \<Rightarrow> bool" where
  "joins txn s i \<longleftrightarrow> \<not> is_settled s i \<and> deadline_of s (leader txn) \<le> deadline_of s i"

definition with_joined :: "transaction \<Rightarrow> reserved \<Rightarrow> transaction" where
  "with_joined txn s = txn\<lparr>members := members txn @ filter (joins txn s) (waiting s)\<rparr>"

definition join_rounds :: "nat \<Rightarrow> transaction \<Rightarrow> reserved \<Rightarrow> reserved" where
  "join_rounds t txn s =
     s\<lparr>waiting := filter (\<lambda>i. \<not> joins txn s i) (waiting s),
       transactions := (transactions s)(t \<mapsto> with_joined txn s)\<rparr>"

definition quarter_ms :: "real \<Rightarrow> int" where
  "quarter_ms remaining = max 1 \<lfloor>remaining / 4\<rfloor>"

definition round_timeouts :: "real \<Rightarrow> int \<times> int" where
  "round_timeouts remaining = (quarter_ms remaining, quarter_ms remaining)"

section \<open>The transaction\<close>

text \<open>
  \<open>late\<close> and \<open>expiry\<close> are the local functions of \<^verbatim>\<open>transactOnce\<close>. \<open>send_statement\<close> puts a
  statement in flight and logs when it was sent.
\<close>

definition late :: "transaction \<Rightarrow> reserved \<Rightarrow> real \<Rightarrow> bool" where
  "late txn s now \<longleftrightarrow> ended txn \<or> deadline_of s (leader txn) \<le> now"

definition expiry :: "transaction \<Rightarrow> round_error" where
  "expiry txn = (if heartbeat_sent txn then Round_Expired else Round_Expired_Cleanly)"

definition send_statement :: "nat \<Rightarrow> transaction \<Rightarrow> statement \<Rightarrow> real \<Rightarrow> reserved \<Rightarrow> reserved" where
  "send_statement t txn st now s =
     s\<lparr>transactions := (transactions s)(t \<mapsto> txn\<lparr>in_flight := Some st\<rparr>),
       sent := sent s @ [(t, st, now)]\<rparr>"

text \<open>The start of one attempt, up to \<^verbatim>\<open>BEGIN\<close>. Errors here are thrown without a \<^verbatim>\<open>ROLLBACK\<close>.\<close>

definition start_attempt ::
  "real option \<Rightarrow> nat \<Rightarrow> transaction \<Rightarrow> nat \<Rightarrow> bool \<Rightarrow> (nat \<Rightarrow> real) \<Rightarrow> reserved \<Rightarrow> reserved" where
  "start_attempt cap t txn n resent clk s =
     (let txn1 = txn\<lparr>attempt_number := n, heartbeat_sent := resent, in_flight := None\<rparr>;
          s1 = s\<lparr>transactions := (transactions s)(t \<mapsto> txn1)\<rparr> in
      if ended txn1 \<or> deadline_of s1 (leader txn1) - clk 0 < MINIMUM_REMAINING_MS
      then end_transaction cap t (Inl (expiry txn1)) s1
      else if late txn1 s1 (clk 1) then end_transaction cap t (Inl (expiry txn1)) s1
      else send_statement t txn1 Begin (clk 1) s1)"

text \<open>The \<^verbatim>\<open>catch\<close> of \<^verbatim>\<open>transact\<close>: a deadlock resends the whole transaction, at most twice.\<close>

definition attempt_fails ::
  "real option \<Rightarrow> nat \<Rightarrow> transaction \<Rightarrow> round_error \<Rightarrow> (nat \<Rightarrow> real) \<Rightarrow> reserved \<Rightarrow> reserved" where
  "attempt_fails cap t txn e clk s =
     (if database_code e \<noteq> Some ''40P01'' \<or> FENCED_WRITE_DEADLOCK_ATTEMPTS \<le> attempt_number txn
      then end_transaction cap t (Inl e)
             (s\<lparr>transactions := (transactions s)(t \<mapsto> txn\<lparr>in_flight := None\<rparr>)\<rparr>)
      else start_attempt cap t txn (Suc (attempt_number txn)) True clk s)"

text \<open>The \<^verbatim>\<open>catch\<close> of \<^verbatim>\<open>transactOnce\<close>: \<^verbatim>\<open>ROLLBACK\<close> while time is left.\<close>

definition roll_back ::
  "real option \<Rightarrow> nat \<Rightarrow> transaction \<Rightarrow> round_error \<Rightarrow> (nat \<Rightarrow> real) \<Rightarrow> reserved \<Rightarrow> reserved" where
  "roll_back cap t txn e clk s =
     (if late txn s (clk 0)
      then attempt_fails cap t txn (if e = Round_Expired_Cleanly then Round_Expired else e)
             (\<lambda>k. clk (k + 1)) s
      else send_statement t txn (Rollback e) (clk 0) s)"

text \<open>The heartbeat itself: the waiting rounds join, and their batches go into the statement.\<close>

definition send_heartbeat ::
  "real option \<Rightarrow> nat \<Rightarrow> transaction \<Rightarrow> (nat \<Rightarrow> real) \<Rightarrow> reserved \<Rightarrow> reserved" where
  "send_heartbeat cap t txn clk s =
     (let s1 = join_rounds t txn s; txn1 = with_joined txn s in
      if late txn1 s1 (clk 0)
      then roll_back cap t txn1 (expiry txn1) (\<lambda>k. clk (k + 1)) s1
      else send_statement t (txn1\<lparr>heartbeat_sent := True\<rparr>) Heartbeat_Statement (clk 0) s1)"

text \<open>The transaction after its wait for the client.\<close>

definition transact_resumes :: "real option \<Rightarrow> nat \<Rightarrow> (nat \<Rightarrow> real) \<Rightarrow> reserved \<Rightarrow> reserved" where
  "transact_resumes cap t clk s =
     (case transactions s t of
        None \<Rightarrow> s
      | Some txn \<Rightarrow>
          if lent txn then s
          else
            (case pending txn of
               Refused \<Rightarrow> end_transaction cap t (Inl Connection_Is_Closed) s
             | Connect c \<Rightarrow>
                 (case connects s c of
                    Some Arrived \<Rightarrow>
                      if ended txn then s
                      else
                        let txn1 = txn\<lparr>lent := True\<rparr> in
                        start_attempt cap t txn1 1 False clk
                          (s\<lparr>transactions := (transactions s)(t \<mapsto> txn1)\<rparr>)
                  | Some Failed \<Rightarrow> end_transaction cap t (Inl (Database_Error None)) s
                  | _ \<Rightarrow> s)))"

text \<open>A statement returns rows, or fails.\<close>

definition statement_returns ::
  "real option \<Rightarrow> nat \<Rightarrow> (round_error, pool_row list) result \<Rightarrow> (nat \<Rightarrow> real) \<Rightarrow> reserved \<Rightarrow> reserved" where
  "statement_returns cap t res clk s =
     (case transactions s t of
        None \<Rightarrow> s
      | Some txn0 \<Rightarrow>
          let txn = txn0\<lparr>in_flight := None\<rparr>;
              s0 = s\<lparr>transactions := (transactions s)(t \<mapsto> txn)\<rparr>;
              due = deadline_of s (leader txn) in
          (case in_flight txn0 of
             None \<Rightarrow> s
           | Some Begin \<Rightarrow>
               (case res of
                  Inl e \<Rightarrow> attempt_fails cap t txn e clk s0
                | Inr _ \<Rightarrow>
                    if due - clk 0 < MINIMUM_REMAINING_MS \<or> late txn s0 (clk 1)
                    then roll_back cap t txn (expiry txn) (\<lambda>k. clk (k + 2)) s0
                    else send_statement t txn (Settings (clk 0) (due - clk 0)) (clk 1) s0)
           | Some (Settings set_at remaining) \<Rightarrow>
               (case res of
                  Inl e \<Rightarrow> roll_back cap t txn e clk s0
                | Inr _ \<Rightarrow>
                    if remaining / 4 < clk 0 - set_at \<or> late txn s0 (clk 1)
                    then roll_back cap t txn (expiry txn) (\<lambda>k. clk (k + 2)) s0
                    else send_heartbeat cap t txn (\<lambda>k. clk (k + 2)) s0)
           | Some Heartbeat_Statement \<Rightarrow>
               (case res of
                  Inl e \<Rightarrow> roll_back cap t txn e clk s0
                | Inr rows \<Rightarrow>
                    if late txn s0 (clk 0)
                    then roll_back cap t txn (expiry txn) (\<lambda>k. clk (k + 1)) s0
                    else send_statement t txn (Commit rows) (clk 0) s0)
           | Some (Commit rows) \<Rightarrow>
               (case res of
                  Inl e \<Rightarrow> roll_back cap t txn e clk s0
                | Inr _ \<Rightarrow>
                    if late txn s0 (clk 0)
                    then roll_back cap t txn Round_Expired (\<lambda>k. clk (k + 1)) s0
                    else end_transaction cap t (Inr rows) s0)
           | Some (Rollback e) \<Rightarrow>
               (case res of
                  Inl _ \<Rightarrow>
                    attempt_fails cap t txn (if e = Round_Expired_Cleanly then Round_Expired else e) clk s0
                | Inr _ \<Rightarrow>
                    if e = Round_Expired_Cleanly \<and> late txn s0 (clk 0)
                    then attempt_fails cap t txn Round_Expired (\<lambda>k. clk (k + 1)) s0
                    else attempt_fails cap t txn e (\<lambda>k. clk (k + 1)) s0)))"

text \<open>The batches of the statement: those of the members in their order.\<close>

definition payload :: "reserved \<Rightarrow> transaction \<Rightarrow> pool_batch list" where
  "payload s txn = concat (map (batches_of s) (members txn))"

section \<open>Holders\<close>

definition close_begins :: "reserved \<Rightarrow> reserved" where
  "close_begins s =
     fold (finish_wait False) (ready_waits s)
       (s\<lparr>closed := True, retry_timer := None, ready_listeners := []\<rparr>)"

text \<open>\<^verbatim>\<open>close\<close> after every round in flight has settled, and whether it resolves with true.\<close>

definition close_continues :: "reserved \<Rightarrow> bool \<times> reserved" where
  "close_continues s =
     (if \<not> closed s then (True, s)
      else (case client s of
              None \<Rightarrow> (True, s)
            | Some c \<Rightarrow>
                if connected s \<noteq> None
                then (True, release_client c False (s\<lparr>client := None, connected := None, lost := True\<rparr>))
                else (False, s\<lparr>parked_closes := parked_closes s @ [c]\<rparr>)))"

definition reopen :: "reserved \<Rightarrow> reserved" where
  "reopen s =
     (let s1 = s\<lparr>closed := False\<rparr> in if connected s1 \<noteq> None then became_ready s1 else s1)"

definition on_ready :: "nat \<Rightarrow> reserved \<Rightarrow> reserved" where
  "on_ready l s = (if l \<in> set (ready_listeners s) then s else s\<lparr>ready_listeners := ready_listeners s @ [l]\<rparr>)"

definition off_ready :: "nat \<Rightarrow> reserved \<Rightarrow> reserved" where
  "off_ready l s = s\<lparr>ready_listeners := filter (\<lambda>x. x \<noteq> l) (ready_listeners s)\<rparr>"

definition ready_begins :: "nat \<Rightarrow> bool \<Rightarrow> reserved \<Rightarrow> reserved" where
  "ready_begins w aborted s =
     (if ready_answers s w \<noteq> None \<or> w \<in> set (ready_waits s) then s
      else if usable s then s\<lparr>ready_answers := (ready_answers s)(w \<mapsto> True)\<rparr>
      else if closed s \<or> aborted then s\<lparr>ready_answers := (ready_answers s)(w \<mapsto> False)\<rparr>
      else (let s1 = (if client s = None then reserve s else s) in
            s1\<lparr>ready_waits := ready_waits s1 @ [w]\<rparr>))"

definition client_error :: "real option \<Rightarrow> nat \<Rightarrow> reserved \<Rightarrow> reserved" where
  "client_error cap c s = (if connects s c = Some Arrived then discard cap c True s else s)"

section \<open>Runs\<close>

datatype reserved_event =
    Request_Starts nat real real "(string, pool_batch list) result"
  | Request_Timer nat
  | Connect_Settles nat bool
  | Transact_Resumes nat "nat \<Rightarrow> real"
  | Statement_Returns nat "(round_error, pool_row list) result" "nat \<Rightarrow> real"
  | Client_Error nat
  | Retry_Timer
  | Reserve
  | Close_Begins
  | Close_Continues
  | Reopen
  | On_Ready nat
  | Off_Ready nat
  | Ready_Begins nat bool
  | Ready_Timer nat
  | Ready_Aborts nat

fun reserved_step :: "real option \<Rightarrow> reserved_event \<Rightarrow> reserved \<Rightarrow> reserved" where
  "reserved_step cap (Request_Starts i now timeout built) s = request_starts i now timeout built s"
| "reserved_step cap (Request_Timer i) s = timed_out cap i s"
| "reserved_step cap (Connect_Settles c arrived) s = connect_settles cap c arrived s"
| "reserved_step cap (Transact_Resumes t clk) s = transact_resumes cap t clk s"
| "reserved_step cap (Statement_Returns t res clk) s = statement_returns cap t res clk s"
| "reserved_step cap (Client_Error c) s = client_error cap c s"
| "reserved_step cap Retry_Timer s = retry_timer_fires s"
| "reserved_step cap Reserve s = reserve s"
| "reserved_step cap Close_Begins s = close_begins s"
| "reserved_step cap Close_Continues s = snd (close_continues s)"
| "reserved_step cap Reopen s = reopen s"
| "reserved_step cap (On_Ready l) s = on_ready l s"
| "reserved_step cap (Off_Ready l) s = off_ready l s"
| "reserved_step cap (Ready_Begins w aborted) s = ready_begins w aborted s"
| "reserved_step cap (Ready_Timer w) s = finish_wait (usable s) w s"
| "reserved_step cap (Ready_Aborts w) s = finish_wait False w s"

definition reserved_run :: "real option \<Rightarrow> reserved_event list \<Rightarrow> reserved" where
  "reserved_run cap es = fold (reserved_step cap) es new_reserved"

end
