(* ===== verification/Heartbeat_Connection_Proofs.thy ===== *)
theory Heartbeat_Connection_Proofs
  imports Heartbeat_Connection
begin

text \<open>
  Invariants of the reserved connection. The methods fall in two groups: those of the connection
  leave the rounds alone, and those of the rounds change the connection only through \<open>acquire\<close>,
  \<open>reserve\<close> and \<open>discard\<close>. The locale \<open>transaction_errors\<close> collects what a property has to survive
  while no transaction succeeds, and \<open>transaction_invariant\<close> adds the success, so that each
  invariant is proved for a handful of updates.
\<close>

section \<open>The connection leaves the rounds alone\<close>

definition round_fields ::
  "reserved \<Rightarrow> nat list \<times> nat option \<times> (nat \<rightharpoonup> request) \<times> (nat \<rightharpoonup> transaction) \<times> nat \<times> (nat \<times> statement \<times> real) list" where
  "round_fields s = (waiting s, current s, requests s, transactions s, next_transaction s, sent s)"

text \<open>The client stays, goes, or is the one of a new connect.\<close>

definition client_moves :: "reserved \<Rightarrow> reserved \<Rightarrow> bool" where
  "client_moves s s' \<longleftrightarrow> next_connect s \<le> next_connect s' \<and>
     (\<forall>c. client s' = Some c \<longrightarrow> client s = Some c \<or> next_connect s \<le> c) \<and>
     (\<forall>c. client s' = Some c \<longrightarrow> c < next_connect s' \<or> client s = Some c)"

definition aside :: "reserved \<Rightarrow> reserved \<Rightarrow> bool" where
  "aside s s' \<longleftrightarrow> round_fields s' = round_fields s \<and> client_moves s s'"

named_theorems aside_rules

lemma client_moves_trans: "client_moves s s' \<Longrightarrow> client_moves s' s'' \<Longrightarrow> client_moves s s''"
  unfolding client_moves_def by (meson le_trans order_le_less_trans less_le_trans)

lemma aside_refl [simp, aside_rules]: "aside s s"
  by (simp add: aside_def client_moves_def)

lemma aside_trans: "aside s s' \<Longrightarrow> aside s' s'' \<Longrightarrow> aside s s''"
  by (auto simp: aside_def intro: client_moves_trans)

lemma aside_acquire [aside_rules]: "aside s (snd (acquire s))"
  by (simp add: aside_def acquire_def round_fields_def client_moves_def Let_def split: option.split)

lemma aside_reserve [aside_rules]: "aside s (reserve s)"
  by (simp add: reserve_def aside_acquire)

lemma aside_finish_wait [aside_rules]: "aside s (finish_wait b w s)"
  by (simp add: aside_def finish_wait_def round_fields_def client_moves_def)

lemma aside_fold: "(\<And>x s. aside s (f x s)) \<Longrightarrow> aside s (fold f xs s)"
  by (induction xs arbitrary: s) (auto intro: aside_trans)

lemma aside_fields [aside_rules]:
  "aside s (s\<lparr>lost := l\<rparr>)" "aside s (s\<lparr>notified := n\<rparr>)" "aside s (s\<lparr>retry_timer := r\<rparr>)"
  "aside s (s\<lparr>retry_attempt := a\<rparr>)" "aside s (s\<lparr>connected := d\<rparr>)" "aside s (s\<lparr>client := None\<rparr>)"
  "aside s (s\<lparr>connects := m\<rparr>)" "aside s (s\<lparr>released := e\<rparr>)" "aside s (s\<lparr>parked_closes := p\<rparr>)"
  "aside s (s\<lparr>drained_calls := k\<rparr>)" "aside s (s\<lparr>closed := b\<rparr>)" "aside s (s\<lparr>ready_listeners := q\<rparr>)"
  "aside s (s\<lparr>ready_waits := w\<rparr>)" "aside s (s\<lparr>ready_answers := z\<rparr>)"
  by (simp_all add: aside_def round_fields_def client_moves_def)

lemma aside_became_ready [aside_rules]: "aside s (became_ready s)"
  unfolding became_ready_def Let_def
  by (auto intro!: aside_trans [OF _ aside_fold] aside_rules) (simp add: aside_def round_fields_def client_moves_def)

lemma aside_release [aside_rules]: "aside s (release_client c d s)"
  by (simp add: release_client_def aside_rules)

lemma aside_schedule_retry [aside_rules]: "aside s (schedule_retry cap s)"
  by (simp add: schedule_retry_def aside_def round_fields_def client_moves_def split: option.split)

lemma aside_discard [aside_rules]: "aside s (discard cap c l s)"
proof -
  let ?s1 = "release_client c True (s\<lparr>client := None, connected := None\<rparr>)"
  have 1: "aside s ?s1"
    by (simp add: aside_def round_fields_def client_moves_def release_client_def)
  have "aside s (?s1\<lparr>lost := True\<rparr>)" "aside s (reserve (?s1\<lparr>lost := True\<rparr>))"
    by (rule aside_trans [OF 1 aside_fields(1)])
      (rule aside_trans [OF aside_trans [OF 1 aside_fields(1)] aside_reserve])
  with 1 show ?thesis by (simp add: discard_def Let_def)
qed

lemma aside_adopt [aside_rules]: "aside s (adopt c s)"
proof -
  let ?s1 = "s\<lparr>connects := (connects s)(c \<mapsto> Arrived)\<rparr>"
  let ?s2 = "?s1\<lparr>connected := Some c, retry_attempt := 0\<rparr>"
  have "aside s ?s2" by (simp add: aside_def round_fields_def client_moves_def)
  then show ?thesis
    using aside_trans [OF _ aside_became_ready] by (simp add: adopt_def Let_def aside_fields)
qed

lemma aside_connect_failed [aside_rules]: "aside s (connect_failed cap c s)"
proof -
  have "aside s (s\<lparr>connects := (connects s)(c \<mapsto> Failed), client := None, connected := None, lost := True\<rparr>)"
    by (simp add: aside_def round_fields_def client_moves_def)
  then show ?thesis
    using aside_trans [OF _ aside_schedule_retry] by (simp add: connect_failed_def Let_def aside_fields)
qed

lemma aside_parked_close [aside_rules]: "aside s (parked_close_settles c a s)"
  by (simp add: parked_close_settles_def aside_def round_fields_def client_moves_def release_client_def Let_def)

lemma aside_connect_settles [aside_rules]: "aside s (connect_settles cap c a s)"
proof -
  let ?s1 = "if a then adopt c s else connect_failed cap c s"
  have "aside s ?s1" by (simp add: aside_rules)
  then have "aside s (?s1\<lparr>parked_closes := filter (\<lambda>p. p \<noteq> c) (parked_closes ?s1)\<rparr>)"
    by (rule aside_trans) (rule aside_fields)
  then show ?thesis
    unfolding connect_settles_def Let_def
    by (auto intro: aside_trans [OF _ aside_fold] simp: aside_rules)
qed

lemma aside_retry_timer [aside_rules]: "aside s (retry_timer_fires s)"
  using aside_trans [OF aside_fields(3) aside_reserve, of s None]
  by (simp add: retry_timer_fires_def Let_def aside_fields)

lemma aside_client_error [aside_rules]: "aside s (client_error cap c s)"
  by (simp add: client_error_def aside_discard)

lemma aside_close_begins [aside_rules]: "aside s (close_begins s)"
proof -
  have "aside s (s\<lparr>closed := True, retry_timer := None, ready_listeners := []\<rparr>)"
    by (simp add: aside_def round_fields_def client_moves_def)
  then show ?thesis
    unfolding close_begins_def by (rule aside_trans) (rule aside_fold, rule aside_finish_wait)
qed

lemma aside_close_continues [aside_rules]: "aside s (snd (close_continues s))"
  by (simp add: close_continues_def aside_def round_fields_def client_moves_def release_client_def
      split: option.split)

lemma aside_reopen [aside_rules]: "aside s (reopen s)"
  using aside_trans [OF aside_fields(11) aside_became_ready, of s False]
  by (simp add: reopen_def Let_def aside_fields)

lemma aside_on_ready [aside_rules]: "aside s (on_ready l s)" "aside s (off_ready l s)"
  by (simp_all add: on_ready_def off_ready_def aside_fields)

lemma aside_ready_begins [aside_rules]: "aside s (ready_begins w a s)"
  using aside_trans [OF aside_reserve aside_fields(13)]
  by (simp add: ready_begins_def Let_def aside_fields)

fun round_event :: "reserved_event \<Rightarrow> bool" where
  "round_event (Request_Starts i now timeout built) = True"
| "round_event (Request_Timer i) = True"
| "round_event (Transact_Resumes t clk) = True"
| "round_event (Statement_Returns t res clk) = True"
| "round_event _ = False"

lemma step_aside: "\<not> round_event e \<Longrightarrow> aside s (reserved_step cap e s)"
  by (cases e) (simp_all add: aside_rules)

section \<open>What an invariant has to survive\<close>

text \<open>Two states of one transaction that differ only in its progress.\<close>

definition same_round :: "transaction \<Rightarrow> transaction \<Rightarrow> bool" where
  "same_round a b \<longleftrightarrow> leader b = leader a \<and> members b = members a \<and> ended b = ended a \<and>
     pending b = pending a \<and> (lent a \<longrightarrow> lent b)"

definition put_transaction :: "nat \<Rightarrow> transaction \<Rightarrow> reserved \<Rightarrow> reserved" where
  "put_transaction t txn s = s\<lparr>transactions := (transactions s)(t \<mapsto> txn)\<rparr>"

locale transaction_errors =
  fixes cap :: "real option" and P :: "reserved \<Rightarrow> bool"
  assumes aside_keeps: "P s \<Longrightarrow> aside s s' \<Longrightarrow> P s'"
    and lent_sends: "P s \<Longrightarrow> transactions s t = Some txn \<Longrightarrow> in_flight txn \<noteq> None \<Longrightarrow> lent txn"
    and put_keeps: "P s \<Longrightarrow> transactions s t = Some txn \<Longrightarrow> same_round txn txn' \<Longrightarrow> in_flight txn' = None
      \<Longrightarrow> P (put_transaction t txn' s)"
    and send_keeps: "P s \<Longrightarrow> transactions s t = Some txn \<Longrightarrow> lent txn \<Longrightarrow> \<not> late txn s now
      \<Longrightarrow> P (send_statement t txn st now s)"
    and join_keeps: "P s \<Longrightarrow> transactions s t = Some txn \<Longrightarrow> \<not> ended txn \<Longrightarrow> in_flight txn = None
      \<Longrightarrow> P (join_rounds t txn s)"
    and end_keeps: "P s \<Longrightarrow> transactions s t = Some txn
      \<Longrightarrow> in_flight txn = None \<or> (\<exists>ms. e = Heartbeat_Did_Not_Finish ms)
      \<Longrightarrow> P (end_transaction cap t (Inl e) s)"
    and request_keeps: "P s \<Longrightarrow> P (request_starts i now timeout built s)"
    and wait_ends_keeps: "P s \<Longrightarrow> current s = None \<or> (\<exists>t txn. current s = Some t \<and>
        (transactions s t = None \<or> transactions s t = Some txn \<and> leader txn \<noteq> i))
      \<Longrightarrow> P (settle (Inl e) i (s\<lparr>waiting := remove1 i (waiting s)\<rparr>))"
begin

lemma start_attempt_keeps:
  assumes "P s" "transactions s t = Some txn" "lent txn"
  shows "P (start_attempt cap t txn n resent clk s)"
proof -
  let ?txn = "txn\<lparr>attempt_number := n, heartbeat_sent := resent, in_flight := None\<rparr>"
  let ?s = "put_transaction t ?txn s"
  have s: "P ?s" "transactions ?s t = Some ?txn"
    using assms by (auto intro!: put_keeps simp: same_round_def) (simp add: put_transaction_def)
  have e: "P (end_transaction cap t (Inl (expiry ?txn)) ?s)"
    by (rule end_keeps [OF s]) simp
  have "\<not> late ?txn ?s (clk 1) \<Longrightarrow> P (send_statement t ?txn Begin (clk 1) ?s)"
    using assms(3) by (intro send_keeps [OF s]) simp_all
  with e show ?thesis
    by (simp add: start_attempt_def Let_def put_transaction_def)
qed

lemma attempt_fails_keeps:
  assumes "P s" "transactions s t = Some txn" "lent txn"
  shows "P (attempt_fails cap t txn e clk s)"
proof -
  let ?txn = "txn\<lparr>in_flight := None\<rparr>"
  have "P (put_transaction t ?txn s)"
    using assms by (auto intro!: put_keeps simp: same_round_def)
  then have "P (end_transaction cap t (Inl e) (put_transaction t ?txn s))"
    by (rule end_keeps [of _ _ ?txn]) (simp_all add: put_transaction_def)
  then show ?thesis
    using start_attempt_keeps [OF assms] by (simp add: attempt_fails_def put_transaction_def)
qed

lemma roll_back_keeps:
  assumes "P s" "transactions s t = Some txn" "lent txn"
  shows "P (roll_back cap t txn e clk s)"
  using attempt_fails_keeps [OF assms] send_keeps [OF assms]
  by (simp add: roll_back_def)

lemma transact_resumes_keeps:
  assumes "P s"
  shows "P (transact_resumes cap t clk s)"
proof (cases "transactions s t")
  case (Some txn)
  have no_statement: "in_flight txn = None" if "\<not> lent txn"
    using lent_sends [OF assms Some] that by (cases "in_flight txn") auto
  then have e: "P (end_transaction cap t (Inl err) s)" if "\<not> lent txn" for err
    using that by (intro end_keeps [OF assms Some]) auto
  have "P (start_attempt cap t (txn\<lparr>lent := True\<rparr>) 1 False clk (put_transaction t (txn\<lparr>lent := True\<rparr>) s))"
    if "\<not> lent txn"
  proof (rule start_attempt_keeps)
    show "P (put_transaction t (txn\<lparr>lent := True\<rparr>) s)"
      using no_statement that by (intro put_keeps [OF assms Some]) (auto simp: same_round_def)
  qed (simp_all add: put_transaction_def)
  with e assms Some show ?thesis
    by (simp add: transact_resumes_def put_transaction_def Let_def
        split: pending_client.split option.split connect_state.split)
qed (simp add: transact_resumes_def assms)

lemma statement_sent_keeps:
  assumes "P s" "transactions s t = Some txn" "lent txn" "in_flight txn = None"
    and "\<not> late txn s now"
  shows "P (send_statement t (txn\<lparr>heartbeat_sent := b\<rparr>) st now s)"
proof -
  let ?txn = "txn\<lparr>heartbeat_sent := b\<rparr>"
  have "P (put_transaction t ?txn s)"
    using assms by (intro put_keeps [OF assms(1,2)]) (simp_all add: same_round_def)
  then have "P (send_statement t ?txn st now (put_transaction t ?txn s))"
    by (rule send_keeps) (use assms in \<open>simp_all add: put_transaction_def late_def deadline_of_def\<close>)
  then show ?thesis by (simp add: send_statement_def put_transaction_def)
qed

lemma send_heartbeat_keeps:
  assumes "P s" "transactions s t = Some txn" "lent txn" "in_flight txn = None" "\<not> ended txn"
  shows "P (send_heartbeat cap t txn clk s)"
proof -
  have s: "P (join_rounds t txn s)" using assms by (intro join_keeps)
  have txn: "transactions (join_rounds t txn s) t = Some (with_joined txn s)"
    by (simp add: join_rounds_def)
  have "lent (with_joined txn s)" "in_flight (with_joined txn s) = None"
    using assms(3,4) by (simp_all add: with_joined_def)
  then show ?thesis
    using roll_back_keeps [OF s txn] statement_sent_keeps [OF s txn]
    by (simp add: send_heartbeat_def Let_def)
qed

lemma statement_fails_keeps:
  assumes "P s"
    and "\<And>txn rows x. transactions s t = Some txn \<Longrightarrow> in_flight txn = Some (Commit rows) \<Longrightarrow> \<not> late txn s (clk 0)
      \<Longrightarrow> res = Inr x \<Longrightarrow> P (end_transaction cap t (Inr rows) (put_transaction t (txn\<lparr>in_flight := None\<rparr>) s))"
  shows "P (statement_returns cap t res clk s)"
proof (cases "transactions s t")
  case (Some txn0)
  show ?thesis
  proof (cases "in_flight txn0")
    case (Some st)
    let ?txn = "txn0\<lparr>in_flight := None\<rparr>"
    let ?s = "put_transaction t ?txn s"
    have lent: "lent ?txn" using lent_sends [OF assms(1) \<open>transactions s t = Some txn0\<close>] Some by simp
    have s: "P ?s" "transactions ?s t = Some ?txn"
      using \<open>transactions s t = Some txn0\<close>
      by (auto intro!: put_keeps [OF assms(1)] simp: same_round_def) (simp add: put_transaction_def)
    note keeps = roll_back_keeps [OF s lent] attempt_fails_keeps [OF s lent] send_keeps [OF s lent]
    have late: "late ?txn ?s x = late txn0 s x" for x
      by (simp add: late_def put_transaction_def deadline_of_def)
    have e: "P (end_transaction cap t (Inr rows) ?s)" if "st = Commit rows" "\<not> late txn0 s (clk 0)" "res = Inr x" for rows x
      using assms(2) [OF \<open>transactions s t = Some txn0\<close>] Some that by simp
    have h: "P (send_heartbeat cap t ?txn c ?s)" if "\<not> late ?txn ?s (clk 1)" for c
      using that by (intro send_heartbeat_keeps [OF s lent]) (simp_all add: late_def)
    show ?thesis
      using \<open>transactions s t = Some txn0\<close> Some keeps e h
      unfolding statement_returns_def
      by (cases st; cases res) (simp_all add: Let_def put_transaction_def [symmetric] late)
  qed (simp add: statement_returns_def Some assms(1) Let_def)
qed (simp add: statement_returns_def assms(1))

lemma timed_out_keeps:
  assumes "P s"
  shows "P (timed_out cap i s)"
proof (cases "requests s i")
  case (Some r)
  show ?thesis
  proof (cases "\<exists>t txn. current s = Some t \<and> transactions s t = Some txn \<and> leader txn = i")
    case True
    then obtain t txn where "current s = Some t" "transactions s t = Some txn" "leader txn = i" by blast
    then show ?thesis using Some assms by (auto simp: timed_out_def intro: end_keeps)
  next
    case False
    then have "current s = None \<or> (\<exists>t txn. current s = Some t \<and>
        (transactions s t = None \<or> transactions s t = Some txn \<and> leader txn \<noteq> i))"
      by (metis option.exhaust)
    from wait_ends_keeps [OF assms this] False Some assms show ?thesis
      by (auto simp: timed_out_def split: option.split)
  qed
qed (simp add: timed_out_def assms)

end

locale transaction_invariant = transaction_errors +
  assumes end_rows_keeps: "P s \<Longrightarrow> transactions s t = Some txn \<Longrightarrow> in_flight txn = None
      \<Longrightarrow> P (end_transaction cap t (Inr rows) s)"
begin

lemma statement_returns_keeps:
  assumes "P s"
  shows "P (statement_returns cap t res clk s)"
proof (rule statement_fails_keeps [OF assms])
  fix txn rows x
  assume txn: "transactions s t = Some txn"
  let ?txn = "txn\<lparr>in_flight := None\<rparr>"
  have "P (put_transaction t ?txn s)"
    by (rule put_keeps [OF assms txn]) (simp_all add: same_round_def)
  then show "P (end_transaction cap t (Inr rows) (put_transaction t ?txn s))"
    by (rule end_rows_keeps [of _ _ ?txn]) (simp_all add: put_transaction_def)
qed

lemma step_keeps:
  assumes "P s"
  shows "P (reserved_step cap e s)"
proof (cases "round_event e")
  case True
  then show ?thesis
    using assms request_keeps timed_out_keeps transact_resumes_keeps statement_returns_keeps
    by (cases e) simp_all
qed (rule aside_keeps [OF assms step_aside])

lemma run_keeps: "P new_reserved \<Longrightarrow> P (reserved_run cap es)"
  unfolding reserved_run_def
  by (rule fold_invariant_list) (simp_all add: step_keeps)

end

end
