(* ===== verification/Heartbeat_Connection_Invariants.thy ===== *)
theory Heartbeat_Connection_Invariants
  imports Heartbeat_Connection_Proofs
begin

text \<open>
  The invariants of the reserved connection: rounds and transactions fit together and no round is
  forgotten, a session has one transaction at a time, answers stay, and statements go out in time.
\<close>

section \<open>Answering rounds\<close>

definition answers :: "nat set \<Rightarrow> reserved \<Rightarrow> reserved \<Rightarrow> bool" where
  "answers I s s' \<longleftrightarrow>
     waiting s' = waiting s \<and> current s' = current s \<and> transactions s' = transactions s \<and>
     next_transaction s' = next_transaction s \<and> sent s' = sent s \<and>
     client s' = client s \<and> next_connect s' = next_connect s \<and>
     (\<forall>i. (requests s' i = None \<longleftrightarrow> requests s i = None) \<and> deadline_of s' i = deadline_of s i \<and>
          batches_of s' i = batches_of s i \<and> (is_settled s' i \<longleftrightarrow> is_settled s i \<or> i \<in> I) \<and>
          (is_settled s i \<or> i \<notin> I \<longrightarrow> requests s' i = requests s i))"

lemma answersD:
  assumes "answers I s s'"
  shows "waiting s' = waiting s" "current s' = current s" "transactions s' = transactions s"
    "next_transaction s' = next_transaction s" "sent s' = sent s" "client s' = client s"
    "next_connect s' = next_connect s" "requests s' i = None \<longleftrightarrow> requests s i = None"
    "deadline_of s' i = deadline_of s i" "batches_of s' i = batches_of s i"
    "is_settled s' i \<longleftrightarrow> is_settled s i \<or> i \<in> I"
    "is_settled s i \<Longrightarrow> requests s' i = requests s i" "i \<notin> I \<Longrightarrow> requests s' i = requests s i"
  using assms unfolding answers_def by simp_all

lemma answers_refl: "answers {} s s"
  by (simp add: answers_def)

lemma answers_trans: "answers I s s' \<Longrightarrow> answers J s' s'' \<Longrightarrow> answers (I \<union> J) s s''"
  by (simp add: answers_def)

lemma answers_settle: "answers {i} s (settle res i s)"
  by (auto simp: answers_def settle_def is_settled_def deadline_of_def batches_of_def split: option.split)

lemma answers_fold_settle: "answers (set is) s (fold (settle res) is s)"
proof (induction "is" arbitrary: s)
  case (Cons i "is")
  from answers_trans [OF answers_settle [of i s res] Cons] show ?case by simp
qed (simp add: answers_refl)

lemma answers_resolve: "answers (set is) s (resolve_members rows offset is s)"
proof (induction "is" arbitrary: s offset)
  case (Cons i "is")
  from answers_trans [OF answers_settle Cons] show ?case by (simp add: Let_def)
qed (simp add: answers_refl)

section \<open>The leader\<close>

lemma pick_leader_Some:
  "pick_leader s is = Some l \<Longrightarrow>
     l \<in> set is \<and> \<not> is_settled s l \<and> (\<forall>j \<in> set is. \<not> is_settled s j \<longrightarrow> deadline_of s l \<le> deadline_of s j)"
proof (induction "is" arbitrary: l)
  case (Cons i "is")
  have none: "\<forall>j \<in> set is. is_settled s j" if "pick_leader s is = None"
    using that by (induction "is") (auto simp: Let_def split: if_splits option.splits)
  show ?case
    using Cons none by (cases "pick_leader s is") (fastforce simp: Let_def split: if_splits)+
qed simp

lemma pick_leader_None: "pick_leader s is = None \<Longrightarrow> j \<in> set is \<Longrightarrow> is_settled s j"
  by (induction "is") (auto simp: Let_def split: if_splits option.splits)

section \<open>Rounds and transactions\<close>

definition transaction_ok :: "reserved \<Rightarrow> nat \<Rightarrow> transaction \<Rightarrow> bool" where
  "transaction_ok s t txn \<longleftrightarrow>
     t < next_transaction s \<and> (ended txn \<longleftrightarrow> current s \<noteq> Some t) \<and>
     (in_flight txn \<noteq> None \<longrightarrow> lent txn) \<and>
     leader txn \<in> set (members txn) \<and> distinct (members txn) \<and>
     (\<forall>i \<in> set (members txn). requests s i \<noteq> None \<and> deadline_of s (leader txn) \<le> deadline_of s i) \<and>
     (\<not> ended txn \<longrightarrow> set (members txn) \<inter> set (waiting s) = {})"

definition in_transaction :: "reserved \<Rightarrow> nat \<Rightarrow> bool" where
  "in_transaction s i \<longleftrightarrow>
     (\<exists>t txn. current s = Some t \<and> transactions s t = Some txn \<and> i \<in> set (members txn))"

text \<open>
  Every round without an answer waits or is a member of the transaction in flight, but for the rounds
  of \<open>M\<close>, which are about to be answered.
\<close>

definition rounds_ok_but :: "nat set \<Rightarrow> reserved \<Rightarrow> bool" where
  "rounds_ok_but M s \<longleftrightarrow>
     (\<forall>t txn. transactions s t = Some txn \<longrightarrow> transaction_ok s t txn) \<and>
     (\<forall>t. current s = Some t \<longrightarrow> transactions s t \<noteq> None) \<and>
     distinct (waiting s) \<and> (\<forall>i \<in> set (waiting s). requests s i \<noteq> None) \<and>
     (\<forall>i. \<not> is_settled s i \<longrightarrow> i \<in> M \<or> i \<in> set (waiting s) \<or> in_transaction s i)"

abbreviation rounds_ok :: "reserved \<Rightarrow> bool" where
  "rounds_ok \<equiv> rounds_ok_but {}"

lemma in_transactionI:
  "current s = Some t \<Longrightarrow> transactions s t = Some txn \<Longrightarrow> i \<in> set (members txn) \<Longrightarrow> in_transaction s i"
  by (auto simp: in_transaction_def)

lemma rounds_okI:
  assumes "\<And>t txn. transactions s t = Some txn \<Longrightarrow> transaction_ok s t txn"
    and "\<And>t. current s = Some t \<Longrightarrow> transactions s t \<noteq> None"
    and "distinct (waiting s)" and "\<And>i. i \<in> set (waiting s) \<Longrightarrow> requests s i \<noteq> None"
    and "\<And>i. \<not> is_settled s i \<Longrightarrow> i \<notin> M \<Longrightarrow> i \<notin> set (waiting s) \<Longrightarrow> in_transaction s i"
  shows "rounds_ok_but M s"
  using assms unfolding rounds_ok_but_def by blast

lemma rounds_okD:
  assumes "rounds_ok_but M s"
  shows "transactions s t = Some txn \<Longrightarrow> transaction_ok s t txn"
    and "current s = Some t \<Longrightarrow> transactions s t \<noteq> None"
    and "distinct (waiting s)" and "i \<in> set (waiting s) \<Longrightarrow> requests s i \<noteq> None"
    and "\<not> is_settled s i \<Longrightarrow> i \<notin> M \<Longrightarrow> i \<notin> set (waiting s) \<Longrightarrow> in_transaction s i"
  using assms unfolding rounds_ok_but_def by blast+

lemma rounds_ok_fields:
  assumes "round_fields s' = round_fields s"
  shows "rounds_ok_but M s' \<longleftrightarrow> rounds_ok_but M s"
proof -
  have f: "waiting s' = waiting s" "current s' = current s" "requests s' = requests s"
    "transactions s' = transactions s" "next_transaction s' = next_transaction s"
    using assms by (simp_all add: round_fields_def)
  have d: "is_settled s' = is_settled s" "deadline_of s' = deadline_of s"
    by (intro ext, simp only: is_settled_def deadline_of_def f)+
  have "transaction_ok s' = transaction_ok s"
    by (intro ext) (simp only: transaction_ok_def f d)
  moreover have "in_transaction s' = in_transaction s"
    by (intro ext) (simp only: in_transaction_def f)
  ultimately show ?thesis by (simp only: rounds_ok_but_def f d)
qed

lemma rounds_ok_aside: "rounds_ok_but M s \<Longrightarrow> aside s s' \<Longrightarrow> rounds_ok_but M s'"
  unfolding aside_def using rounds_ok_fields by blast

lemma rounds_ok_answers:
  assumes "rounds_ok_but M s" "answers I s s'"
  shows "rounds_ok_but (M - I) s'"
proof -
  note A = answersD(1-11) [OF assms(2)]
  have "transaction_ok s' t txn = transaction_ok s t txn" for t txn
    by (simp add: A transaction_ok_def)
  moreover have "in_transaction s' i = in_transaction s i" for i
    by (simp add: A in_transaction_def)
  ultimately show ?thesis
    using rounds_okD [OF assms(1)] by (intro rounds_okI) (simp_all add: A)
qed

lemma rounds_ok_put:
  assumes "rounds_ok s" "transactions s t = Some txn" "same_round txn txn'"
    and "in_flight txn' \<noteq> None \<Longrightarrow> lent txn'"
  shows "rounds_ok (put_transaction t txn' s)"
proof -
  let ?s = "put_transaction t txn' s"
  have ok: "transaction_ok ?s u x \<longleftrightarrow> transaction_ok s u x" for u x
    by (simp add: transaction_ok_def put_transaction_def is_settled_def deadline_of_def)
  have txn': "transaction_ok s t txn'"
    using rounds_okD(1) [OF assms(1,2)] assms(3,4) by (simp add: transaction_ok_def same_round_def)
  have tr: "in_transaction ?s i = in_transaction s i" for i
    using assms(2,3) by (auto simp: in_transaction_def put_transaction_def same_round_def)
  show ?thesis
  proof (rule rounds_okI)
    show "transaction_ok ?s u x" if "transactions ?s u = Some x" for u x
      using that txn' rounds_okD(1) [OF assms(1)] unfolding ok
      by (auto simp: put_transaction_def split: if_splits)
  qed (use rounds_okD [OF assms(1)] tr in \<open>auto simp: put_transaction_def is_settled_def\<close>)
qed

lemma rounds_ok_sent: "rounds_ok_but M (s\<lparr>sent := x\<rparr>) \<longleftrightarrow> rounds_ok_but M s"
proof -
  have d: "is_settled (s\<lparr>sent := x\<rparr>) = is_settled s" "deadline_of (s\<lparr>sent := x\<rparr>) = deadline_of s"
    by (simp_all add: is_settled_def deadline_of_def fun_eq_iff)
  show ?thesis
    by (simp add: rounds_ok_but_def transaction_ok_def in_transaction_def d)
qed

lemma rounds_ok_send:
  assumes "rounds_ok s" "transactions s t = Some txn" "lent txn"
  shows "rounds_ok (send_statement t txn st now s)"
proof -
  have "rounds_ok (put_transaction t (txn\<lparr>in_flight := Some st\<rparr>) s)"
    using assms by (intro rounds_ok_put) (simp_all add: same_round_def)
  moreover have "send_statement t txn st now s =
      (put_transaction t (txn\<lparr>in_flight := Some st\<rparr>) s)\<lparr>sent := sent s @ [(t, st, now)]\<rparr>"
    by (simp add: send_statement_def put_transaction_def)
  ultimately show ?thesis by (simp add: rounds_ok_sent)
qed

lemma rounds_ok_join:
  assumes "rounds_ok s" "transactions s t = Some txn" "\<not> ended txn"
  shows "rounds_ok (join_rounds t txn s)"
proof -
  let ?s = "join_rounds t txn s"
  note D = rounds_okD [OF assms(1)]
  have txn: "transaction_ok s t txn" by (rule D(1) [OF assms(2)])
  then have cur: "current s = Some t" using assms(3) by (simp add: transaction_ok_def)
  have same [simp]: "is_settled ?s i = is_settled s i" "deadline_of ?s i = deadline_of s i"
    "requests ?s = requests s" "current ?s = Some t" "next_transaction ?s = next_transaction s" for i
    by (simp_all add: join_rounds_def is_settled_def deadline_of_def cur)
  have w: "set (waiting ?s) = {i \<in> set (waiting s). \<not> joins txn s i}"
    by (auto simp: join_rounds_def)
  show ?thesis
  proof (rule rounds_okI)
    show "transaction_ok ?s u x" if "transactions ?s u = Some x" for u x
    proof (cases "u = t")
      case True
      then have x: "x = with_joined txn s" using that by (simp add: join_rounds_def)
      have "requests s i \<noteq> None \<and> deadline_of s (leader txn) \<le> deadline_of s i"
        if "i \<in> set (waiting s)" "joins txn s i" for i
        using that D(4) by (simp add: joins_def)
      then show ?thesis
        using txn D(3) w assms(3) by (auto simp: x True transaction_ok_def with_joined_def)
    next
      case False
      then have "transaction_ok s u x" using that D(1) by (simp add: join_rounds_def)
      then show ?thesis using False cur by (simp add: transaction_ok_def)
    qed
    show "in_transaction ?s i" if "\<not> is_settled ?s i" "i \<notin> set (waiting ?s)" for i
    proof (rule in_transactionI [OF same(4)])
      show "transactions ?s t = Some (with_joined txn s)" by (simp add: join_rounds_def)
      show "i \<in> set (members (with_joined txn s))"
      proof (cases "i \<in> set (waiting s)")
        case True
        then show ?thesis using that w by (simp add: with_joined_def)
      next
        case False
        then have "in_transaction s i" using that D(5) by simp
        then show ?thesis using assms(2) cur by (simp add: in_transaction_def with_joined_def)
      qed
    qed
  qed (use D(2,3,4) w cur in \<open>auto simp: join_rounds_def\<close>)
qed

lemma start_next_run:
  assumes "current s = None" "pick_leader s (waiting s) = Some l"
  obtains p s1 where
    "start_next s = s1\<lparr>transactions := (transactions s)(next_transaction s \<mapsto>
        \<lparr>leader = l, members = [l], pending = p, lent = False, ended = False, attempt_number = 0,
         heartbeat_sent = False, in_flight = None\<rparr>)\<rparr>"
    "round_fields s1 = (remove1 l (filter (\<lambda>i. \<not> is_settled s i) (waiting s)),
       Some (next_transaction s), requests s, transactions s, Suc (next_transaction s), sent s)"
    "aside (s\<lparr>waiting := remove1 l (filter (\<lambda>i. \<not> is_settled s i) (waiting s)),
       current := Some (next_transaction s), next_transaction := Suc (next_transaction s)\<rparr>) s1"
    "p = Refused \<or> (\<exists>c. p = Connect c \<and> client s1 = Some c)"
proof -
  let ?s0 = "s\<lparr>waiting := remove1 l (filter (\<lambda>i. \<not> is_settled s i) (waiting s)),
       current := Some (next_transaction s), next_transaction := Suc (next_transaction s)\<rparr>"
  obtain p s1 where acq: "acquire ?s0 = (p, s1)" by fastforce
  have a: "aside ?s0 s1" using aside_acquire [of ?s0] acq by simp
  then have f: "round_fields s1 = round_fields ?s0" by (simp add: aside_def)
  have p: "p = Refused \<or> (\<exists>c. p = Connect c \<and> client s1 = Some c)"
    using acq by (auto simp: acquire_def Let_def split: if_splits option.splits)
  have "start_next s = s1\<lparr>transactions := (transactions s)(next_transaction s \<mapsto>
        \<lparr>leader = l, members = [l], pending = p, lent = False, ended = False, attempt_number = 0,
         heartbeat_sent = False, in_flight = None\<rparr>)\<rparr>"
    using f by (simp add: start_next_def assms Let_def acq round_fields_def)
  then show thesis using that a f p by (simp add: round_fields_def)
qed

lemma rounds_ok_start_next:
  assumes "rounds_ok s"
  shows "rounds_ok (start_next s)"
proof (cases "current s")
  case None
  note D = rounds_okD [OF assms]
  have ended: "ended x" if "transactions s u = Some x" for u x
    using D(1) [OF that] None by (simp add: transaction_ok_def)
  have idle: "\<not> in_transaction s i" for i by (simp add: in_transaction_def None)
  show ?thesis
  proof (cases "pick_leader s (waiting s)")
    case unled: None
    let ?s = "s\<lparr>waiting := filter (\<lambda>i. \<not> is_settled s i) (waiting s)\<rparr>"
    have "\<forall>i \<in> set (waiting s). is_settled s i"
      using pick_leader_None [OF unled] by blast
    then have "is_settled s i" for i
      using D(5) [of i] idle [of i] by blast
    then have all: "is_settled ?s i" for i by (simp add: is_settled_def)
    have same: "deadline_of ?s i = deadline_of s i" for i by (simp add: deadline_of_def)
    have "rounds_ok ?s"
    proof (rule rounds_okI)
      show "transaction_ok ?s u x" if "transactions ?s u = Some x" for u x
      proof -
        from that have old: "transactions s u = Some x" by simp
        show ?thesis using D(1) [OF old] ended [OF old] by (simp add: transaction_ok_def same)
      qed
      show "distinct (waiting ?s)" using D(3) by simp
      show "requests ?s i \<noteq> None" if "i \<in> set (waiting ?s)" for i using D(4) [of i] that by simp
    qed (simp_all add: all None)
    then show ?thesis by (simp add: start_next_def None unled)
  next
    case (Some l)
    let ?t = "next_transaction s"
    obtain p s1 where run: "start_next s = s1\<lparr>transactions := (transactions s)(?t \<mapsto>
        \<lparr>leader = l, members = [l], pending = p, lent = False, ended = False, attempt_number = 0,
         heartbeat_sent = False, in_flight = None\<rparr>)\<rparr>" (is "_ = ?s")
      and f: "round_fields s1 = (remove1 l (filter (\<lambda>i. \<not> is_settled s i) (waiting s)),
        Some ?t, requests s, transactions s, Suc ?t, sent s)"
      and "aside (s\<lparr>waiting := remove1 l (filter (\<lambda>i. \<not> is_settled s i) (waiting s)),
        current := Some ?t, next_transaction := Suc ?t\<rparr>) s1"
      and "p = Refused \<or> (\<exists>c. p = Connect c \<and> client s1 = Some c)"
      by (rule start_next_run [OF None Some])
    have l: "l \<in> set (waiting s)" "\<not> is_settled s l"
      using pick_leader_Some [OF Some] by auto
    have f [simp]: "waiting s1 = remove1 l (filter (\<lambda>i. \<not> is_settled s i) (waiting s))"
      "current s1 = Some ?t" "requests s1 = requests s" "next_transaction s1 = Suc ?t"
      using f by (simp_all add: round_fields_def)
    have s [simp]: "is_settled ?s i = is_settled s i" "deadline_of ?s i = deadline_of s i" for i
      by (simp_all add: is_settled_def deadline_of_def)
    have w: "set (waiting s1) = {i \<in> set (waiting s). \<not> is_settled s i} - {l}" "distinct (waiting s1)"
      using D(3) by auto
    have "rounds_ok ?s"
    proof (rule rounds_okI)
      show "transaction_ok ?s u x" if "transactions ?s u = Some x" for u x
      proof (cases "u = ?t")
        case True
        then have "x = \<lparr>leader = l, members = [l], pending = p, lent = False, ended = False,
            attempt_number = 0, heartbeat_sent = False, in_flight = None\<rparr>"
          using that by simp
        then show ?thesis using w(1) D(4) [OF l(1)] True by (simp add: transaction_ok_def)
      next
        case False
        then have old: "transactions s u = Some x" using that by simp
        show ?thesis using D(1) [OF old] ended [OF old] False by (auto simp: transaction_ok_def)
      qed
      show "in_transaction ?s i" if "\<not> is_settled ?s i" "i \<notin> set (waiting ?s)" for i
      proof (rule in_transactionI [of ?s ?t])
        show "i \<in> set (members \<lparr>leader = l, members = [l], pending = p, lent = False, ended = False,
            attempt_number = 0, heartbeat_sent = False, in_flight = None\<rparr>)"
          using that D(5) [of i] idle [of i] w(1) by auto
      qed simp_all
    qed (use w D(4) in auto)
    then show ?thesis by (simp add: run)
  qed
qed (simp add: start_next_def assms)

definition ended_state :: "nat \<Rightarrow> transaction \<Rightarrow> reserved \<Rightarrow> reserved" where
  "ended_state t txn s =
     s\<lparr>transactions := (transactions s)(t \<mapsto> txn\<lparr>ended := True\<rparr>), current := None\<rparr>"

text \<open>
  The end of a transaction: the client may go, the members are answered, a replacement may be
  opened, and the next transaction starts.
\<close>

lemma end_transaction_run:
  assumes "transactions s t = Some txn" "\<not> ended txn" "current s = Some t"
  obtains a b m where "end_transaction cap t outcome s = start_next m"
    and "aside (ended_state t txn s) a" and "answers (set (members txn)) a b" and "aside b m"
    and "\<And>e c. outcome = Inl e \<Longrightarrow> e \<noteq> Round_Expired_Cleanly \<Longrightarrow> lent txn \<Longrightarrow> pending txn = Connect c
           \<Longrightarrow> client a \<noteq> Some c"
proof (cases outcome)
  case (Inr rows)
  show ?thesis
  proof (rule that)
    show "end_transaction cap t outcome s = start_next (resolve_members rows 0 (members txn) (ended_state t txn s))"
      using assms by (simp add: end_transaction_def ended_state_def Inr)
    show "answers (set (members txn)) (ended_state t txn s) (resolve_members rows 0 (members txn) (ended_state t txn s))"
      by (rule answers_resolve)
  qed (simp_all add: Inr)
next
  case (Inl e)
  let ?s = "ended_state t txn s"
  define a where "a = (case pending txn of
      Connect c \<Rightarrow> if lent txn \<and> e \<noteq> Round_Expired_Cleanly then discard cap c False ?s else ?s
    | Refused \<Rightarrow> ?s)"
  let ?b = "fold (settle (Inl e)) (members txn) a"
  show ?thesis
  proof (rule that)
    show "end_transaction cap t outcome s = start_next (reserve ?b)"
      using assms
      by (cases "pending txn") (simp_all add: end_transaction_def ended_state_def Inl a_def Let_def)
    show "aside ?s a" by (simp add: a_def aside_discard split: pending_client.split)
    show "answers (set (members txn)) a ?b" by (rule answers_fold_settle)
    show "aside ?b (reserve ?b)" by (rule aside_reserve)
    show "client a \<noteq> Some c" if "outcome = Inl e'" "e' \<noteq> Round_Expired_Cleanly" "lent txn"
      "pending txn = Connect c" for e' c
      using that Inl by (simp add: a_def discard_def release_client_def)
  qed
qed

lemma rounds_ok_ended:
  assumes "rounds_ok s" "transactions s t = Some txn" "current s = Some t"
  shows "rounds_ok_but (set (members txn)) (ended_state t txn s)"
proof -
  let ?s = "ended_state t txn s"
  note D = rounds_okD [OF assms(1)]
  have f: "waiting ?s = waiting s" "requests ?s = requests s" "current ?s = None"
    "next_transaction ?s = next_transaction s" "transactions ?s = (transactions s)(t \<mapsto> txn\<lparr>ended := True\<rparr>)"
    by (simp_all add: ended_state_def)
  have d: "is_settled ?s i = is_settled s i" "deadline_of ?s i = deadline_of s i" for i
    by (simp_all add: is_settled_def deadline_of_def f)
  show ?thesis
  proof (rule rounds_okI)
    show "transaction_ok ?s u x" if "transactions ?s u = Some x" for u x
    proof (cases "u = t")
      case True
      then have "x = txn\<lparr>ended := True\<rparr>" using that by (simp add: f)
      then show ?thesis using D(1) [OF assms(2)] True by (simp add: transaction_ok_def f d)
    next
      case False
      then have old: "transactions s u = Some x" using that by (simp add: f)
      show ?thesis using D(1) [OF old] assms(3) False by (auto simp: transaction_ok_def f d)
    qed
    show "in_transaction ?s i" if "\<not> is_settled ?s i" "i \<notin> set (members txn)" "i \<notin> set (waiting ?s)" for i
      using D(5) [of i] that assms by (simp add: f d in_transaction_def)
  qed (use D(3,4) f in simp_all)
qed

lemma current_unended:
  "rounds_ok s \<Longrightarrow> transactions s t = Some txn \<Longrightarrow> \<not> ended txn \<Longrightarrow> current s = Some t"
  using rounds_okD(1) by (fastforce simp: transaction_ok_def)

lemma end_transaction_ended:
  "transactions s t = Some txn \<Longrightarrow> ended txn \<Longrightarrow> end_transaction cap t outcome s = s"
  by (simp add: end_transaction_def)

lemma rounds_ok_end:
  assumes "rounds_ok s" "transactions s t = Some txn"
  shows "rounds_ok (end_transaction cap t outcome s)"
proof (cases "ended txn")
  case False
  have cur: "current s = Some t" using current_unended [OF assms False] .
  show ?thesis
  proof (rule end_transaction_run [OF assms(2) False cur, of cap outcome])
    fix a b m
    assume run: "end_transaction cap t outcome s = start_next m"
      and a: "aside (ended_state t txn s) a" and b: "answers (set (members txn)) a b" and m: "aside b m"
    have "rounds_ok_but (set (members txn)) a"
      using rounds_ok_ended [OF assms cur] a by (rule rounds_ok_aside)
    then have "rounds_ok b" using rounds_ok_answers [OF _ b] by fastforce
    then have "rounds_ok m" using m by (rule rounds_ok_aside)
    then show ?thesis by (simp add: run rounds_ok_start_next)
  qed
qed (simp add: end_transaction_ended [OF assms(2)] assms)

text \<open>A new round, and a round that stops waiting.\<close>

lemma rounds_ok_new_request:
  assumes "rounds_ok s" "requests s i = None"
    and "w = waiting s \<and> settled r \<or> w = waiting s @ [i]"
  shows "rounds_ok (s\<lparr>requests := (requests s)(i \<mapsto> r), waiting := w\<rparr>)" (is "rounds_ok ?s")
proof -
  note D = rounds_okD [OF assms(1)]
  have d: "is_settled ?s j = (if j = i then settled r else is_settled s j)"
    "j \<noteq> i \<Longrightarrow> deadline_of ?s j = deadline_of s j" for j
    by (simp_all add: is_settled_def deadline_of_def)
  have i: "i \<notin> set (waiting s)" using D(4) [of i] assms(2) by blast
  show ?thesis
  proof (rule rounds_okI)
    show "transaction_ok ?s u x" if "transactions ?s u = Some x" for u x
    proof -
      from that have old: "transactions s u = Some x" by simp
      have x: "transaction_ok s u x" by (rule D(1) [OF old])
      then have "i \<notin> set (members x)" using assms(2) by (auto simp: transaction_ok_def)
      moreover from this x have "leader x \<noteq> i" by (auto simp: transaction_ok_def)
      ultimately show ?thesis
        using x assms(3) d(2) by (fastforce simp: transaction_ok_def)
    qed
    show "in_transaction ?s j" if "\<not> is_settled ?s j" "j \<notin> set (waiting ?s)" for j
      using D(5) [of j] that assms(3) unfolding d by (auto simp: in_transaction_def split: if_splits)
    show "distinct (waiting ?s)" using D(3) i assms(3) by auto
  qed (use D(2,4) assms(3) in auto)
qed

lemma rounds_ok_request:
  assumes "rounds_ok s"
  shows "rounds_ok (request_starts i now timeout built s)"
proof (cases "requests s i = None")
  case True
  note new = rounds_ok_new_request [OF assms True]
  show ?thesis
    using new [of "waiting s"] new [of "waiting s @ [i]"] assms True
    by (auto simp: request_starts_def intro!: rounds_ok_start_next split: sum.split)
qed (simp add: request_starts_def assms)

lemma rounds_ok_wait_ends:
  assumes "rounds_ok s"
  shows "rounds_ok (settle (Inl e) i (s\<lparr>waiting := remove1 i (waiting s)\<rparr>))"
proof -
  let ?s = "s\<lparr>waiting := remove1 i (waiting s)\<rparr>"
  note D = rounds_okD [OF assms]
  have d: "is_settled ?s j = is_settled s j" "deadline_of ?s j = deadline_of s j" for j
    by (simp_all add: is_settled_def deadline_of_def)
  have w: "set (waiting ?s) = set (waiting s) - {i}" using D(3) by simp
  have "rounds_ok_but {i} ?s"
  proof (rule rounds_okI)
    show "transaction_ok ?s u x" if "transactions ?s u = Some x" for u x
    proof -
      from that have "transactions s u = Some x" by simp
      from D(1) [OF this] show ?thesis using w by (auto simp: transaction_ok_def d)
    qed
    show "in_transaction ?s j" if "\<not> is_settled ?s j" "j \<notin> {i}" "j \<notin> set (waiting ?s)" for j
      using D(5) [of j] that w by (auto simp: in_transaction_def d)
  qed (use D(2,3,4) w in auto)
  from rounds_ok_answers [OF this answers_settle [of i]] show ?thesis by simp
qed

lemma rounds_ok_lent: "rounds_ok s \<Longrightarrow> transactions s t = Some txn \<Longrightarrow> in_flight txn \<noteq> None \<Longrightarrow> lent txn"
  using rounds_okD(1) by (fastforce simp: transaction_ok_def)

interpretation rounds: transaction_invariant cap "rounds_ok" for cap
proof unfold_locales
  show "rounds_ok (send_statement t txn st now s)"
    if "rounds_ok s" "transactions s t = Some txn" "lent txn" for t txn st now s
    using that by (rule rounds_ok_send)
qed (auto intro: rounds_ok_aside rounds_ok_put rounds_ok_join rounds_ok_end rounds_ok_request
    rounds_ok_wait_ends dest: rounds_ok_lent)

lemma rounds_ok_new: "rounds_ok new_reserved"
  by (rule rounds_okI) (simp_all add: new_reserved_def is_settled_def)

lemma run_rounds_ok: "rounds_ok (reserved_run cap es)"
  by (rule rounds.run_keeps) (rule rounds_ok_new)

section \<open>One transaction for a session\<close>

text \<open>\<open>uses_client s t c\<close>: transaction \<open>t\<close> has a statement in flight on the client of connect \<open>c\<close>.\<close>

definition uses_client :: "reserved \<Rightarrow> nat \<Rightarrow> nat \<Rightarrow> bool" where
  "uses_client s t c \<longleftrightarrow>
     (\<exists>txn. transactions s t = Some txn \<and> in_flight txn \<noteq> None \<and> pending txn = Connect c)"

definition waits_for_client :: "reserved \<Rightarrow> nat \<Rightarrow> nat \<Rightarrow> bool" where
  "waits_for_client s t c \<longleftrightarrow> (\<exists>txn. transactions s t = Some txn \<and> pending txn = Connect c)"

text \<open>
  A client is used by one transaction. A transaction that ended with a statement in flight has lost
  its client: it is no longer the client of the connection, nor of the transaction in flight.
\<close>

definition session_ok :: "reserved \<Rightarrow> bool" where
  "session_ok s \<longleftrightarrow>
     (\<forall>c. client s = Some c \<longrightarrow> c < next_connect s) \<and>
     (\<forall>t c. waits_for_client s t c \<longrightarrow> c < next_connect s) \<and>
     (\<forall>t c. uses_client s t c \<and> current s \<noteq> Some t \<longrightarrow>
        client s \<noteq> Some c \<and> (\<forall>u. current s = Some u \<longrightarrow> \<not> waits_for_client s u c)) \<and>
     (\<forall>t u c. uses_client s t c \<and> uses_client s u c \<longrightarrow> t = u)"

lemma session_okI:
  assumes "\<And>c. client s = Some c \<Longrightarrow> c < next_connect s"
    and "\<And>t c. waits_for_client s t c \<Longrightarrow> c < next_connect s"
    and "\<And>t c. uses_client s t c \<Longrightarrow> current s \<noteq> Some t \<Longrightarrow> client s \<noteq> Some c"
    and "\<And>t u c. uses_client s t c \<Longrightarrow> current s \<noteq> Some t \<Longrightarrow> current s = Some u \<Longrightarrow> \<not> waits_for_client s u c"
    and "\<And>t u c. uses_client s t c \<Longrightarrow> uses_client s u c \<Longrightarrow> t = u"
  shows "session_ok s"
  using assms unfolding session_ok_def by blast

lemma session_okD:
  assumes "session_ok s"
  shows "client s = Some c \<Longrightarrow> c < next_connect s"
    and "waits_for_client s t c \<Longrightarrow> c < next_connect s"
    and "uses_client s t c \<Longrightarrow> current s \<noteq> Some t \<Longrightarrow> client s \<noteq> Some c"
    and "uses_client s t c \<Longrightarrow> current s \<noteq> Some t \<Longrightarrow> current s = Some u \<Longrightarrow> \<not> waits_for_client s u c"
    and "uses_client s t c \<Longrightarrow> uses_client s u c \<Longrightarrow> t = u"
  using assms unfolding session_ok_def by blast+

lemma uses_waits: "uses_client s t c \<Longrightarrow> waits_for_client s t c"
  by (auto simp: uses_client_def waits_for_client_def)

lemma client_uses_fields:
  assumes "transactions s' = transactions s"
  shows "uses_client s' = uses_client s" "waits_for_client s' = waits_for_client s"
  using assms by (simp_all add: uses_client_def waits_for_client_def fun_eq_iff)

lemma session_ok_aside:
  assumes "session_ok s" "aside s s'"
  shows "session_ok s'"
proof -
  note D = session_okD [OF assms(1)]
  have f: "current s' = current s" "transactions s' = transactions s"
    using assms(2) by (simp_all add: aside_def round_fields_def)
  note u = client_uses_fields [OF f(2)]
  have m: "next_connect s \<le> next_connect s'"
    "client s' = Some c \<Longrightarrow> client s = Some c \<or> next_connect s \<le> c"
    "client s' = Some c \<Longrightarrow> c < next_connect s' \<or> client s = Some c" for c
    using assms(2) by (simp_all add: aside_def client_moves_def)
  show ?thesis
  proof (rule session_okI)
    show "c < next_connect s'" if "client s' = Some c" for c using m(1) m(3) [OF that] D(1) [of c] by auto
    show "c < next_connect s'" if "waits_for_client s' t c" for t c using m(1) D(2) [of t c] that u by simp
    show "client s' \<noteq> Some c" if "uses_client s' t c" "current s' \<noteq> Some t" for t c
      using that D(2) [OF uses_waits, of t c] D(3) [of t c] m(2) [of c] by (auto simp: f u)
  qed (use D(4,5) in \<open>simp_all add: f u\<close>)
qed

lemma session_ok_answers:
  assumes "session_ok s" "answers I s s'"
  shows "session_ok s'"
proof -
  note A = answersD(2,3,6,7) [OF assms(2)]
  show ?thesis using assms(1) by (simp only: session_ok_def A client_uses_fields [OF A(2)])
qed

lemma session_ok_put:
  assumes "session_ok s" "transactions s t = Some txn" "same_round txn txn'"
    and "in_flight txn' = None \<or> current s = Some t"
  shows "session_ok (put_transaction t txn' s)"
proof -
  let ?s = "put_transaction t txn' s"
  note D = session_okD [OF assms(1)]
  have f: "current ?s = current s" "client ?s = client s" "next_connect ?s = next_connect s"
    by (simp_all add: put_transaction_def)
  have w: "waits_for_client ?s u c = waits_for_client s u c" for u c
    using assms(2,3) by (auto simp: waits_for_client_def put_transaction_def same_round_def)
  have u: "uses_client ?s u c \<Longrightarrow> u = t \<and> current s = Some t \<and> waits_for_client s t c \<or> uses_client s u c" for u c
    using assms(2-4) w [of t c]
    by (auto simp: uses_client_def waits_for_client_def put_transaction_def same_round_def split: if_splits)
  show ?thesis
  proof (rule session_okI)
    show "client ?s \<noteq> Some c" if "uses_client ?s v c" "current ?s \<noteq> Some v" for v c
      using u [OF that(1)] that(2) D(3) [of v c] by (auto simp: f)
    show "\<not> waits_for_client ?s x c" if "uses_client ?s v c" "current ?s \<noteq> Some v" "current ?s = Some x" for v x c
      using u [OF that(1)] that(2,3) D(4) [of v c x] by (auto simp: f w)
    show "v = x" if "uses_client ?s v c" "uses_client ?s x c" for v x c
      using u [OF that(1)] u [OF that(2)] D(4) [of v c t] D(4) [of x c t] D(5) [of v c x] by auto
  qed (use D(1,2) in \<open>simp_all add: f w\<close>)
qed

lemma session_ok_sent [simp]: "session_ok (s\<lparr>sent := x\<rparr>) \<longleftrightarrow> session_ok s"
proof -
  have "uses_client (s\<lparr>sent := x\<rparr>) = uses_client s" "waits_for_client (s\<lparr>sent := x\<rparr>) = waits_for_client s"
    by (rule client_uses_fields, simp)+
  then show ?thesis by (simp add: session_ok_def)
qed

lemma session_ok_waiting [simp]: "session_ok (s\<lparr>waiting := x\<rparr>) \<longleftrightarrow> session_ok s"
proof -
  have "uses_client (s\<lparr>waiting := x\<rparr>) = uses_client s" "waits_for_client (s\<lparr>waiting := x\<rparr>) = waits_for_client s"
    by (rule client_uses_fields, simp)+
  then show ?thesis by (simp add: session_ok_def)
qed

lemma session_ok_requests [simp]: "session_ok (s\<lparr>requests := x\<rparr>) \<longleftrightarrow> session_ok s"
proof -
  have "uses_client (s\<lparr>requests := x\<rparr>) = uses_client s" "waits_for_client (s\<lparr>requests := x\<rparr>) = waits_for_client s"
    by (rule client_uses_fields, simp)+
  then show ?thesis by (simp add: session_ok_def)
qed

lemma session_ok_send:
  assumes "session_ok s" "transactions s t = Some txn" "current s = Some t"
  shows "session_ok (send_statement t txn st now s)"
proof -
  have "send_statement t txn st now s =
      (put_transaction t (txn\<lparr>in_flight := Some st\<rparr>) s)\<lparr>sent := sent s @ [(t, st, now)]\<rparr>"
    by (simp add: send_statement_def put_transaction_def)
  moreover have "session_ok (put_transaction t (txn\<lparr>in_flight := Some st\<rparr>) s)"
    by (rule session_ok_put [OF assms(1,2)]) (simp_all add: same_round_def assms(3))
  ultimately show ?thesis by simp
qed

lemma session_ok_join:
  assumes "session_ok s" "transactions s t = Some txn" "current s = Some t"
  shows "session_ok (join_rounds t txn s)"
proof -
  let ?s = "join_rounds t txn s"
  have "uses_client ?s = uses_client s" "waits_for_client ?s = waits_for_client s"
    using assms(2) by (auto simp: uses_client_def waits_for_client_def join_rounds_def with_joined_def fun_eq_iff)
  moreover have "current ?s = current s" "client ?s = client s" "next_connect ?s = next_connect s"
    by (simp_all add: join_rounds_def)
  ultimately show ?thesis using assms(1) by (simp only: session_ok_def)
qed

lemma session_ok_start_next:
  assumes "rounds_ok s" "session_ok s"
  shows "session_ok (start_next s)"
proof (cases "current s = None \<and> pick_leader s (waiting s) \<noteq> None")
  case True
  then obtain l where cur: "current s = None" and l: "pick_leader s (waiting s) = Some l" by auto
  show ?thesis
  proof (rule start_next_run [OF cur l])
    fix p s1
    let ?t = "next_transaction s"
    let ?x = "\<lparr>leader = l, members = [l], pending = p, lent = False, ended = False, attempt_number = 0,
         heartbeat_sent = False, in_flight = None\<rparr>"
    let ?w = "remove1 l (filter (\<lambda>i. \<not> is_settled s i) (waiting s))"
    assume run: "start_next s = s1\<lparr>transactions := (transactions s)(?t \<mapsto> ?x)\<rparr>"
      and f: "round_fields s1 = (?w, Some ?t, requests s, transactions s, Suc ?t, sent s)"
      and a: "aside (s\<lparr>waiting := ?w, current := Some ?t, next_transaction := Suc ?t\<rparr>) s1"
      and p: "p = Refused \<or> (\<exists>c. p = Connect c \<and> client s1 = Some c)"
    have fresh: "transactions s ?t = None"
      using rounds_okD(1) [OF assms(1), of ?t] by (cases "transactions s ?t") (auto simp: transaction_ok_def)
    define s0 where "s0 = s1\<lparr>waiting := waiting s, current := None, next_transaction := next_transaction s\<rparr>"
    define s2 where "s2 = s1\<lparr>transactions := (transactions s)(?t \<mapsto> ?x)\<rparr>"
    have tr: "transactions s0 = transactions s" "transactions s2 = (transactions s)(?t \<mapsto> ?x)"
      "client s2 = client s0" "next_connect s2 = next_connect s0" "current s2 = Some ?t" "current s0 = None"
      "client s1 = client s0"
      using f by (simp_all add: round_fields_def s0_def s2_def)
    have "aside s s0"
      using a cur by (simp add: aside_def client_moves_def round_fields_def s0_def)
    note D = session_okD [OF session_ok_aside [OF assms(2) this]]
    have u: "uses_client s2 v c \<longleftrightarrow> uses_client s0 v c" for v c
      using fresh by (simp add: uses_client_def tr)
    have w: "waits_for_client s2 v c \<longleftrightarrow> waits_for_client s0 v c \<or> v = ?t \<and> p = Connect c" for v c
      using fresh by (auto simp: waits_for_client_def tr)
    have new: "\<not> waits_for_client s0 ?t c" for c
      using fresh by (simp add: waits_for_client_def tr)
    have pc: "client s0 = Some c" if "p = Connect c" for c using p that by (simp add: tr)
    have "session_ok s2"
    proof (rule session_okI)
      show "c < next_connect s2" if "client s2 = Some c" for c using D(1) [of c] that by (simp add: tr)
      show "c < next_connect s2" if "waits_for_client s2 v c" for v c
        using that D(1) [OF pc] D(2) [of v c] by (auto simp: w tr)
      show "client s2 \<noteq> Some c" if "uses_client s2 v c" for v c
        using that D(3) [of v c] by (simp add: u tr)
      show "\<not> waits_for_client s2 x c" if "uses_client s2 v c" "current s2 = Some x" for v x c
      proof
        assume "waits_for_client s2 x c"
        then have "p = Connect c" using that(2) new [of c] by (simp add: w tr)
        then show False using D(3) [of v c] that(1) pc by (simp add: u tr)
      qed
      show "v = x" if "uses_client s2 v c" "uses_client s2 x c" for v x c
        using that D(5) [of v c x] by (simp add: u)
    qed
    then show ?thesis by (simp only: run s2_def)
  qed
qed (auto simp: start_next_def assms Let_def)

lemma session_ok_ended:
  assumes "session_ok s" "transactions s t = Some txn" "current s = Some t" "client a \<noteq> Some c"
    and "aside (ended_state t txn s) a" "pending txn = Connect c"
  shows "session_ok a"
proof -
  let ?s = "ended_state t txn s"
  have f: "current a = None" "transactions a = (transactions s)(t \<mapsto> txn\<lparr>ended := True\<rparr>)"
    using assms(5) by (simp_all add: aside_def round_fields_def ended_state_def)
  have m: "next_connect s \<le> next_connect a"
    "client a = Some d \<Longrightarrow> client s = Some d \<or> next_connect s \<le> d"
    "client a = Some d \<Longrightarrow> d < next_connect a \<or> client s = Some d" for d
    using assms(5) by (simp_all add: aside_def client_moves_def ended_state_def)
  note D = session_okD [OF assms(1)]
  have u: "uses_client a v d = uses_client s v d" "waits_for_client a v d = waits_for_client s v d" for v d
    using assms(2) by (auto simp: uses_client_def waits_for_client_def f)
  show ?thesis
  proof (rule session_okI)
    show "d < next_connect a" if "client a = Some d" for d using m(1) m(3) [OF that] D(1) [of d] by auto
    show "d < next_connect a" if "waits_for_client a v d" for v d using m(1) D(2) [of v d] that u by auto
    show "client a \<noteq> Some d" if "uses_client a v d" for v d
    proof (cases "v = t")
      case True
      then have "uses_client s t d" using that by (simp add: u)
      then have "d = c" using assms(2,6) by (auto simp: uses_client_def)
      then show ?thesis using assms(4) by simp
    next
      case False
      then have v: "uses_client s v d" "current s \<noteq> Some v" using that assms(3) by (simp_all add: u)
      then show ?thesis using D(3) [OF v] D(2) [OF uses_waits [OF v(1)]] m(2) [of d] by auto
    qed
    show "v = x" if "uses_client a v d" "uses_client a x d" for v x d
      using that D(5) [of v d x] by (simp add: u)
  qed (simp add: f)
qed

lemma session_ok_ended_idle:
  assumes "session_ok s" "transactions s t = Some txn" "current s = Some t"
    and "in_flight txn = None \<or> pending txn = Refused"
  shows "session_ok (ended_state t txn s)"
proof -
  let ?s = "ended_state t txn s"
  have f: "current ?s = None" "client ?s = client s" "next_connect ?s = next_connect s"
    "transactions ?s = (transactions s)(t \<mapsto> txn\<lparr>ended := True\<rparr>)"
    by (simp_all add: ended_state_def)
  note D = session_okD [OF assms(1)]
  have u: "uses_client ?s v d = uses_client s v d" "waits_for_client ?s v d = waits_for_client s v d" for v d
    using assms(2) by (auto simp: uses_client_def waits_for_client_def f)
  have t: "\<not> uses_client s t d" for d
    using assms(2,4) by (auto simp: uses_client_def)
  show ?thesis
  proof (rule session_okI)
    show "client ?s \<noteq> Some d" if "uses_client ?s v d" for v d
    proof -
      from that t have "uses_client s v d" "current s \<noteq> Some v" using assms(3) by (auto simp: u)
      then show ?thesis using D(3) by (simp add: f)
    qed
    show "v = x" if "uses_client ?s v d" "uses_client ?s x d" for v x d
      using that D(5) [of v d x] by (simp add: u)
  qed (use D(1,2) in \<open>simp_all add: f u\<close>)
qed

lemma session_ok_end:
  assumes "rounds_ok s" "session_ok s" "transactions s t = Some txn"
    and "in_flight txn = None \<or> (\<exists>ms. outcome = Inl (Heartbeat_Did_Not_Finish ms))"
  shows "session_ok (end_transaction cap t outcome s)"
proof (cases "ended txn")
  case False
  have cur: "current s = Some t" using current_unended [OF assms(1,3) False] .
  show ?thesis
  proof (rule end_transaction_run [OF assms(3) False cur, of cap outcome])
    fix a b m
    assume run: "end_transaction cap t outcome s = start_next m"
      and a: "aside (ended_state t txn s) a" and b: "answers (set (members txn)) a b" and m: "aside b m"
      and gone: "\<And>e c. outcome = Inl e \<Longrightarrow> e \<noteq> Round_Expired_Cleanly \<Longrightarrow> lent txn \<Longrightarrow> pending txn = Connect c
           \<Longrightarrow> client a \<noteq> Some c"
    have "session_ok a"
    proof (cases "in_flight txn = None \<or> pending txn = Refused")
      case True
      show ?thesis by (rule session_ok_aside [OF session_ok_ended_idle [OF assms(2,3) cur True] a])
    next
      case False
      then obtain c where c: "pending txn = Connect c" by (cases "pending txn") auto
      have "lent txn" using False by (intro rounds_ok_lent [OF assms(1,3)]) simp
      then have "client a \<noteq> Some c" using gone c assms(4) False by auto
      then show ?thesis by (rule session_ok_ended [OF assms(2,3) cur _ a c])
    qed
    then have "session_ok m" using b m by (blast intro: session_ok_aside session_ok_answers)
    moreover have "rounds_ok m"
    proof -
      have "rounds_ok_but (set (members txn)) a"
        using rounds_ok_ended [OF assms(1,3) cur] a by (rule rounds_ok_aside)
      then have "rounds_ok b" using rounds_ok_answers [OF _ b] by fastforce
      then show ?thesis using m by (rule rounds_ok_aside)
    qed
    ultimately show ?thesis by (simp add: run session_ok_start_next)
  qed
qed (simp add: end_transaction_ended [OF assms(3)] assms)

lemma session_ok_request:
  assumes "rounds_ok s" "session_ok s"
  shows "session_ok (request_starts i now timeout built s)"
proof (cases "requests s i = None")
  case True
  have "rounds_ok (s\<lparr>requests := (requests s)(i \<mapsto> r), waiting := waiting s @ [i]\<rparr>)" for r
    by (rule rounds_ok_new_request [OF assms(1) True]) simp
  then show ?thesis
    using assms(2) True by (auto simp: request_starts_def intro!: session_ok_start_next split: sum.split)
qed (simp add: request_starts_def assms)

interpretation session: transaction_invariant cap "\<lambda>s. rounds_ok s \<and> session_ok s" for cap
proof (unfold_locales, goal_cases)
  case (1 s s')
  then show ?case by (blast intro: rounds_ok_aside session_ok_aside)
next
  case (2 s t txn)
  then show ?case by (blast dest: rounds_ok_lent)
next
  case (3 s t txn txn')
  then show ?case by (auto intro!: rounds_ok_put session_ok_put)
next
  case (4 s t txn now st)
  then show ?case using current_unended [of s t txn] by (auto simp: late_def intro!: rounds_ok_send session_ok_send)
next
  case (5 s t txn)
  then show ?case using current_unended [of s t txn] by (auto intro!: rounds_ok_join session_ok_join)
next
  case (6 s t txn e)
  then show ?case by (auto intro!: rounds_ok_end session_ok_end)
next
  case (7 s i now timeout built)
  then show ?case by (simp add: rounds_ok_request session_ok_request)
next
  case (8 s i e)
  then have "session_ok (settle (Inl e) i (s\<lparr>waiting := remove1 i (waiting s)\<rparr>))"
    by (intro session_ok_answers [OF _ answers_settle]) simp
  then show ?case using 8 by (simp add: rounds_ok_wait_ends)
next
  case (9 s t txn rows)
  then show ?case by (auto intro!: rounds_ok_end session_ok_end)
qed

lemma session_ok_new: "session_ok new_reserved"
  by (rule session_okI) (simp_all add: new_reserved_def uses_client_def waits_for_client_def)

lemma run_session_ok: "session_ok (reserved_run cap es)"
  using session.run_keeps [of cap es] by (simp add: rounds_ok_new session_ok_new)

section \<open>Answers stay, statements go out in time\<close>

lemma start_next_requests: "requests (start_next s) = requests s"
proof (cases "current s = None \<and> pick_leader s (waiting s) \<noteq> None")
  case True
  then obtain l where cur: "current s = None" and l: "pick_leader s (waiting s) = Some l" by auto
  show ?thesis
    by (rule start_next_run [OF cur l]) (simp add: round_fields_def)
qed (auto simp: start_next_def)

lemma start_next_sent: "sent (start_next s) = sent s"
proof (cases "current s = None \<and> pick_leader s (waiting s) \<noteq> None")
  case True
  then obtain l where cur: "current s = None" and l: "pick_leader s (waiting s) = Some l" by auto
  show ?thesis
    by (rule start_next_run [OF cur l]) (simp add: round_fields_def)
qed (auto simp: start_next_def)

text \<open>Requests keep what they ask for and their answer, transactions their leader.\<close>

definition grows :: "reserved \<Rightarrow> reserved \<Rightarrow> bool" where
  "grows s s' \<longleftrightarrow>
     (\<forall>i r. requests s i = Some r \<longrightarrow> (\<exists>r'. requests s' i = Some r' \<and> deadline r' = deadline r \<and>
        batches r' = batches r \<and> (settled r \<longrightarrow> r' = r))) \<and>
     (\<forall>t txn. transactions s t = Some txn \<longrightarrow>
        (\<exists>txn'. transactions s' t = Some txn' \<and> leader txn' = leader txn))"

lemma grows_refl [simp]: "grows s s"
  by (simp add: grows_def)

lemma grows_request:
  assumes "grows s s'" "requests s i = Some r"
  obtains r' where "requests s' i = Some r'" "deadline r' = deadline r" "batches r' = batches r"
    "settled r \<longrightarrow> r' = r"
  using assms unfolding grows_def by blast

lemma grows_transaction:
  assumes "grows s s'" "transactions s t = Some txn"
  obtains txn' where "transactions s' t = Some txn'" "leader txn' = leader txn"
  using assms unfolding grows_def by blast

lemma grows_trans:
  assumes "grows s s'" "grows s' s''"
  shows "grows s s''"
  unfolding grows_def
proof (intro conjI allI impI)
  fix i r
  assume r: "requests s i = Some r"
  obtain r' where 1: "requests s' i = Some r'" "deadline r' = deadline r" "batches r' = batches r"
    "settled r \<longrightarrow> r' = r"
    by (rule grows_request [OF assms(1) r])
  obtain r'' where "requests s'' i = Some r''" "deadline r'' = deadline r'" "batches r'' = batches r'"
    "settled r' \<longrightarrow> r'' = r'"
    by (rule grows_request [OF assms(2) 1(1)])
  with 1 show "\<exists>r'. requests s'' i = Some r' \<and> deadline r' = deadline r \<and> batches r' = batches r \<and>
      (settled r \<longrightarrow> r' = r)"
    by (intro exI [of _ r'']) auto
next
  fix t txn
  assume txn: "transactions s t = Some txn"
  obtain x where x: "transactions s' t = Some x" "leader x = leader txn"
    by (rule grows_transaction [OF assms(1) txn])
  obtain y where "transactions s'' t = Some y" "leader y = leader x"
    by (rule grows_transaction [OF assms(2) x(1)])
  with x show "\<exists>txn'. transactions s'' t = Some txn' \<and> leader txn' = leader txn" by auto
qed

lemma grows_aside: "aside s s' \<Longrightarrow> grows s s'"
  by (simp add: aside_def round_fields_def grows_def)

lemma grows_put: "transactions s t = Some txn \<Longrightarrow> leader txn' = leader txn \<Longrightarrow> grows s (put_transaction t txn' s)"
  by (simp add: grows_def put_transaction_def)

lemma grows_send: "transactions s t = Some txn \<Longrightarrow> grows s (send_statement t txn st now s)"
  by (simp add: grows_def send_statement_def)

lemma grows_join: "transactions s t = Some txn \<Longrightarrow> grows s (join_rounds t txn s)"
  by (simp add: grows_def join_rounds_def with_joined_def)

lemma grows_ended: "transactions s t = Some txn \<Longrightarrow> grows s (ended_state t txn s)"
  by (simp add: grows_def ended_state_def)

lemma grows_settle: "grows s (settle res i s)"
  by (simp add: grows_def settle_def split: option.split)

lemma grows_fold_settle: "grows s (fold (settle res) is s)"
proof (induction "is" arbitrary: s)
  case (Cons i "is")
  from grows_trans [OF grows_settle Cons] show ?case by simp
qed simp

lemma grows_resolve: "grows s (resolve_members rows offset is s)"
proof (induction "is" arbitrary: s offset)
  case (Cons i "is")
  from grows_trans [OF grows_settle Cons] show ?case by (simp add: Let_def)
qed simp

lemma grows_start_next:
  assumes "rounds_ok s"
  shows "grows s (start_next s)"
proof (cases "current s = None \<and> pick_leader s (waiting s) \<noteq> None")
  case True
  then obtain l where cur: "current s = None" and l: "pick_leader s (waiting s) = Some l" by auto
  have fresh: "transactions s (next_transaction s) = None"
    using rounds_okD(1) [OF assms, of "next_transaction s"]
    by (cases "transactions s (next_transaction s)") (auto simp: transaction_ok_def)
  show ?thesis
    by (rule start_next_run [OF cur l]) (use fresh in \<open>auto simp: round_fields_def grows_def\<close>)
qed (auto simp: start_next_def grows_def)

text \<open>The end of a transaction, with what the answers of its members can be.\<close>

lemma end_transaction_mid:
  assumes "rounds_ok s" "transactions s t = Some txn" "\<not> ended txn"
  obtains m where "end_transaction cap t outcome s = start_next m" "rounds_ok m" "grows s m"
    "sent m = sent s"
    "requests m = (case outcome of
       Inr rows \<Rightarrow> requests (resolve_members rows 0 (members txn) (ended_state t txn s))
     | Inl e \<Rightarrow> requests (fold (settle (Inl e)) (members txn) s))"
proof -
  let ?s = "ended_state t txn s"
  have cur: "current s = Some t" using current_unended [OF assms] .
  have mid: "rounds_ok m" if "aside ?s a" "answers (set (members txn)) a b" "aside b m" for a b m
  proof -
    have "rounds_ok_but (set (members txn)) a"
      using rounds_ok_ended [OF assms(1,2) cur] that(1) by (rule rounds_ok_aside)
    then have "rounds_ok b" using rounds_ok_answers [OF _ that(2)] by fastforce
    then show ?thesis using that(3) by (rule rounds_ok_aside)
  qed
  have settle_requests: "requests (settle res i x) = requests (settle res i y)" if "requests x = requests y"
    for res i x y using that by (simp add: settle_def split: option.split)
  have fold_requests: "requests (fold (settle res) is x) = requests (fold (settle res) is y)"
    if "requests x = requests y" for res "is" x y
    using that
  proof (induction "is" arbitrary: x y)
    case (Cons i "is")
    from Cons.IH [OF settle_requests [OF Cons.prems]] show ?case by simp
  qed simp
  show thesis
  proof (cases outcome)
    case (Inr rows)
    let ?m = "resolve_members rows 0 (members txn) ?s"
    show ?thesis
    proof (rule that)
      show "end_transaction cap t outcome s = start_next ?m"
        using assms(2,3) cur by (simp add: end_transaction_def ended_state_def Inr)
      show "rounds_ok ?m" by (rule mid [OF aside_refl answers_resolve aside_refl])
      show "grows s ?m" using grows_ended [OF assms(2)] grows_resolve by (rule grows_trans)
      show "sent ?m = sent s" using answersD(5) [OF answers_resolve] by (simp add: ended_state_def)
    qed (simp add: Inr)
  next
    case (Inl e)
    define a where "a = (case pending txn of
        Connect c \<Rightarrow> if lent txn \<and> e \<noteq> Round_Expired_Cleanly then discard cap c False ?s else ?s
      | Refused \<Rightarrow> ?s)"
    let ?b = "fold (settle (Inl e)) (members txn) a"
    have a: "aside ?s a" by (simp add: a_def aside_discard split: pending_client.split)
    have b: "answers (set (members txn)) a ?b" by (rule answers_fold_settle)
    show ?thesis
    proof (rule that)
      show "end_transaction cap t outcome s = start_next (reserve ?b)"
        using assms(2,3) cur
        by (cases "pending txn") (simp_all add: end_transaction_def ended_state_def Inl a_def Let_def)
      show "rounds_ok (reserve ?b)" by (rule mid [OF a b aside_reserve])
      have "grows s a" using grows_ended [OF assms(2)] grows_aside [OF a] by (rule grows_trans)
      then have "grows s ?b" using grows_fold_settle by (rule grows_trans)
      then show "grows s (reserve ?b)" using grows_aside [OF aside_reserve] by (rule grows_trans)
      have r: "requests (reserve ?b) = requests ?b" "sent (reserve ?b) = sent ?b"
        using aside_reserve [of ?b] by (simp_all add: aside_def round_fields_def)
      have "requests a = requests s" "sent a = sent s"
        using a by (simp_all add: aside_def round_fields_def ended_state_def)
      then show "sent (reserve ?b) = sent s" and "requests (reserve ?b) = (case outcome of
          Inr rows \<Rightarrow> requests (resolve_members rows 0 (members txn) ?s)
        | Inl e \<Rightarrow> requests (fold (settle (Inl e)) (members txn) s))"
        using fold_requests [of a s] answersD(5) [OF b] by (simp_all add: r Inl)
    qed
  qed
qed

lemma grows_end:
  assumes "rounds_ok s" "transactions s t = Some txn"
  shows "grows s (end_transaction cap t outcome s)"
proof (cases "ended txn")
  case False
  obtain m where "end_transaction cap t outcome s = start_next m" "rounds_ok m" "grows s m"
    by (rule end_transaction_mid [OF assms False, of cap outcome])
  then show ?thesis using grows_trans grows_start_next by metis
qed (simp add: end_transaction_ended [OF assms(2)])

lemma grows_new_request:
  assumes "rounds_ok s"
  shows "grows s (request_starts i now timeout built s)"
proof (cases "requests s i = None")
  case True
  have "rounds_ok (s\<lparr>requests := (requests s)(i \<mapsto> r), waiting := waiting s @ [i]\<rparr>)" for r
    by (rule rounds_ok_new_request [OF assms True]) simp
  moreover have "grows s (s\<lparr>requests := (requests s)(i \<mapsto> r), waiting := w\<rparr>)"
    "grows s (s\<lparr>requests := (requests s)(i \<mapsto> r)\<rparr>)" for r w
    using True by (auto simp: grows_def)
  ultimately show ?thesis
    using grows_trans [OF _ grows_start_next] by (auto simp: request_starts_def split: sum.split)
qed (simp add: request_starts_def)

lemma grows_wait_ends: "grows s (settle res i (s\<lparr>waiting := w\<rparr>))"
  by (rule grows_trans [OF _ grows_settle]) (simp add: grows_def)

interpretation growth: transaction_invariant cap "\<lambda>s. rounds_ok s \<and> grows s0 s" for cap s0
proof (unfold_locales, goal_cases)
  case (1 s s')
  then show ?case by (blast intro: rounds_ok_aside grows_trans grows_aside)
next
  case (2 s t txn)
  then show ?case by (blast dest: rounds_ok_lent)
next
  case (3 s t txn txn')
  then show ?case
    by (auto intro!: rounds_ok_put grows_trans [OF _ grows_put [of s t txn]] simp: same_round_def)
next
  case (4 s t txn now st)
  then show ?case using grows_trans [OF _ grows_send] by (auto intro!: rounds_ok_send)
next
  case (5 s t txn)
  then show ?case using grows_trans [OF _ grows_join] by (auto intro!: rounds_ok_join)
next
  case (6 s t txn e)
  then show ?case using grows_trans [OF _ grows_end] by (auto intro!: rounds_ok_end)
next
  case (7 s i now timeout built)
  then show ?case using grows_trans [OF _ grows_new_request] by (auto intro!: rounds_ok_request)
next
  case (8 s i e)
  then show ?case using grows_trans [OF _ grows_wait_ends] by (auto intro!: rounds_ok_wait_ends)
next
  case (9 s t txn rows)
  then show ?case using grows_trans [OF _ grows_end] by (auto intro!: rounds_ok_end)
qed

lemma deadline_of_grows:
  assumes "grows s s'" "requests s i \<noteq> None"
  shows "deadline_of s' i = deadline_of s i"
proof -
  from assms(2) obtain r where r: "requests s i = Some r" by auto
  show ?thesis by (rule grows_request [OF assms(1) r]) (simp add: deadline_of_def r)
qed

definition sent_ok :: "reserved \<Rightarrow> bool" where
  "sent_ok s \<longleftrightarrow>
     (\<forall>t st now. (t, st, now) \<in> set (sent s) \<longrightarrow>
        (\<exists>txn. transactions s t = Some txn \<and> now < deadline_of s (leader txn)))"

lemma leader_request: "rounds_ok s \<Longrightarrow> transactions s t = Some txn \<Longrightarrow> requests s (leader txn) \<noteq> None"
  using rounds_okD(1) by (fastforce simp: transaction_ok_def)

lemma sent_ok_grows:
  assumes "rounds_ok s" "sent_ok s" "grows s s'" "sent s' = sent s"
  shows "sent_ok s'"
  unfolding sent_ok_def
proof (intro allI impI)
  fix t st now
  assume "(t, st, now) \<in> set (sent s')"
  then obtain txn where txn: "transactions s t = Some txn" "now < deadline_of s (leader txn)"
    using assms(2,4) by (fastforce simp: sent_ok_def)
  show "\<exists>txn. transactions s' t = Some txn \<and> now < deadline_of s' (leader txn)"
    by (rule grows_transaction [OF assms(3) txn(1)])
      (use txn(2) deadline_of_grows [OF assms(3) leader_request [OF assms(1) txn(1)]] in auto)
qed

lemma sent_ok_send:
  assumes "rounds_ok s" "sent_ok s" "transactions s t = Some txn" "\<not> late txn s now"
  shows "sent_ok (send_statement t txn st now s)"
proof -
  let ?s = "(send_statement t txn st now s)\<lparr>sent := sent s\<rparr>"
  have "grows s ?s" using assms(3) by (simp add: grows_def send_statement_def)
  then have "sent_ok ?s" by (rule sent_ok_grows [OF assms(1,2)]) simp
  moreover have "deadline_of ?s i = deadline_of s i" for i by (simp add: deadline_of_def send_statement_def)
  ultimately show ?thesis
    using assms(3,4) by (auto simp: sent_ok_def send_statement_def late_def deadline_of_def)
qed

lemma end_transaction_sent:
  assumes "rounds_ok s" "transactions s t = Some txn"
  shows "sent (end_transaction cap t outcome s) = sent s"
proof (cases "ended txn")
  case False
  show ?thesis
    by (rule end_transaction_mid [OF assms False, of cap outcome]) (simp add: start_next_sent)
qed (simp add: end_transaction_ended [OF assms(2)])

lemma settle_sent: "sent (settle res i s) = sent s"
  using answersD(5) [OF answers_settle] .

interpretation in_time: transaction_invariant cap "\<lambda>s. rounds_ok s \<and> sent_ok s" for cap
proof (unfold_locales, goal_cases)
  case (1 s s')
  then have "sent s' = sent s" by (simp add: aside_def round_fields_def)
  with 1 show ?case
    using rounds_ok_aside [of "{}" s s'] sent_ok_grows [OF _ _ grows_aside, of s s'] by simp
next
  case (2 s t txn)
  then show ?case using rounds_ok_lent [of s t txn] by simp
next
  case (3 s t txn txn')
  have "sent_ok (put_transaction t txn' s)"
    by (rule sent_ok_grows [OF _ _ grows_put [of s t txn]]) (use 3 in \<open>simp_all add: same_round_def put_transaction_def\<close>)
  then show ?case using 3 rounds_ok_put [of s t txn txn'] by simp
next
  case (4 s t txn now st)
  then show ?case using rounds_ok_send [of s t txn] sent_ok_send [of s t txn] by simp
next
  case (5 s t txn)
  have "sent_ok (join_rounds t txn s)"
    by (rule sent_ok_grows [OF _ _ grows_join]) (use 5 in \<open>simp_all add: join_rounds_def\<close>)
  then show ?case using 5 rounds_ok_join [of s t txn] by simp
next
  case (6 s t txn e)
  have "sent_ok (end_transaction cap t (Inl e) s)"
    by (rule sent_ok_grows [OF _ _ grows_end [of s t txn]]) (use 6 end_transaction_sent [of s t txn] in simp_all)
  then show ?case using 6 rounds_ok_end [of s t txn] by simp
next
  case (7 s i now timeout built)
  have "sent (request_starts i now timeout built s) = sent s"
    by (simp add: request_starts_def start_next_sent split: sum.split)
  with 7 show ?case using sent_ok_grows [OF _ _ grows_new_request] by (simp add: rounds_ok_request)
next
  case (8 s i e)
  have "sent_ok (settle (Inl e) i (s\<lparr>waiting := remove1 i (waiting s)\<rparr>))"
    by (rule sent_ok_grows [OF _ _ grows_wait_ends]) (use 8 in \<open>simp_all add: settle_sent\<close>)
  with 8 show ?case by (simp add: rounds_ok_wait_ends)
next
  case (9 s t txn rows)
  have "sent_ok (end_transaction cap t (Inr rows) s)"
    by (rule sent_ok_grows [OF _ _ grows_end [of s t txn]]) (use 9 end_transaction_sent [of s t txn] in simp_all)
  then show ?case using 9 rounds_ok_end [of s t txn] by simp
qed

lemma run_sent_ok: "sent_ok (reserved_run cap es)"
  using in_time.run_keeps [of cap es] by (simp add: rounds_ok_new sent_ok_def) (simp add: new_reserved_def)

section \<open>Rows come from a commit in time\<close>

definition got_rows :: "reserved \<Rightarrow> nat \<Rightarrow> bool" where
  "got_rows s i \<longleftrightarrow> (\<exists>r rows. requests s i = Some r \<and> answer r = Some (Inr rows))"

lemma got_rows_requests: "requests s' = requests s \<Longrightarrow> got_rows s' = got_rows s"
  by (simp add: got_rows_def fun_eq_iff)

lemma got_rows_settle: "got_rows (settle (Inl e) i s) = got_rows s"
  by (auto simp: got_rows_def settle_def fun_eq_iff split: option.split)

lemma got_rows_fold: "got_rows (fold (settle (Inl e)) is s) = got_rows s"
  by (induction "is" arbitrary: s) (simp_all add: got_rows_settle)

lemma got_rows_end:
  assumes "rounds_ok s" "transactions s t = Some txn"
  shows "got_rows (end_transaction cap t (Inl e) s) = got_rows s"
proof (cases "ended txn")
  case False
  show ?thesis
  proof (rule end_transaction_mid [OF assms False, of cap "Inl e"])
    fix m
    assume run: "end_transaction cap t (Inl e) s = start_next m"
      and m: "requests m = (case Inl e of
        Inr rows \<Rightarrow> requests (resolve_members rows 0 (members txn) (ended_state t txn s))
      | Inl e \<Rightarrow> requests (fold (settle (Inl e)) (members txn) s))"
    have "got_rows (start_next m) = got_rows (fold (settle (Inl e)) (members txn) s)"
      by (rule got_rows_requests) (simp add: m start_next_requests)
    then show ?thesis by (simp add: run got_rows_fold)
  qed
qed (simp add: end_transaction_ended [OF assms(2)])

lemma got_rows_request: "got_rows (request_starts i now timeout built s) = got_rows s"
proof -
  have put: "got_rows (s\<lparr>requests := (requests s)(i \<mapsto> r), waiting := w\<rparr>) = got_rows s"
    "got_rows (s\<lparr>requests := (requests s)(i \<mapsto> r)\<rparr>) = got_rows s"
    if "requests s i = None" "\<And>rows. answer r \<noteq> Some (Inr rows)" for r w
    using that by (auto simp: got_rows_def fun_eq_iff)
  have "got_rows (start_next x) = got_rows x" for x
    by (rule got_rows_requests) (rule start_next_requests)
  then show ?thesis
    by (simp add: request_starts_def put split: sum.split)
qed

lemma got_rows_wait_ends: "got_rows (settle (Inl e) i (s\<lparr>waiting := w\<rparr>)) = got_rows s"
  unfolding got_rows_settle by (rule got_rows_requests) simp

lemma got_rows_aside: "aside s s' \<Longrightarrow> got_rows s' = got_rows s"
  by (rule got_rows_requests) (simp add: aside_def round_fields_def)

interpretation no_rows: transaction_errors cap "\<lambda>s. rounds_ok s \<and> got_rows s = g" for cap g
proof (unfold_locales, goal_cases)
  case (1 s s')
  then show ?case using got_rows_aside [of s s'] rounds_ok_aside [of "{}" s s'] by simp
next
  case (2 s t txn)
  then show ?case using rounds_ok_lent [of s t txn] by simp
next
  case (3 s t txn txn')
  have "got_rows (put_transaction t txn' s) = got_rows s"
    by (rule got_rows_requests) (simp add: put_transaction_def)
  with 3 show ?case using rounds_ok_put [of s t txn txn'] by simp
next
  case (4 s t txn now st)
  have "got_rows (send_statement t txn st now s) = got_rows s"
    by (rule got_rows_requests) (simp add: send_statement_def)
  with 4 show ?case using rounds_ok_send [of s t txn] by simp
next
  case (5 s t txn)
  have "got_rows (join_rounds t txn s) = got_rows s"
    by (rule got_rows_requests) (simp add: join_rounds_def)
  with 5 show ?case using rounds_ok_join [of s t txn] by simp
next
  case (6 s t txn e)
  then show ?case using got_rows_end [of s t txn cap e] rounds_ok_end [of s t txn cap "Inl e"] by simp
next
  case (7 s i now timeout built)
  then show ?case by (simp add: rounds_ok_request got_rows_request)
next
  case (8 s i e)
  then show ?case by (simp add: rounds_ok_wait_ends got_rows_wait_ends)
qed

text \<open>A round gets rows only in the callback of a \<^verbatim>\<open>COMMIT\<close> that returns before the deadline of its leader.\<close>

lemma rows_from_commit:
  assumes "rounds_ok s" "got_rows (reserved_step cap e s) i" "\<not> got_rows s i"
  obtains t x clk txn rows where "e = Statement_Returns t (Inr x) clk" "transactions s t = Some txn"
    "in_flight txn = Some (Commit rows)" "\<not> late txn s (clk 0)"
proof -
  have same: "got_rows (reserved_step cap e s) = got_rows s"
    if "\<And>t res clk. e \<noteq> Statement_Returns t res clk"
  proof (cases "round_event e")
    case True
    have keeps: "got_rows (timed_out cap j s) = got_rows s"
      "got_rows (transact_resumes cap t clk s) = got_rows s" for j t clk
      using no_rows.timed_out_keeps [of s "got_rows s"] no_rows.transact_resumes_keeps [of s "got_rows s"]
        assms(1) by blast+
    show ?thesis
    proof (cases e)
      case (Statement_Returns t res clk)
      then show ?thesis using that by blast
    qed (use True in \<open>simp_all add: got_rows_request keeps\<close>)
  qed (rule got_rows_aside, rule step_aside)
  then obtain t res clk where e: "e = Statement_Returns t res clk"
    using assms(2,3) by metis
  show thesis
  proof (cases "\<exists>x txn rows. res = Inr x \<and> transactions s t = Some txn \<and> in_flight txn = Some (Commit rows) \<and> \<not> late txn s (clk 0)")
    case True
    then show ?thesis using that e by blast
  next
    case False
    have "rounds_ok (statement_returns cap t res clk s) \<and> got_rows (statement_returns cap t res clk s) = got_rows s"
      by (rule no_rows.statement_fails_keeps) (use assms(1) False in auto)
    then show ?thesis using assms(2,3) by (simp add: e)
  qed
qed

end
