(* ===== verification/Heartbeat_Connection_Properties.thy ===== *)
theory Heartbeat_Connection_Properties
  imports Heartbeat_Connection_Invariants
begin

text \<open>
  What the shared heartbeat connection promises its rounds: each round has a transaction to wait for,
  gets the rows of its own batches and only before its deadline, and a session runs one transaction.
\<close>

section \<open>A waiting round has a transaction ahead of it\<close>

definition busy :: "reserved \<Rightarrow> bool" where
  "busy s \<longleftrightarrow> (current s = None \<longrightarrow> (\<forall>i \<in> set (waiting s). is_settled s i))"

lemma busy_start_next: "busy (start_next s)"
proof (cases "current s")
  case None
  show ?thesis
  proof (cases "pick_leader s (waiting s)")
    case unled: None
    then show ?thesis
      using pick_leader_None [OF unled] by (auto simp: start_next_def busy_def None is_settled_def)
  next
    case (Some l)
    show ?thesis
      by (rule start_next_run [OF None Some]) (simp add: busy_def round_fields_def)
  qed
qed (simp add: start_next_def busy_def)

lemma busy_fields:
  assumes "busy s" "current s' = current s" "waiting s' = waiting s" "requests s' = requests s"
  shows "busy s'"
proof -
  have "is_settled s' = is_settled s" by (simp add: is_settled_def fun_eq_iff assms(4))
  then show ?thesis using assms(1) by (simp add: busy_def assms(2,3))
qed

lemma busy_aside: "busy s \<Longrightarrow> aside s s' \<Longrightarrow> busy s'"
  by (erule busy_fields) (simp_all add: aside_def round_fields_def)

lemma busy_put: "busy s \<Longrightarrow> busy (put_transaction t txn s)"
  by (erule busy_fields) (simp_all add: put_transaction_def)

lemma busy_send: "busy s \<Longrightarrow> busy (send_statement t txn st now s)"
  by (erule busy_fields) (simp_all add: send_statement_def)

lemma busy_end:
  assumes "busy s" "rounds_ok s" "transactions s t = Some txn"
  shows "busy (end_transaction cap t outcome s)"
proof (cases "ended txn")
  case False
  show ?thesis
    by (rule end_transaction_mid [OF assms(2,3) False, of cap outcome]) (simp add: busy_start_next)
qed (simp add: end_transaction_ended [OF assms(3)] assms(1))

lemma busy_put_request:
  "busy s \<Longrightarrow> settled r \<Longrightarrow> busy (s\<lparr>requests := (requests s)(i \<mapsto> r)\<rparr>)"
  by (simp add: busy_def is_settled_def)

lemma busy_request:
  assumes "busy s"
  shows "busy (request_starts i now timeout built s)"
  using assms
  by (simp add: request_starts_def busy_start_next busy_put_request split: sum.split)

lemma busy_wait_ends:
  assumes "busy s"
  shows "busy (settle res i (s\<lparr>waiting := remove1 i (waiting s)\<rparr>))"
proof -
  let ?s = "s\<lparr>waiting := remove1 i (waiting s)\<rparr>"
  note A = answersD [OF answers_settle [of i ?s res]]
  have "is_settled ?s j = is_settled s j" for j by (simp add: is_settled_def)
  then have settled: "is_settled s j \<Longrightarrow> is_settled (settle res i ?s) j" for j by (simp add: A(11))
  show ?thesis
    unfolding busy_def A(1,2)
  proof (intro impI ballI)
    fix j
    assume "current ?s = None" "j \<in> set (waiting ?s)"
    then have "is_settled s j"
      using assms notin_set_remove1 [of j "waiting s" i] by (auto simp: busy_def)
    then show "is_settled (settle res i ?s) j" by (rule settled)
  qed
qed

lemma busy_join:
  assumes "rounds_ok s" "transactions s t = Some txn" "\<not> ended txn"
  shows "busy (join_rounds t txn s)"
  using current_unended [OF assms] by (simp add: busy_def join_rounds_def)

interpretation busy: transaction_invariant cap "\<lambda>s. rounds_ok s \<and> busy s" for cap
proof (unfold_locales, goal_cases)
  case (1 s s')
  then show ?case using rounds_ok_aside [of "{}" s s'] busy_aside [of s s'] by simp
next
  case (2 s t txn)
  then show ?case using rounds_ok_lent [of s t txn] by simp
next
  case (3 s t txn txn')
  then show ?case using rounds_ok_put [of s t txn txn'] by (simp add: busy_put)
next
  case (4 s t txn now st)
  then show ?case using rounds_ok_send [of s t txn] by (simp add: busy_send)
next
  case (5 s t txn)
  then show ?case using rounds_ok_join [of s t txn] busy_join [of s t txn] by simp
next
  case (6 s t txn e)
  then show ?case using rounds_ok_end [of s t txn] busy_end [of s t txn] by simp
next
  case (7 s i now timeout built)
  from 7 show ?case by (simp add: rounds_ok_request busy_request)
next
  case (8 s i e)
  then show ?case by (simp add: rounds_ok_wait_ends busy_wait_ends)
next
  case (9 s t txn rows)
  then show ?case using rounds_ok_end [of s t txn] busy_end [of s t txn] by simp
qed

lemma run_busy: "busy (reserved_run cap es)"
  using busy.run_keeps [of cap es] by (simp add: rounds_ok_new) (simp add: busy_def new_reserved_def)

section \<open>The rows of a round\<close>

lemma settle_other: "j \<noteq> i \<Longrightarrow> requests (settle res i s) j = requests s j"
  by (simp add: settle_def split: option.split)

lemma resolve_members_other: "i \<notin> set is \<Longrightarrow> requests (resolve_members rows offset is s) i = requests s i"
  by (induction "is" arbitrary: s offset) (simp_all add: Let_def settle_other)

lemma resolve_members_answer:
  assumes "distinct (pre @ i # post)" "requests s i = Some r" "\<not> settled r"
  shows "requests (resolve_members rows offset (pre @ i # post) s) i =
    Some (r\<lparr>answer := Some (Inr (member_rows
      (offset + length (concat (map (batches_of s) pre)))
      (offset + length (concat (map (batches_of s) pre)) + length (batches r)) rows))\<rparr>)"
  using assms
proof (induction pre arbitrary: s offset)
  case Nil
  then show ?case
    by (simp add: Let_def resolve_members_other settle_def batches_of_def)
next
  case (Cons j pre)
  let ?hi = "offset + length (batches_of s j)"
  let ?s = "settle (Inr (member_rows offset ?hi rows)) j s"
  have "batches_of ?s = batches_of s"
    using answersD(10) [OF answers_settle] by (simp add: fun_eq_iff)
  moreover have "requests ?s i = Some r"
    using Cons.prems by (simp add: settle_other)
  ultimately show ?case
    using Cons.IH [of ?s ?hi] Cons.prems by (simp add: Let_def add.assoc)
qed

lemma take_drop_concat:
  "take (length (f i)) (drop (length (concat (map f pre))) (concat (map f (pre @ i # post)))) = f i"
  by simp

lemma commit_step:
  assumes "transactions s t = Some txn" "in_flight txn = Some (Commit rows)" "\<not> late txn s (clk 0)"
  shows "statement_returns cap t (Inr x) clk s =
    end_transaction cap t (Inr rows) (put_transaction t (txn\<lparr>in_flight := None\<rparr>) s)"
  using assms by (simp add: statement_returns_def Let_def put_transaction_def late_def deadline_of_def)

lemma commit_requests:
  assumes "rounds_ok s" "transactions s t = Some txn" "in_flight txn = Some (Commit rows)"
    and "\<not> late txn s (clk 0)"
  obtains a where "requests (statement_returns cap t (Inr x) clk s) =
      requests (resolve_members rows 0 (members txn) a)"
    and "requests a = requests s"
proof -
  let ?txn = "txn\<lparr>in_flight := None\<rparr>"
  let ?s = "put_transaction t ?txn s"
  have ok: "rounds_ok ?s" by (rule rounds_ok_put [OF assms(1,2)]) (simp_all add: same_round_def)
  have txn: "transactions ?s t = Some ?txn" by (simp add: put_transaction_def)
  have "\<not> ended ?txn" using assms(4) by (simp add: late_def)
  then show thesis
  proof (rule end_transaction_mid [OF ok txn, of cap "Inr rows"])
    fix m
    assume "end_transaction cap t (Inr rows) ?s = start_next m"
      and "requests m = (case Inr rows of
         Inr rows \<Rightarrow> requests (resolve_members rows 0 (members ?txn) (ended_state t ?txn ?s))
       | Inl e \<Rightarrow> requests (fold (settle (Inl e)) (members ?txn) ?s))"
    then show thesis
      using that [of "ended_state t ?txn ?s"] commit_step [of s t txn rows clk cap x] assms(2-)
      by (simp add: start_next_requests ended_state_def put_transaction_def)
  qed
qed

section \<open>A run with two rounds\<close>

text \<open>
  Round 0 starts a transaction, round 1 joins it before its heartbeat goes out, and both get the
  rows of their own batches.
\<close>

definition sample_batch :: "string \<Rightarrow> pool_batch" where
  "sample_batch w = \<lparr>batch_worker = w, batch_leases = [''lease'']\<rparr>"

definition sample_row :: "nat \<Rightarrow> pool_row" where
  "sample_row b = \<lparr>row_batch = b, row_task = ''task'', row_status = Hb_Accepted\<rparr>"

definition sample_events :: "reserved_event list" where
  "sample_events =
    [Request_Starts 0 0 1000 (Inr [sample_batch ''a'']),
     Connect_Settles 0 True,
     Transact_Resumes 0 (\<lambda>_. 10),
     Request_Starts 1 11 1000 (Inr [sample_batch ''b'', sample_batch ''c'']),
     Statement_Returns 0 (Inr []) (\<lambda>_. 12),
     Statement_Returns 0 (Inr []) (\<lambda>_. 13),
     Statement_Returns 0 (Inr [sample_row 3, sample_row 1]) (\<lambda>_. 14)]"

definition sample_commit :: reserved_event where
  "sample_commit = Statement_Returns 0 (Inr []) (\<lambda>_. 15)"

lemmas sample_defs = sample_events_def sample_commit_def sample_batch_def sample_row_def

lemmas run_defs = reserved_run_def new_reserved_def request_starts_def start_next_def acquire_def
  connect_settles_def adopt_def became_ready_def transact_resumes_def start_attempt_def
  statement_returns_def send_statement_def send_heartbeat_def join_rounds_def with_joined_def joins_def
  end_transaction_def settle_def is_settled_def deadline_of_def batches_of_def member_rows_def
  late_def MINIMUM_REMAINING_MS_def Let_def usable_def

lemma sample_run:
  "requests (reserved_run None sample_events) 1 = Some \<lparr>batches = [sample_batch ''b'', sample_batch ''c''],
     deadline = 1011, timeout_ms = 1000, answer = None\<rparr>"
  "transactions (reserved_run None sample_events) 0 = Some \<lparr>leader = 0, members = [0, 1],
     pending = Connect 0, lent = True, ended = False, attempt_number = 1, heartbeat_sent = True,
     in_flight = Some (Commit [sample_row 3, sample_row 1])\<rparr>"
  "current (reserved_run None sample_events) = Some 0"
  "deadline_of (reserved_run None sample_events) 0 = 1000"
  by (simp_all add: sample_defs run_defs)

lemma sample_answer:
  "requests (reserved_step None sample_commit (reserved_run None sample_events)) 1 =
     Some \<lparr>batches = [sample_batch ''b'', sample_batch ''c''], deadline = 1011, timeout_ms = 1000,
       answer = Some (Inr [sample_row 2])\<rparr>"
  by (simp add: sample_defs run_defs)

section \<open>The properties\<close>

text \<open>
  C20. No round is forgotten: after any sequence of callbacks, a round without an answer has a
  transaction in flight, and it is a member of it or waits for it to end.\<close>

theorem heartbeat_round_has_transaction:
  assumes "requests (reserved_run cap es) i = Some r" "answer r = None"
  shows "\<exists>t txn. current (reserved_run cap es) = Some t \<and>
    transactions (reserved_run cap es) t = Some txn \<and> \<not> ended txn \<and>
    (i \<in> set (members txn) \<or> i \<in> set (waiting (reserved_run cap es)))"
proof -
  define s where "s = reserved_run cap es"
  have ok: "rounds_ok s" and b: "busy s" by (simp_all add: s_def run_rounds_ok run_busy)
  have i: "\<not> is_settled s i" using assms by (simp add: is_settled_def s_def)
  have at: "i \<in> set (waiting s) \<or> in_transaction s i" using rounds_okD(5) [OF ok i] by blast
  then have "current s \<noteq> None" using b i by (auto simp: busy_def in_transaction_def)
  then obtain t txn where t: "current s = Some t" "transactions s t = Some txn"
    using rounds_okD(2) [OF ok] by fastforce
  have "\<not> ended txn" using rounds_okD(1) [OF ok t(2)] t(1) by (simp add: transaction_ok_def)
  then show ?thesis using t at by (auto simp: s_def in_transaction_def)
qed

theorem heartbeat_round_has_transaction_witness:
  "\<exists>t txn. current (reserved_run None sample_events) = Some t \<and>
    transactions (reserved_run None sample_events) t = Some txn \<and> \<not> ended txn \<and>
    (1 \<in> set (members txn) \<or> 1 \<in> set (waiting (reserved_run None sample_events)))"
  by (rule heartbeat_round_has_transaction [OF sample_run(1)]) simp

text \<open>
  C21. A session runs one transaction: two transactions never have statements in flight on the same
  client, and the client of a transaction that ended with a statement in flight is no longer the
  connection's client, so no later transaction can get it.\<close>

theorem heartbeat_session_one_transaction:
  assumes "transactions (reserved_run cap es) t = Some x" "in_flight x \<noteq> None" "pending x = Connect c"
  shows "(transactions (reserved_run cap es) u = Some y \<and> in_flight y \<noteq> None \<and> pending y = Connect c
      \<longrightarrow> t = u) \<and>
    (ended x \<longrightarrow> client (reserved_run cap es) \<noteq> Some c)"
proof -
  define s where "s = reserved_run cap es"
  note D = session_okD [OF run_session_ok [of cap es], folded s_def]
  have t: "uses_client s t c" using assms by (auto simp: s_def uses_client_def)
  have "transactions s u = Some y \<Longrightarrow> in_flight y \<noteq> None \<Longrightarrow> pending y = Connect c \<Longrightarrow> t = u"
    using D(5) [OF t, of u] by (auto simp: uses_client_def)
  moreover have "ended x \<Longrightarrow> current s \<noteq> Some t"
    using rounds_okD(1) [OF run_rounds_ok, of cap es t x] assms(1) by (simp add: s_def transaction_ok_def)
  ultimately show ?thesis using D(3) [OF t] by (auto simp: s_def)
qed

theorem heartbeat_session_one_transaction_witness:
  "(\<exists>y. transactions (reserved_run None sample_events) 1 = Some y \<and> in_flight y \<noteq> None \<and>
      pending y = Connect 0) = False"
proof -
  have "(0::nat) = 1" if "transactions (reserved_run None sample_events) 1 = Some y \<and> in_flight y \<noteq> None \<and>
      pending y = Connect 0" for y
    using heartbeat_session_one_transaction
      [OF sample_run(2), where u = 1 and y = y and c = 0] that by simp
  then show ?thesis by auto
qed

text \<open>
  C22. A round is told that its leases were renewed only in time: the callback that gives it rows is
  a \<^verbatim>\<open>COMMIT\<close> of its own transaction that returned before the deadline of the round.\<close>

theorem heartbeat_rows_in_time:
  assumes "requests (reserved_step cap e (reserved_run cap es)) i = Some r" "answer r = Some (Inr rows)"
    and "requests (reserved_run cap es) i = Some r0" "answer r0 = None"
  shows "\<exists>t x clk txn all. e = Statement_Returns t (Inr x) clk \<and>
    transactions (reserved_run cap es) t = Some txn \<and> in_flight txn = Some (Commit all) \<and>
    i \<in> set (members txn) \<and> clk 0 < deadline r0"
proof -
  define s where "s = reserved_run cap es"
  have ok: "rounds_ok s" by (simp add: s_def run_rounds_ok)
  have r0: "requests s i = Some r0" using assms(3) by (simp add: s_def)
  have got: "got_rows (reserved_step cap e s) i" "\<not> got_rows s i"
    using assms by (auto simp: got_rows_def s_def)
  show ?thesis
  proof (rule rows_from_commit [OF ok got])
    fix t x clk txn all
    assume e: "e = Statement_Returns t (Inr x) clk" and txn: "transactions s t = Some txn"
      and c: "in_flight txn = Some (Commit all)" and in_time: "\<not> late txn s (clk 0)"
    have i: "i \<in> set (members txn)"
    proof (rule ccontr)
      assume i: "i \<notin> set (members txn)"
      have "requests (statement_returns cap t (Inr x) clk s) i = requests s i"
        by (rule commit_requests [OF ok txn c, of clk cap x, OF in_time]) (simp add: resolve_members_other [OF i])
      then show False using got by (simp add: e got_rows_def)
    qed
    have "deadline_of s (leader txn) \<le> deadline r0"
      using rounds_okD(1) [OF ok txn] i r0 by (fastforce simp: transaction_ok_def deadline_of_def)
    then show ?thesis using e txn c in_time i by (auto simp: s_def late_def)
  qed
qed

theorem heartbeat_rows_in_time_witness:
  "\<exists>t x clk txn all. sample_commit = Statement_Returns t (Inr x) clk \<and>
    transactions (reserved_run None sample_events) t = Some txn \<and> in_flight txn = Some (Commit all) \<and>
    1 \<in> set (members txn) \<and> clk 0 < 1011"
  using heartbeat_rows_in_time [OF sample_answer _ sample_run(1), of "[sample_row 2]"] by simp

text \<open>
  C23. Each round gets its own rows: when the \<^verbatim>\<open>COMMIT\<close> returns in time, a member whose batches stand in
  the payload from position \<open>lo\<close> on is answered with exactly the rows of those batches, numbered
  within the batches it asked for.\<close>

theorem heartbeat_rows_of_own_batches:
  assumes "transactions (reserved_run cap es) t = Some txn" "in_flight txn = Some (Commit rows)"
    and "\<not> late txn (reserved_run cap es) (clk 0)" "i \<in> set (members txn)"
    and "requests (reserved_run cap es) i = Some r" "answer r = None"
  shows "\<exists>lo. take (length (batches r)) (drop lo (payload (reserved_run cap es) txn)) = batches r \<and>
    requests (reserved_step cap (Statement_Returns t (Inr x) clk) (reserved_run cap es)) i =
      Some (r\<lparr>answer := Some (Inr (member_rows lo (lo + length (batches r)) rows))\<rparr>)"
proof -
  define s where "s = reserved_run cap es"
  note S = assms [folded s_def]
  have ok: "rounds_ok s" by (simp add: s_def run_rounds_ok)
  obtain pre post where mem: "members txn = pre @ i # post" using S(4) by (meson split_list)
  have dist: "distinct (pre @ i # post)"
    using rounds_okD(1) [OF ok S(1)] by (simp add: transaction_ok_def mem)
  let ?lo = "length (concat (map (batches_of s) pre))"
  have b: "batches_of s i = batches r" using S(5) by (simp add: batches_of_def)
  have "take (length (batches r)) (drop ?lo (payload s txn)) = batches r"
    using take_drop_concat [of "batches_of s" i pre post] by (simp only: payload_def mem b)
  moreover have "requests (reserved_step cap (Statement_Returns t (Inr x) clk) s) i =
      Some (r\<lparr>answer := Some (Inr (member_rows ?lo (?lo + length (batches r)) rows))\<rparr>)"
  proof (rule commit_requests [OF ok S(1,2), of clk cap x, OF S(3)])
    fix a
    assume a: "requests (statement_returns cap t (Inr x) clk s) =
        requests (resolve_members rows 0 (members txn) a)" "requests a = requests s"
    have "batches_of a = batches_of s" by (simp add: batches_of_def a(2) fun_eq_iff)
    then show ?thesis
      using resolve_members_answer [OF dist, of a r rows 0] S(5,6) by (simp add: a mem)
  qed
  ultimately show ?thesis by (auto simp: s_def)
qed

theorem heartbeat_rows_of_own_batches_witness:
  "\<exists>lo. take 2 (drop lo (payload (reserved_run None sample_events)
      \<lparr>leader = 0, members = [0, 1], pending = Connect 0, lent = True, ended = False, attempt_number = 1,
       heartbeat_sent = True, in_flight = Some (Commit [sample_row 3, sample_row 1])\<rparr>)) =
        [sample_batch ''b'', sample_batch ''c''] \<and>
    member_rows lo (lo + 2) [sample_row 3, sample_row 1] = [sample_row 2]"
  using heartbeat_rows_of_own_batches [OF sample_run(2) _ _ _ sample_run(1), where x = "[]" and clk = "\<lambda>_. 15"]
    sample_answer
  by (auto simp: late_def sample_run sample_commit_def numeral_2_eq_2)

text \<open>
  No command goes out late: every statement the connection ever sent, \<^verbatim>\<open>ROLLBACK\<close> and resent
  transactions included, went out before the deadline of the round that leads its transaction.\<close>

lemma heartbeat_statement_in_time:
  assumes "(t, st, now) \<in> set (sent (reserved_run cap es))"
  shows "\<exists>txn. transactions (reserved_run cap es) t = Some txn \<and>
    now < deadline_of (reserved_run cap es) (leader txn)"
  using run_sent_ok [of cap es] assms by (simp add: sent_ok_def)

text \<open>
  The budgets of a round fit: with the least time left that lets a round go on, each server
  budget is at least a millisecond, and the settings statement, the two idle gaps and the heartbeat
  together end by the deadline.\<close>

lemma round_timeouts_fit:
  assumes "MINIMUM_REMAINING_MS \<le> remaining" "elapsed \<le> remaining / 4"
    and "round_timeouts remaining = (statement_ms, idle_ms)"
  shows "1 \<le> statement_ms \<and> 1 \<le> idle_ms \<and>
    elapsed + real_of_int idle_ms + real_of_int statement_ms + real_of_int idle_ms \<le> remaining"
proof -
  have "(2::int) \<le> \<lfloor>remaining / 4\<rfloor>"
    using assms(1) by (simp add: MINIMUM_REMAINING_MS_def le_floor_iff)
  moreover have "real_of_int \<lfloor>remaining / 4\<rfloor> \<le> remaining / 4" by (rule of_int_floor_le)
  ultimately show ?thesis
    using assms(2,3) by (auto simp: round_timeouts_def quarter_ms_def max_def)
qed

end
