(* ===== verification/Sql_Statements.thy ===== *)
theory Sql_Statements
  imports Js_Strings
begin

text \<open>
  The splitter of \<^verbatim>\<open>schema-migrations.ts\<close>, which cuts a migration body into the statements that a
  non-transactional step sends one at a time. The loop keeps the two indices of the source. Each
  branch of the loop body is a function of the text from the index on and gives how far the index
  moves. Every branch moves it forward, so the loop ends.
\<close>

section \<open>The branches of the loop\<close>

definition line_comment :: "js_string \<Rightarrow> nat" where
  "line_comment rest = (case index_of [10] rest of None \<Rightarrow> length rest | Some e \<Rightarrow> e + 1)"

text \<open>Block comments nest.\<close>

fun block_comment :: "int \<Rightarrow> js_string \<Rightarrow> nat" where
  "block_comment depth [] = 0"
| "block_comment depth (c # cs) =
     (if starts_with [47, 42] (c # cs) then 2 + block_comment (depth + 1) (drop 1 cs)
      else if starts_with [42, 47] (c # cs) then
        (if depth - 1 = 0 then 2 else 2 + block_comment (depth - 1) (drop 1 cs))
      else 1 + block_comment depth cs)"

text \<open>The text after an opening quote: a doubled quote goes on, and in an \<^verbatim>\<open>E''\<close> string a backslash skips one.\<close>

fun quoted :: "16 word \<Rightarrow> bool \<Rightarrow> js_string \<Rightarrow> nat" where
  "quoted quote escaping [] = 0"
| "quoted quote escaping (c # cs) =
     (if escaping \<and> c = 92 then 2 + quoted quote escaping (drop 1 cs)
      else if c = quote then
        (if starts_with [quote] cs then 2 + quoted quote escaping (drop 1 cs) else 1)
      else 1 + quoted quote escaping cs)"

text \<open>The match of \<^verbatim>\<open>/^\$([A-Za-z_]\w*)?\$/\<close>.\<close>

definition dollar_tag :: "js_string \<Rightarrow> js_string option" where
  "dollar_tag rest =
     (if starts_with [36] rest then
        let name = takeWhile js_word (tl rest) in
        if (name = [] \<or> \<not> js_digit (hd name)) \<and> starts_with [36] (drop (length name) (tl rest))
        then Some (36 # name @ [36]) else None
      else None)"

definition dollar_quoted :: "js_string \<Rightarrow> js_string \<Rightarrow> nat" where
  "dollar_quoted tag rest =
     (case index_of tag (drop (length tag) rest) of
        None \<Rightarrow> length rest
      | Some close \<Rightarrow> length tag + close + length tag)"

definition ends_with_e :: "js_string \<Rightarrow> bool" where
  "ends_with_e before \<longleftrightarrow> before \<noteq> [] \<and> (last before = 69 \<or> last before = 101)"

text \<open>
  One iteration at a character that does not end the statement: how far the index moves. At a
  semicolon that ends a statement the result is \<open>None\<close>.
\<close>

definition next_token :: "bool \<Rightarrow> js_string \<Rightarrow> nat option" where
  "next_token after_e rest =
     (if starts_with [45, 45] rest then Some (line_comment rest)
      else if starts_with [47, 42] rest then Some (block_comment 0 rest)
      else
        let c = hd rest in
        if c = 39 \<or> c = 34 then Some (1 + quoted c (c = 39 \<and> after_e) (tl rest))
        else
          (case dollar_tag rest of
             Some tag \<Rightarrow> Some (dollar_quoted tag rest)
           | None \<Rightarrow> if c = 59 then None else Some 1))"

section \<open>The loop\<close>

lemma block_comment_moves: "starts_with [47, 42] rest \<Longrightarrow> 0 < block_comment depth rest"
  by (cases rest) simp_all

lemma dollar_tag_length: "dollar_tag rest = Some tag \<Longrightarrow> 2 \<le> length tag"
  by (auto simp: dollar_tag_def Let_def split: if_splits)

lemma next_token_moves: "next_token after_e rest = Some n \<Longrightarrow> rest \<noteq> [] \<Longrightarrow> 0 < n"
  using block_comment_moves [of rest 0] dollar_tag_length [of rest]
  by (auto simp: next_token_def line_comment_def dollar_quoted_def Let_def split: if_splits option.splits)

function split_loop :: "js_string \<Rightarrow> nat \<Rightarrow> nat \<Rightarrow> js_string list \<Rightarrow> js_string list" where
  "split_loop sql start index statements =
     (if length sql \<le> index then
        (let trailing = js_trim (drop start sql) in
         if trailing \<noteq> [] then statements @ [trailing] else statements)
      else
        (case next_token (ends_with_e (take index sql)) (drop index sql) of
           Some n \<Rightarrow> split_loop sql start (index + n) statements
         | None \<Rightarrow>
             let statement = js_trim (drop start (take index sql)) in
             split_loop sql (index + 1) (index + 1)
               (if statement \<noteq> [] then statements @ [statement] else statements)))"
  by pat_completeness auto
termination
proof (relation "measure (\<lambda>(sql, _, index, _). length sql - index)")
  fix sql start index statements n
  assume "\<not> length sql \<le> index" "next_token (ends_with_e (take index sql)) (drop index sql) = Some n"
  then have "0 < n" using next_token_moves [of _ "drop index sql" n] by simp
  then show "((sql, start, index + n, statements), sql, start, index, statements)
      \<in> measure (\<lambda>(sql, _, index, _). length sql - index)"
    using \<open>\<not> length sql \<le> index\<close> by simp
qed auto

definition split_sql_statements :: "js_string \<Rightarrow> js_string list" where
  "split_sql_statements sql = split_loop sql 0 0 []"

declare split_loop.simps [simp del]

end
