(* ===== verification/Schema_Migrations.thy ===== *)
theory Schema_Migrations
  imports Sql_Statements Canonical_Json Database_Errors
begin

text \<open>
  The migration runner of \<^verbatim>\<open>schema-migrations.ts\<close>: the declarations of a step and of its file, the scripts
  of a step, the forward run that stops before a contract step, and the contract command.

  The database is a parameter: \<open>query\<close> sends one text and gives the rows or the error, with the state
  of everything it can change. So are the reader of a migration file and \<open>declaration\<close>, which stands
  for the match of \<^verbatim>\<open>MIGRATION_METADATA\<close> on the first line of a file and \<^verbatim>\<open>JSON.parse\<close> of what it matched. The
  loop of the forward run has no bound of its own, so it is a partial function: \<open>None\<close> is a run that
  never returns.
\<close>

section \<open>Steps and plans\<close>

datatype migration_kind = Additive | Contract

datatype migration_execution = Transactional | Nontransactional

record migration_step =
  from_version :: int
  to_version :: int
  step_file :: js_string
  description :: js_string
  step_kind :: migration_kind
  execution :: "migration_execution option"
  retires :: "int list option"

definition step_execution :: "migration_execution option \<Rightarrow> migration_execution" where
  "step_execution e = (case e of None \<Rightarrow> Transactional | Some x \<Rightarrow> x)"

record migration_plan =
  baseline_version :: int
  current_version :: int
  steps :: "migration_step list"
  plan_lock_timeout_ms :: "nat option"

definition SCHEMA_MIGRATION_LOCK :: js_string where
  "SCHEMA_MIGRATION_LOCK = js ''workhorse:schema-migration''"

definition SCHEMA_MIGRATION_LOCK_TIMEOUT_MS :: nat where
  "SCHEMA_MIGRATION_LOCK_TIMEOUT_MS = 5000"

section \<open>Errors\<close>

text \<open>The errors of the runner, by what their messages say.\<close>

datatype migration_error =
    Transaction_Control js_string
  | No_Declaration js_string
  | Malformed_Declaration js_string
  | Bad_Kind js_string
  | Bad_Execution js_string
  | Bad_Retired_Versions js_string
  | Kind_Disagrees js_string
  | Execution_Disagrees js_string
  | Retired_Versions_Disagree js_string
  | Contract_Names_No_Version js_string
  | Additive_Retires js_string
  | Step_Failed js_string migration_execution bool
  | Finished_At js_string "int option"
  | Ambiguous_Version
  | Below_Baseline int
  | Newer_Than_Runtime int
  | No_Step_From int
  | Database_Failed js_value

section \<open>The declaration of a file\<close>

record migration_metadata =
  meta_kind :: migration_kind
  meta_execution :: "migration_execution option"
  meta_retires :: "int list option"

datatype 'n file_declaration = Absent | Malformed | Declared "'n json"

text \<open>The value of a property of a parsed object: the last one of that name.\<close>

definition json_member :: "js_string \<Rightarrow> (js_string \<times> 'n json) list \<Rightarrow> 'n json option" where
  "json_member key ms = map_of (rev ms) key"

text \<open>\<open>safe\<close> is \<^verbatim>\<open>Number.isSafeInteger\<close> with the integer it accepts.\<close>

definition version_entry :: "('n \<Rightarrow> int option) \<Rightarrow> 'n json \<Rightarrow> int option" where
  "version_entry safe v =
     (case v of
        JNum x \<Rightarrow> (case safe x of Some i \<Rightarrow> if 1 \<le> i then Some i else None | None \<Rightarrow> None)
      | _ \<Rightarrow> None)"

definition version_list :: "('n \<Rightarrow> int option) \<Rightarrow> 'n json \<Rightarrow> int list option" where
  "version_list safe v =
     (case v of JArr vs \<Rightarrow> those (map (version_entry safe) vs) | _ \<Rightarrow> None)"

definition parse_kind :: "'n json option \<Rightarrow> migration_kind option" where
  "parse_kind v =
     (if v = Some (JStr (js ''additive'')) then Some Additive
      else if v = Some (JStr (js ''contract'')) then Some Contract else None)"

definition parse_execution :: "'n json \<Rightarrow> migration_execution option" where
  "parse_execution v =
     (if v = JStr (js ''transactional'') then Some Transactional
      else if v = JStr (js ''nontransactional'') then Some Nontransactional else None)"

definition parse_metadata ::
  "('n \<Rightarrow> int option) \<Rightarrow> js_string \<Rightarrow> 'n file_declaration \<Rightarrow> (migration_error, migration_metadata) result" where
  "parse_metadata safe file d =
     (case d of
        Absent \<Rightarrow> Inl (No_Declaration file)
      | Malformed \<Rightarrow> Inl (Malformed_Declaration file)
      | Declared v \<Rightarrow>
          (case v of
             JObj ms \<Rightarrow>
               (case parse_kind (json_member (js ''kind'') ms) of
                  None \<Rightarrow> Inl (Bad_Kind file)
                | Some k \<Rightarrow>
                    (case map_option parse_execution (json_member (js ''execution'') ms) of
                       Some None \<Rightarrow> Inl (Bad_Execution file)
                     | e \<Rightarrow>
                         (case map_option (version_list safe) (json_member (js ''retiresProtocolVersions'') ms) of
                            Some None \<Rightarrow> Inl (Bad_Retired_Versions file)
                          | r \<Rightarrow> Inr \<lparr>meta_kind = k, meta_execution = Option.bind e id,
                                     meta_retires = Option.bind r id\<rparr>)))
           | _ \<Rightarrow> Inl (Bad_Kind file)))"

definition assert_step_matches_file ::
  "('n \<Rightarrow> int option) \<Rightarrow> migration_step \<Rightarrow> 'n file_declaration \<Rightarrow> (migration_error, unit) result" where
  "assert_step_matches_file safe step d =
     bind_result (parse_metadata safe (step_file step) d) (\<lambda>metadata.
     bind_result (guard_that (meta_kind metadata = step_kind step) (Kind_Disagrees (step_file step))) (\<lambda>_.
     bind_result (guard_that (step_execution (meta_execution metadata) = step_execution (execution step))
       (Execution_Disagrees (step_file step))) (\<lambda>_.
     let declared = sort (case meta_retires metadata of None \<Rightarrow> [] | Some vs \<Rightarrow> vs);
         recorded = sort (case retires step of None \<Rightarrow> [] | Some vs \<Rightarrow> vs) in
     guard_that (declared = recorded) (Retired_Versions_Disagree (step_file step)))))"

definition assert_well_formed_step :: "migration_step \<Rightarrow> (migration_error, unit) result" where
  "assert_well_formed_step step =
     (case step_kind step of
        Contract \<Rightarrow>
          guard_that (retires step \<noteq> None \<and> retires step \<noteq> Some []) (Contract_Names_No_Version (step_file step))
      | Additive \<Rightarrow> guard_that (retires step = None) (Additive_Retires (step_file step)))"

section \<open>Transaction control in a body\<close>

text \<open>The \<^verbatim>\<open>replace\<close> of dollar-quoted text: each becomes an empty literal.\<close>

function strip_dollar_quotes :: "js_string \<Rightarrow> js_string" where
  "strip_dollar_quotes s =
     (case s of
        [] \<Rightarrow> []
      | c # cs \<Rightarrow>
          (case dollar_tag s of
             None \<Rightarrow> c # strip_dollar_quotes cs
           | Some tag \<Rightarrow>
               (case index_of tag (drop (length tag) s) of
                  None \<Rightarrow> c # strip_dollar_quotes cs
                | Some k \<Rightarrow> [39, 39] @ strip_dollar_quotes (drop (length tag + k + length tag) s))))"
  by pat_completeness auto
termination
  by (relation "measure length") (auto dest: dollar_tag_length)

declare strip_dollar_quotes.simps [simp del]

text \<open>The regular expression \<^verbatim>\<open>transactionControl\<close>. It ignores the case of ASCII letters.\<close>

definition upper_unit :: "16 word \<Rightarrow> 16 word" where
  "upper_unit c = (if 97 \<le> c \<and> c \<le> 122 then c - 32 else c)"

definition at_keyword :: "string \<Rightarrow> js_string \<Rightarrow> bool" where
  "at_keyword word rest = starts_with (js word) (map upper_unit rest)"

definition at_word :: "string \<Rightarrow> js_string \<Rightarrow> bool" where
  "at_word word rest \<longleftrightarrow> at_keyword word rest \<and>
     (case drop (length word) rest of [] \<Rightarrow> True | c # _ \<Rightarrow> \<not> js_word c)"

definition at_two_words :: "string \<Rightarrow> string \<Rightarrow> js_string \<Rightarrow> bool" where
  "at_two_words first_word second_word rest \<longleftrightarrow> at_keyword first_word rest \<and>
     (let after = drop (length first_word) rest in
      after \<noteq> [] \<and> js_space (hd after) \<and> at_word second_word (dropWhile js_space after))"

definition at_end_alias :: "string \<Rightarrow> js_string \<Rightarrow> bool" where
  "at_end_alias word rest \<longleftrightarrow> at_keyword word rest \<and>
     (let after = drop (length word) rest; next = dropWhile js_space after;
          ends = (\<lambda>s. starts_with [59] (dropWhile js_space s)) in
      ends after \<or>
      after \<noteq> [] \<and> js_space (hd after) \<and>
        (at_keyword ''TRANSACTION'' next \<and> ends (drop 11 next) \<or> at_keyword ''WORK'' next \<and> ends (drop 4 next)))"

definition control_at :: "js_string \<Rightarrow> bool" where
  "control_at line \<longleftrightarrow>
     (let rest = dropWhile js_space line in
      at_word ''BEGIN'' rest \<or> at_word ''COMMIT'' rest \<or> at_word ''ROLLBACK'' rest \<or>
      at_two_words ''START'' ''TRANSACTION'' rest \<or>
      at_end_alias ''END'' rest \<or> at_end_alias ''ABORT'' rest \<or>
      at_two_words ''PREPARE'' ''TRANSACTION'' rest)"

definition line_terminator :: "16 word \<Rightarrow> bool" where
  "line_terminator c \<longleftrightarrow> c \<in> {10, 13, 0x2028, 0x2029}"

fun transaction_control :: "bool \<Rightarrow> js_string \<Rightarrow> bool" where
  "transaction_control line_start [] = (line_start \<and> control_at [])"
| "transaction_control line_start (c # cs) \<longleftrightarrow>
     line_start \<and> control_at (c # cs) \<or> transaction_control (line_terminator c) cs"

definition assert_no_transaction_control :: "js_string \<Rightarrow> js_string \<Rightarrow> (migration_error, unit) result" where
  "assert_no_transaction_control file body =
     guard_that (\<not> transaction_control True (strip_dollar_quotes body)) (Transaction_Control file)"

section \<open>The scripts of a step\<close>

fun double_quotes :: "js_string \<Rightarrow> js_string" where
  "double_quotes [] = []"
| "double_quotes (c # cs) = (if c = 39 then [39, 39] else [c]) @ double_quotes cs"

definition quote_literal :: "js_string \<Rightarrow> js_string" where
  "quote_literal value = [39] @ double_quotes value @ [39]"

definition version_guard :: "migration_step \<Rightarrow> js_string" where
  "version_guard step = js_join [10]
     [js ''DO $workhorse_migration$'',
      js ''BEGIN'',
      js ''  IF (SELECT count(*) FROM workhorse.schema_version) <> 1'',
      js ''     OR NOT EXISTS (SELECT 1 FROM workhorse.schema_version WHERE version = '' @
        int_text (from_version step) @ js '') THEN'',
      js ''    RAISE EXCEPTION '' @ [39] @ js ''workhorse schema migration to version '' @
        int_text (to_version step) @ js '' requires exactly version '' @ int_text (from_version step) @ [39, 59],
      js ''  END IF;'',
      js ''END'',
      js ''$workhorse_migration$;'']"

definition update_version :: "migration_step \<Rightarrow> js_string" where
  "update_version step =
     js ''UPDATE workhorse.schema_version SET version = '' @ int_text (to_version step) @
     js '', installed_at = clock_timestamp() WHERE version = '' @ int_text (from_version step)"

definition insert_migration :: "migration_step \<Rightarrow> js_string" where
  "insert_migration step =
     js ''INSERT INTO workhorse.schema_migration(version, description) VALUES ('' @
     int_text (to_version step) @ js '', '' @ quote_literal (description step) @ js '')''"

definition bookkeeping :: "migration_step \<Rightarrow> js_string" where
  "bookkeeping step = update_version step @ [59, 10] @ insert_migration step @ [59]"

definition advisory_lock :: js_string where
  "advisory_lock = js ''SELECT pg_advisory_xact_lock(hashtext('' @ quote_literal SCHEMA_MIGRATION_LOCK @ js ''));''"

definition migration_script :: "migration_step \<Rightarrow> js_string \<Rightarrow> nat \<Rightarrow> (migration_error, js_string) result" where
  "migration_script step body lock_timeout =
     bind_result (assert_no_transaction_control (step_file step) body) (\<lambda>_.
     Inr (js_join [10]
       [js ''BEGIN;'',
        js ''-- Waiting for a peer migrator is expected and unbounded; waiting for a table is not.'',
        js ''SET LOCAL lock_timeout = 0;'',
        advisory_lock,
        version_guard step,
        js ''SET LOCAL lock_timeout = '' @ decimal_text lock_timeout @ [59],
        body,
        js ''SET LOCAL lock_timeout = 0;'',
        bookkeeping step,
        js ''COMMIT;'']))"

definition bookkeeping_script :: "migration_step \<Rightarrow> js_string" where
  "bookkeeping_script step = js_join [10]
     [js ''BEGIN;'',
      js ''SET LOCAL lock_timeout = 0;'',
      advisory_lock,
      version_guard step,
      bookkeeping step,
      js ''COMMIT;'']"

section \<open>The database\<close>

record ('db, 'n, 'w) migration_env =
  error_heap :: js_heap
  safe_integer :: "'n \<Rightarrow> int option"
  read_declaration :: "js_string \<Rightarrow> 'n file_declaration"
  read_step :: "js_string \<Rightarrow> (js_value, js_string) result"
  send_query :: "js_string \<Rightarrow> ('db, js_value, unit) action"
  version_rows :: "('db, js_value, int option list) action"
  live_workers :: "int list \<Rightarrow> ('db, js_value, 'w list) action"

text \<open>\<open>rethrow\<close> lets an error of the database out as it is.\<close>

definition rethrow :: "('db, js_value, 'a) action \<Rightarrow> ('db, migration_error, 'a) action" where
  "rethrow m db = (case m db of (Inl e, db') \<Rightarrow> (Inl (Database_Failed e), db') | (Inr a, db') \<Rightarrow> (Inr a, db'))"

definition act_check :: "(migration_error, 'a) result \<Rightarrow> ('db, migration_error, 'a) action" where
  "act_check r db = (r, db)"

definition read_schema_version :: "('db, 'n, 'w) migration_env \<Rightarrow> ('db, js_value, int option) action" where
  "read_schema_version env =
     act_bind (version_rows env) (\<lambda>rows. act_return (case rows of [v] \<Rightarrow> v | _ \<Rightarrow> None))"

text \<open>The two other reads: \<open>query\<close> is the statement they send.\<close>

definition read_compatibility_state ::
  "('db, js_value, (string \<times> int option) list) action \<Rightarrow> ('db, js_value, int option \<times> int option list) action" where
  "read_compatibility_state query =
     act_bind query (\<lambda>rows.
     let schema = filter (\<lambda>row. fst row = ''schema'') rows in
     act_return (case schema of [row] \<Rightarrow> snd row | _ \<Rightarrow> None,
       map snd (filter (\<lambda>row. fst row = ''protocol'') rows)))"

definition read_protocol_versions ::
  "js_heap \<Rightarrow> ('db, js_value, int list) action \<Rightarrow> ('db, js_value, int list option) action" where
  "read_protocol_versions heap query db =
     (case query db of
        (Inr rows, db') \<Rightarrow> (Inr (Some rows), db')
      | (Inl e, db') \<Rightarrow> if is_missing_relation_error heap e then (Inr None, db') else (Inl e, db'))"

section \<open>One step\<close>

definition prepare_transactional_step ::
  "('db, 'n, 'w) migration_env \<Rightarrow> migration_step \<Rightarrow> js_string \<Rightarrow> nat
    \<Rightarrow> (migration_error, ('db, js_value, unit) action) result" where
  "prepare_transactional_step env step body lock_timeout =
     bind_result (migration_script step body lock_timeout) (\<lambda>script. Inr (send_query env script))"

definition prepare_nontransactional_step ::
  "('db, 'n, 'w) migration_env \<Rightarrow> migration_step \<Rightarrow> js_string
    \<Rightarrow> (migration_error, ('db, js_value, unit) action) result" where
  "prepare_nontransactional_step env step body =
     bind_result (assert_no_transaction_control (step_file step) body) (\<lambda>_.
     let statements = split_sql_statements body in
     Inr (act_then (send_query env (version_guard step))
       (act_then (act_each (send_query env) statements)
         (send_query env (bookkeeping_script step)))))"

definition lock_timeout_of :: "migration_plan \<Rightarrow> nat" where
  "lock_timeout_of plan =
     (case plan_lock_timeout_ms plan of None \<Rightarrow> SCHEMA_MIGRATION_LOCK_TIMEOUT_MS | Some ms \<Rightarrow> ms)"

text \<open>
  The part of \<^verbatim>\<open>applyMigrationStep\<close> before the database sees the step: every check, and the prepared
  step.
\<close>

definition prepare_step ::
  "('db, 'n, 'w) migration_env \<Rightarrow> migration_plan \<Rightarrow> migration_step
    \<Rightarrow> (migration_error, ('db, js_value, unit) action) result" where
  "prepare_step env plan step =
     bind_result (assert_well_formed_step step) (\<lambda>_.
     case read_step env (step_file step) of
       Inl e \<Rightarrow> Inl (Database_Failed e)
     | Inr body \<Rightarrow>
         bind_result (assert_step_matches_file (safe_integer env) step (read_declaration env body)) (\<lambda>_.
         if step_execution (execution step) = Nontransactional
         then prepare_nontransactional_step env step body
         else prepare_transactional_step env step body (lock_timeout_of plan)))"

text \<open>The \<^verbatim>\<open>catch\<close>: a peer that committed this step makes the failure good.\<close>

definition step_failed ::
  "('db, 'n, 'w) migration_env \<Rightarrow> migration_step \<Rightarrow> js_value \<Rightarrow> ('db, migration_error, unit) action" where
  "step_failed env step error db =
     (let (_, db1) = send_query env (js ''ROLLBACK'') db;
          (read, db2) = read_schema_version env db1;
          concurrent = (case read of Inl _ \<Rightarrow> None | Inr v \<Rightarrow> v) in
      (case concurrent of
         Some v \<Rightarrow>
           if v < to_version step
           then (Inl (Step_Failed (step_file step) (step_execution (execution step))
                   (database_error_code (error_heap env) error = Some (js ''55P03''))), db2)
           else (Inr (), db2)
       | None \<Rightarrow>
           (Inl (Step_Failed (step_file step) (step_execution (execution step))
              (database_error_code (error_heap env) error = Some (js ''55P03''))), db2)))"

definition apply_migration_step ::
  "('db, 'n, 'w) migration_env \<Rightarrow> migration_plan \<Rightarrow> migration_step \<Rightarrow> ('db, migration_error, int) action" where
  "apply_migration_step env plan step =
     act_bind (act_check (prepare_step env plan step)) (\<lambda>apply_to.
     act_then (\<lambda>db. case apply_to db of
                 (Inr _, db') \<Rightarrow> (Inr (), db')
               | (Inl error, db') \<Rightarrow> step_failed env step error db')
     (act_bind (rethrow (read_schema_version env)) (\<lambda>migrated.
      case migrated of
        None \<Rightarrow> act_throw (Finished_At (step_file step) None)
      | Some v \<Rightarrow>
          if v < to_version step then act_throw (Finished_At (step_file step) (Some v))
          else act_return v)))"

section \<open>The forward run\<close>

definition find_step :: "migration_step list \<Rightarrow> int \<Rightarrow> migration_step option" where
  "find_step ss version = find (\<lambda>candidate. from_version candidate = version) ss"

partial_function (option) migrate_loop ::
  "('db, 'n, 'w) migration_env \<Rightarrow> migration_plan \<Rightarrow> int \<Rightarrow> 'db
    \<Rightarrow> ((migration_error, int \<times> migration_step option) result \<times> 'db) option" where
  "migrate_loop env plan version db =
     (if current_version plan \<le> version then Some (Inr (version, None), db)
      else
        (case find_step (steps plan) version of
           None \<Rightarrow> Some (Inl (No_Step_From version), db)
         | Some migration \<Rightarrow>
             if step_kind migration = Contract then Some (Inr (version, Some migration), db)
             else
               (case apply_migration_step env plan migration db of
                  (Inl e, db') \<Rightarrow> Some (Inl e, db')
                | (Inr v, db') \<Rightarrow> migrate_loop env plan v db')))"

text \<open>The argument \<^verbatim>\<open>installedVersion\<close>: \<open>None\<close> is \<^verbatim>\<open>undefined\<close>, \<open>Some None\<close> is \<^verbatim>\<open>null\<close>.\<close>

definition installed_version ::
  "('db, 'n, 'w) migration_env \<Rightarrow> int option option \<Rightarrow> ('db, migration_error, int) action" where
  "installed_version env given =
     act_bind (case given of None \<Rightarrow> rethrow (read_schema_version env) | Some v \<Rightarrow> act_return v) (\<lambda>v.
     case v of None \<Rightarrow> act_throw Ambiguous_Version | Some version \<Rightarrow> act_return version)"

definition apply_schema_migration_plan ::
  "('db, 'n, 'w) migration_env \<Rightarrow> migration_plan \<Rightarrow> int option option \<Rightarrow> 'db
    \<Rightarrow> ((migration_error, int \<times> migration_step option) result \<times> 'db) option" where
  "apply_schema_migration_plan env plan given db =
     (case installed_version env given db of
        (Inl e, db') \<Rightarrow> Some (Inl e, db')
      | (Inr version, db') \<Rightarrow>
          if version < baseline_version plan then Some (Inl (Below_Baseline version), db')
          else if current_version plan < version then Some (Inl (Newer_Than_Runtime version), db')
          else migrate_loop env plan version db')"

section \<open>Contract steps\<close>

definition pending_contract_steps :: "migration_step list \<Rightarrow> int option \<Rightarrow> migration_step list" where
  "pending_contract_steps ss installed =
     (case installed of
        None \<Rightarrow> []
      | Some v \<Rightarrow> filter (\<lambda>step. step_kind step = Contract \<and> v < to_version step) ss)"

datatype pending_step = Nothing_Pending | Additive_Pending migration_step | Contract_Pending migration_step

definition pending_schema_step ::
  "migration_step list \<Rightarrow> int \<Rightarrow> int \<Rightarrow> (migration_error, pending_step) result" where
  "pending_schema_step ss installed current =
     (case find_step ss installed of
        None \<Rightarrow> if installed < current then Inl (No_Step_From installed) else Inr Nothing_Pending
      | Some step \<Rightarrow>
          bind_result (assert_well_formed_step step) (\<lambda>_.
          Inr (if step_kind step = Contract then Contract_Pending step else Additive_Pending step)))"

datatype 'w contract_outcome =
    No_Step
  | Additive_Waits migration_step
  | Unconfirmed migration_step "'w list"
  | Applied migration_step "'w list"

definition plan_schema_contract ::
  "('db, 'n, 'w) migration_env \<Rightarrow> migration_plan \<Rightarrow> bool \<Rightarrow> int option option
    \<Rightarrow> ('db, migration_error, 'w contract_outcome) action" where
  "plan_schema_contract env plan confirmed given =
     act_bind (installed_version env given) (\<lambda>version.
     act_bind (act_check (pending_schema_step (steps plan) version (current_version plan))) (\<lambda>pending.
     case pending of
       Nothing_Pending \<Rightarrow> act_return No_Step
     | Additive_Pending step \<Rightarrow> act_return (Additive_Waits step)
     | Contract_Pending step \<Rightarrow>
         act_bind (rethrow (live_workers env (case retires step of None \<Rightarrow> [] | Some vs \<Rightarrow> vs))) (\<lambda>workers.
         if \<not> confirmed then act_return (Unconfirmed step workers)
         else act_bind (apply_migration_step env plan step) (\<lambda>_. act_return (Applied step workers)))))"

end
