(* ===== verification/Sql_Statements_Proofs.thy ===== *)
theory Sql_Statements_Proofs
  imports Sql_Statements
begin

text \<open>
  The loop of the splitter against a reference: the raw pieces of a text between the semicolons that
  end a statement. A statement is a trimmed piece, the pieces joined by semicolons are the text, and
  a piece is a single statement wherever it stands.
\<close>

section \<open>The pieces of a text\<close>

function pieces :: "bool \<Rightarrow> js_string \<Rightarrow> js_string list" where
  "pieces after_e rest =
     (if rest = [] then [[]]
      else
        (case next_token after_e rest of
           None \<Rightarrow> [] # pieces False (tl rest)
         | Some n \<Rightarrow>
             (let ps = pieces (ends_with_e (take n rest)) (drop n rest) in
              (take n rest @ hd ps) # tl ps)))"
  by pat_completeness auto
termination
proof (relation "measure (\<lambda>(_, rest). length rest)")
  fix after_e rest n
  assume "rest \<noteq> []" "next_token after_e rest = Some n"
  then show "((ends_with_e (take n rest), drop n rest), after_e, rest) \<in> measure (\<lambda>(_, rest). length rest)"
    using next_token_moves [of after_e rest n] by simp
qed auto

declare pieces.simps [simp del]

lemma pieces_Nil [simp]: "pieces e [] = [[]]"
  by (simp add: pieces.simps)

lemma pieces_end: "rest \<noteq> [] \<Longrightarrow> next_token e rest = None \<Longrightarrow> pieces e rest = [] # pieces False (tl rest)"
  by (simp add: pieces.simps [of e rest])

lemma pieces_token:
  "rest \<noteq> [] \<Longrightarrow> next_token e rest = Some n \<Longrightarrow>
     pieces e rest = (take n rest @ hd (pieces (ends_with_e (take n rest)) (drop n rest))) #
       tl (pieces (ends_with_e (take n rest)) (drop n rest))"
  by (simp add: pieces.simps [of e rest] Let_def)

lemma pieces_not_Nil [simp]: "pieces e rest \<noteq> []"
  by (cases "rest = []"; cases "next_token e rest") (simp_all add: pieces_end pieces_token)

lemma next_token_None: "rest \<noteq> [] \<Longrightarrow> next_token e rest = None \<Longrightarrow> hd rest = 59"
  by (auto simp: next_token_def Let_def split: if_splits option.splits)

definition statements_of :: "js_string list \<Rightarrow> js_string list" where
  "statements_of ps = filter (\<lambda>s. s \<noteq> []) (map js_trim ps)"

lemma statements_of_simps [simp]:
  "statements_of [] = []"
  "statements_of (p # ps) = (if js_trim p = [] then statements_of ps else js_trim p # statements_of ps)"
  "statements_of (ps @ qs) = statements_of ps @ statements_of qs"
  by (simp_all add: statements_of_def)

lemma ends_with_e_append: "v \<noteq> [] \<Longrightarrow> ends_with_e (u @ v) = ends_with_e v"
  by (simp add: ends_with_e_def)

lemma split_loop_pieces:
  assumes "start \<le> index"
  shows "split_loop sql start index statements =
    statements @ statements_of
      ((drop start (take index sql) @ hd (pieces (ends_with_e (take index sql)) (drop index sql))) #
        tl (pieces (ends_with_e (take index sql)) (drop index sql)))"
  using assms
proof (induction sql start index statements rule: split_loop.induct)
  case (1 sql start index statements)
  let ?rest = "drop index sql"
  let ?e = "ends_with_e (take index sql)"
  show ?case
  proof (cases "length sql \<le> index")
    case True
    then show ?thesis by (simp add: split_loop.simps [of sql start index] Let_def)
  next
    case False
    then have rest: "?rest \<noteq> []" by simp
    show ?thesis
    proof (cases "next_token ?e ?rest")
      case None
      have semi: "hd ?rest = 59" using next_token_None [OF rest None] .
      have "take (Suc index) sql = take index sql @ [59]"
        using False semi by (simp add: take_Suc_conv_app_nth hd_drop_conv_nth)
      then have "\<not> ends_with_e (take (Suc index) sql)" by (simp add: ends_with_e_def)
      then show ?thesis
        using 1(1) [OF False None refl] False None rest
        by (simp add: split_loop.simps [of sql start index] Let_def pieces_end drop_Suc tl_drop)
    next
      case (Some n)
      have n: "0 < n" using next_token_moves [OF Some rest] .
      have t: "take (index + n) sql = take index sql @ take n ?rest" by (simp add: take_add)
      have e: "ends_with_e (take (index + n) sql) = ends_with_e (take n ?rest)"
        unfolding t using n rest by (intro ends_with_e_append) simp
      have d: "drop start (take (index + n) sql) = drop start (take index sql) @ take n ?rest"
        unfolding t using 1(3) False by simp
      show ?thesis
        using 1(2) [OF False Some] 1(3) False Some rest
        by (simp add: split_loop.simps [of sql start index] pieces_token e d add.commute)
    qed
  qed
qed

lemma split_pieces: "split_sql_statements sql = statements_of (pieces False sql)"
  by (simp add: split_sql_statements_def split_loop_pieces) (simp add: ends_with_e_def)

lemma join_Cons: "ps \<noteq> [] \<Longrightarrow> js_join sep (p # ps) = p @ sep @ js_join sep ps"
  by (cases ps) simp_all

lemma join_prepend: "ps \<noteq> [] \<Longrightarrow> js_join sep ((u @ hd ps) # tl ps) = u @ js_join sep ps"
  by (cases ps; cases "tl ps") simp_all

lemma join_pieces: "js_join [59] (pieces e rest) = rest"
proof (induction e rest rule: pieces.induct)
  case (1 e rest)
  show ?case
  proof (cases "rest = []")
    case False
    show ?thesis
    proof (cases "next_token e rest")
      case None
      have "rest = 59 # tl rest" using next_token_None [OF False None] False by (cases rest) simp_all
      then show ?thesis
        using 1(1) [OF False None] by (simp add: pieces_end [OF False None] join_Cons)
    next
      case (Some n)
      then show ?thesis
        using 1(2) [OF False Some] by (simp add: pieces_token [OF False Some] join_prepend)
    qed
  qed simp
qed

section \<open>A token depends on its own text\<close>

text \<open>White space and semicolons are in no delimiter, so a token that ends before one does not see it.\<close>

definition neutral :: "16 word \<Rightarrow> bool" where
  "neutral z \<longleftrightarrow> js_space z \<or> z = 59"

lemma neutral_code:
  assumes "neutral z"
  shows "z \<noteq> 45" "z \<noteq> 47" "z \<noteq> 42" "z \<noteq> 39" "z \<noteq> 34" "z \<noteq> 36" "\<not> js_word z"
  using assms unfolding neutral_def js_space_def js_word_def js_letter_def js_digit_def
  by (auto simp: word_le_nat_alt)

lemma starts_with_before:
  "z \<notin> set p \<Longrightarrow> p \<noteq> [] \<Longrightarrow> starts_with p (u @ z # w) = starts_with p u"
proof (induction p arbitrary: u)
  case (Cons a p)
  then show ?case by (cases u; cases "p = []") auto
qed simp

lemma index_of_before:
  "z \<notin> set p \<Longrightarrow> p \<noteq> [] \<Longrightarrow> index_of p (u @ z # w) =
     (case index_of p u of Some k \<Rightarrow> Some k | None \<Rightarrow> map_option (\<lambda>k. length u + Suc k) (index_of p w))"
proof (induction u)
  case Nil
  then have "\<not> starts_with p (z # w)" by (cases p) auto
  then show ?case using Nil by (simp add: option.map_comp comp_def split: option.split)
next
  case (Cons a u)
  then show ?case
    using starts_with_before [of z p "a # u" w]
    by (simp add: option.map_comp comp_def split: option.split)
qed

lemma line_comment_simps [simp]:
  "line_comment [] = 0"
  "line_comment (c # cs) = (if c = 10 then 1 else Suc (line_comment cs))"
  by (auto simp: line_comment_def split: option.split)

lemma line_comment_local:
  "line_comment (u @ z # w) \<le> length u \<Longrightarrow>
     line_comment (u @ z' # w') = line_comment (u @ z # w) \<and> line_comment u = line_comment (u @ z # w)"
  by (induction u) (auto split: if_splits)

lemma line_comment_over: "length u < line_comment (u @ z # w) \<Longrightarrow> length u \<le> line_comment u"
  by (induction u) (auto split: if_splits)

lemma block_comment_pos: "rest \<noteq> [] \<Longrightarrow> 0 < block_comment d rest"
  by (cases rest) simp_all

lemma block_comment_local:
  assumes "neutral z" "neutral z'"
  shows "block_comment d (u @ z # w) \<le> length u \<Longrightarrow>
     block_comment d (u @ z' # w') = block_comment d (u @ z # w) \<and>
     block_comment d u = block_comment d (u @ z # w)"
proof (induction d u rule: block_comment.induct)
  case (1 d)
  then show ?case using block_comment_pos [of "z # w" d] by (simp del: block_comment.simps)
next
  case (2 d c cs)
  show ?case
  proof (cases "cs = []")
    case True
    then show ?thesis
      using 2(4) neutral_code [OF assms(1)] by (auto split: if_splits)
  next
    case False
    have s: "starts_with p (c # cs @ x # v) = starts_with p (c # cs)"
      if "neutral x" "p = [47, 42] \<or> p = [42, 47]" for p x v
      using starts_with_before [of x p "c # cs" v] neutral_code [OF that(1)] that(2) by auto
    obtain b bs where cs: "cs = b # bs" using False by (cases cs) simp_all
    note s = s [OF assms(1)] s [OF assms(2)]
    consider "starts_with [47, 42] (c # cs)"
      | "\<not> starts_with [47, 42] (c # cs)" "starts_with [42, 47] (c # cs)"
      | "\<not> starts_with [47, 42] (c # cs)" "\<not> starts_with [42, 47] (c # cs)" by blast
    then show ?thesis
    proof cases
      case 1
      then show ?thesis using 2(1) [OF 1] 2(4) s cs by (simp del: starts_with_simps)
    next
      case 2
      then show ?thesis using "2.IH"(2) [OF 2] "2.prems" s cs
        by (simp del: starts_with_simps split: if_splits)
    next
      case 3
      then show ?thesis using "2.IH"(3) [OF 3] "2.prems" s cs by (simp del: starts_with_simps)
    qed
  qed
qed

lemma block_comment_over:
  assumes "neutral z"
  shows "length u < block_comment d (u @ z # w) \<Longrightarrow> length u \<le> block_comment d u"
proof (induction d u rule: block_comment.induct)
  case (2 d c cs)
  show ?case
  proof (cases "cs = []")
    case False
    have s: "starts_with p (c # cs @ z # w) = starts_with p (c # cs)"
      if "p = [47, 42] \<or> p = [42, 47]" for p
      using starts_with_before [of z p "c # cs" w] neutral_code [OF assms] that by auto
    obtain b bs where cs: "cs = b # bs" using False by (cases cs) simp_all
    consider "starts_with [47, 42] (c # cs)"
      | "\<not> starts_with [47, 42] (c # cs)" "starts_with [42, 47] (c # cs)"
      | "\<not> starts_with [47, 42] (c # cs)" "\<not> starts_with [42, 47] (c # cs)" by blast
    then show ?thesis
    proof cases
      case 1
      then show ?thesis using 2(1) [OF 1] 2(4) s cs by (simp del: starts_with_simps)
    next
      case 2
      then show ?thesis using "2.IH"(2) [OF 2] "2.prems" s cs
        by (simp del: starts_with_simps split: if_splits)
    next
      case 3
      then show ?thesis using "2.IH"(3) [OF 3] "2.prems" s cs by (simp del: starts_with_simps)
    qed
  qed simp
qed simp

lemma quoted_pos: "rest \<noteq> [] \<Longrightarrow> 0 < quoted q esc rest"
  by (cases rest) simp_all

lemma quoted_branches:
  "esc \<and> c = 92 \<Longrightarrow> quoted q esc (c # cs) = 2 + quoted q esc (drop 1 cs)"
  "\<not> (esc \<and> q = 92) \<Longrightarrow> quoted q esc (q # q # cs) = 2 + quoted q esc cs"
  "\<not> (esc \<and> q = 92) \<Longrightarrow> \<not> starts_with [q] cs \<Longrightarrow> quoted q esc (q # cs) = 1"
  "\<not> (esc \<and> c = 92) \<Longrightarrow> c \<noteq> q \<Longrightarrow> quoted q esc (c # cs) = 1 + quoted q esc cs"
  by auto

lemma quoted_local:
  assumes "z \<noteq> q" "z' \<noteq> q" "quoted q esc (u @ z # w) \<le> length u"
  shows "quoted q esc (u @ z' # w') = quoted q esc (u @ z # w) \<and> quoted q esc u = quoted q esc (u @ z # w)"
  using assms(3)
proof (induction u rule: length_induct)
  case (1 u)
  have nonempty: "0 < quoted q esc (z # w)" by (rule quoted_pos) simp
  show ?case
  proof (cases u)
    case Nil
    then show ?thesis using 1(2) nonempty by (simp del: quoted.simps)
  next
    case (Cons c v)
    consider "esc \<and> c = 92" "v = []" | b x where "esc \<and> c = 92" "v = b # x"
      | x where "\<not> (esc \<and> q = 92)" "c = q" "v = q # x"
      | "\<not> (esc \<and> q = 92)" "c = q" "\<not> starts_with [q] v" | "\<not> (esc \<and> c = 92)" "c \<noteq> q"
      by (metis list.exhaust starts_with_simps)
    then show ?thesis
    proof cases
      case 1
      then show ?thesis using "1.prems" by (simp add: Cons quoted_branches(1) del: quoted.simps)
    next
      case (2 b x)
      then show ?thesis
        using 1(1) [rule_format, of x] "1.prems" by (simp add: Cons quoted_branches(1) del: quoted.simps)
    next
      case (3 x)
      then show ?thesis
        using 1(1) [rule_format, of x] "1.prems" by (simp add: Cons quoted_branches(2) del: quoted.simps)
    next
      case 4
      then have "\<not> starts_with [q] (v @ z # w)" "\<not> starts_with [q] (v @ z' # w')"
        using assms(1,2) by (cases v; simp)+
      with 4 show ?thesis by (simp add: Cons quoted_branches(3) del: quoted.simps starts_with_simps)
    next
      case 5
      then show ?thesis
        using 1(1) [rule_format, of v] "1.prems" by (simp add: Cons quoted_branches(4) del: quoted.simps)
    qed
  qed
qed

lemma quoted_over:
  assumes "z \<noteq> q" "length u < quoted q esc (u @ z # w)"
  shows "length u \<le> quoted q esc u"
  using assms(2)
proof (induction u rule: length_induct)
  case (1 u)
  show ?case
  proof (cases u)
    case (Cons c v)
    consider "esc \<and> c = 92" "v = []" | b x where "esc \<and> c = 92" "v = b # x"
      | x where "\<not> (esc \<and> q = 92)" "c = q" "v = q # x"
      | "\<not> (esc \<and> q = 92)" "c = q" "\<not> starts_with [q] v" | "\<not> (esc \<and> c = 92)" "c \<noteq> q"
      by (metis list.exhaust starts_with_simps)
    then show ?thesis
    proof cases
      case 1
      then show ?thesis by (simp add: Cons quoted_branches(1) del: quoted.simps)
    next
      case (2 b x)
      then show ?thesis
        using 1(1) [rule_format, of x] "1.prems" by (simp add: Cons quoted_branches(1) del: quoted.simps)
    next
      case (3 x)
      then show ?thesis
        using 1(1) [rule_format, of x] "1.prems" by (simp add: Cons quoted_branches(2) del: quoted.simps)
    next
      case 4
      then have "\<not> starts_with [q] (v @ z # w)" using assms(1) by (cases v) simp_all
      with 4 show ?thesis
        using "1.prems" by (simp add: Cons quoted_branches(3) del: quoted.simps starts_with_simps)
    next
      case 5
      then show ?thesis
        using 1(1) [rule_format, of v] "1.prems" by (simp add: Cons quoted_branches(4) del: quoted.simps)
    qed
  qed simp
qed

lemma dollar_tag_before:
  assumes "neutral z" "u \<noteq> []"
  shows "dollar_tag (u @ z # w) = dollar_tag u"
proof -
  obtain a v where u: "u = a # v" using assms(2) by (cases u) simp_all
  have name: "takeWhile js_word (v @ z # w) = takeWhile js_word v"
    using neutral_code(7) [OF assms(1)] by (induction v) simp_all
  have "drop (length (takeWhile js_word v)) (v @ z # w) = drop (length (takeWhile js_word v)) v @ z # w"
    by (simp add: length_takeWhile_le)
  then show ?thesis
    using starts_with_before [of z "[36]"] neutral_code(6) [OF assms(1)]
    by (simp add: u dollar_tag_def name)
qed

lemma dollar_tag_text:
  assumes "dollar_tag u = Some tag" "neutral z"
  shows "length tag \<le> length u" "z \<notin> set tag" "tag \<noteq> []"
proof -
  obtain v where u: "u = 36 # v" and tag: "tag = 36 # takeWhile js_word v @ [36]"
    and close: "starts_with [36] (drop (length (takeWhile js_word v)) v)"
    using assms(1) by (cases u) (auto simp: dollar_tag_def Let_def split: if_splits)
  have "length (takeWhile js_word v) < length v"
    using close by (metis drop_all leI starts_with_simps(2))
  then show "length tag \<le> length u" by (simp add: u tag)
  have "x \<in> set (takeWhile js_word v) \<Longrightarrow> js_word x" for x by (auto dest: set_takeWhileD)
  then show "z \<notin> set tag" using neutral_code [OF assms(2)] by (auto simp: tag)
  show "tag \<noteq> []" by (simp add: tag)
qed

lemma dollar_quoted_before:
  assumes "dollar_tag u = Some tag" "neutral z"
  shows "dollar_quoted tag (u @ z # w) =
    (case index_of tag (drop (length tag) u) of
       Some k \<Rightarrow> length tag + k + length tag
     | None \<Rightarrow> (case index_of tag w of
         None \<Rightarrow> length u + Suc (length w)
       | Some k \<Rightarrow> length u + Suc k + length tag))"
proof -
  have "drop (length tag) (u @ z # w) = drop (length tag) u @ z # w"
    using dollar_tag_text(1) [OF assms] by simp
  then show ?thesis
    using index_of_before [OF dollar_tag_text(2,3) [OF assms], of "drop (length tag) u" w]
      dollar_tag_text(1) [OF assms]
    by (simp add: dollar_quoted_def split: option.split)
qed

text \<open>The branches of the loop body, and how each changes when a neutral character and more text follow.\<close>

lemma token_branch [consumes 1, case_names line block quote dollar other]:
  assumes "u = c # v"
  obtains (line) "starts_with [45, 45] u"
  | (block) "\<not> starts_with [45, 45] u" "starts_with [47, 42] u"
  | (quote) "c = 39 \<or> c = 34" "\<not> starts_with [45, 45] u" "\<not> starts_with [47, 42] u"
  | (dollar) tag where "\<not> starts_with [45, 45] u" "\<not> starts_with [47, 42] u" "c \<noteq> 39" "c \<noteq> 34" "dollar_tag u = Some tag"
  | (other) "\<not> starts_with [45, 45] u" "\<not> starts_with [47, 42] u" "c \<noteq> 39" "c \<noteq> 34" "dollar_tag u = None"
  using assms by (cases "dollar_tag u") blast+

lemma starts_with_comment:
  assumes "neutral z"
  shows "starts_with [45, 45] (u @ z # w) = starts_with [45, 45] u"
    "starts_with [47, 42] (u @ z # w) = starts_with [47, 42] u"
  using starts_with_before [of z "[45, 45]" u w] starts_with_before [of z "[47, 42]" u w]
    neutral_code [OF assms] by simp_all

lemma next_token_branches:
  "starts_with [45, 45] u \<Longrightarrow> next_token e u = Some (line_comment u)"
  "\<not> starts_with [45, 45] u \<Longrightarrow> starts_with [47, 42] u \<Longrightarrow> next_token e u = Some (block_comment 0 u)"
  "\<not> starts_with [45, 45] u \<Longrightarrow> \<not> starts_with [47, 42] u \<Longrightarrow> u = c # v \<Longrightarrow> c = 39 \<or> c = 34 \<Longrightarrow>
     next_token e u = Some (1 + quoted c (c = 39 \<and> e) v)"
  "\<not> starts_with [45, 45] u \<Longrightarrow> \<not> starts_with [47, 42] u \<Longrightarrow> u = c # v \<Longrightarrow> c \<noteq> 39 \<Longrightarrow> c \<noteq> 34 \<Longrightarrow>
     dollar_tag u = Some tag \<Longrightarrow> next_token e u = Some (dollar_quoted tag u)"
  "\<not> starts_with [45, 45] u \<Longrightarrow> \<not> starts_with [47, 42] u \<Longrightarrow> u = c # v \<Longrightarrow> c \<noteq> 39 \<Longrightarrow> c \<noteq> 34 \<Longrightarrow>
     dollar_tag u = None \<Longrightarrow> next_token e u = (if c = 59 then None else Some 1)"
  by (simp_all add: next_token_def Let_def del: starts_with_simps)

lemma next_token_before:
  assumes "neutral z" "u = c # v"
  shows "next_token e (u @ z # w) =
    (if starts_with [45, 45] u then Some (line_comment (u @ z # w))
     else if starts_with [47, 42] u then Some (block_comment 0 (u @ z # w))
     else if c = 39 \<or> c = 34 then Some (1 + quoted c (c = 39 \<and> e) (v @ z # w))
     else (case dollar_tag u of
             Some tag \<Rightarrow> Some (dollar_quoted tag (u @ z # w))
           | None \<Rightarrow> if c = 59 then None else Some 1))"
proof -
  have "u \<noteq> []" by (simp add: assms(2))
  from dollar_tag_before [OF assms(1) this] show ?thesis
    unfolding next_token_def starts_with_comment [OF assms(1)]
    by (simp add: assms(2) Let_def del: starts_with_simps)
qed

lemma token_local:
  assumes "neutral z" "u \<noteq> []" "next_token e (u @ z # w) = Some n" "n \<le> length u" "neutral z'"
  shows "next_token e (u @ z' # w') = Some n \<and> next_token e u = Some n"
proof -
  obtain c v where u: "u = c # v" using assms(2) by (cases u) simp_all
  note N = neutral_code [OF assms(1)] and N' = neutral_code [OF assms(5)]
  note B = next_token_before [OF assms(1) u, of e w] next_token_before [OF assms(5) u, of e w']
  from u show ?thesis
  proof (cases rule: token_branch)
    case line
    then show ?thesis
      using assms(3,4) B line_comment_local [of u z w z' w'] by (simp add: next_token_branches(1))
  next
    case block
    then show ?thesis
      using assms(3,4) B block_comment_local [OF assms(1,5), of 0 u w w'] by (simp add: next_token_branches(2))
  next
    case quote
    then show ?thesis
      using assms(3,4) B quoted_local [of z c z' "c = 39 \<and> e" v w w'] N N'
        next_token_branches(3) [OF quote(2,3) u quote(1)] by (auto simp: u)
  next
    case (dollar tag)
    then have "n = dollar_quoted tag (u @ z # w)" "next_token e (u @ z' # w') = Some (dollar_quoted tag (u @ z' # w'))"
      using assms(3) B by simp_all
    moreover have "dollar_quoted tag u = n \<and> dollar_quoted tag (u @ z' # w') = n" if "n = dollar_quoted tag (u @ z # w)"
      using that assms(4)
      unfolding dollar_quoted_before [OF dollar(5) assms(1)] dollar_quoted_before [OF dollar(5) assms(5)]
      by (cases "index_of tag (drop (length tag) u)") (auto simp: dollar_quoted_def split: option.splits)
    ultimately show ?thesis using next_token_branches(4) [OF dollar(1,2) u dollar(3-5)] by simp
  next
    case other
    then show ?thesis
      using assms(3) B next_token_branches(5) [OF other(1,2) u other(3-5)] by auto
  qed
qed

lemma token_over:
  assumes "neutral z" "u \<noteq> []" "next_token e (u @ z # w) = Some n" "length u < n"
  shows "\<exists>m \<ge> length u. next_token e u = Some m"
proof -
  obtain c v where u: "u = c # v" using assms(2) by (cases u) simp_all
  note N = neutral_code [OF assms(1)]
  note B = next_token_before [OF assms(1) u, of e w]
  from u show ?thesis
  proof (cases rule: token_branch)
    case line
    then show ?thesis
      using assms(3,4) B line_comment_over [of u z w] by (simp add: next_token_branches(1))
  next
    case block
    then show ?thesis
      using assms(3,4) B block_comment_over [OF assms(1), of u 0 w] by (simp add: next_token_branches(2))
  next
    case quote
    then show ?thesis
      using assms(3,4) B quoted_over [of z c v "c = 39 \<and> e" w] N
        next_token_branches(3) [OF quote(2,3) u quote(1)] by (auto simp: u)
  next
    case (dollar tag)
    then have "n = dollar_quoted tag (u @ z # w)" using assms(3) B by simp
    then have "length u \<le> dollar_quoted tag u"
      using assms(4) index_of_bound [of tag "drop (length tag) u"] dollar_tag_text(1) [OF dollar(5) assms(1)]
      unfolding dollar_quoted_before [OF dollar(5) assms(1)]
      by (cases "index_of tag (drop (length tag) u)") (auto simp: dollar_quoted_def)
    then show ?thesis using next_token_branches(4) [OF dollar(1,2) u dollar(3-5)] by simp
  next
    case other
    then show ?thesis
      using assms(3,4) B next_token_branches(5) [OF other(1,2) u other(3-5)] by (auto simp: u split: if_splits)
  qed
qed

lemma token_none_before:
  assumes "neutral z" "u \<noteq> []"
  shows "next_token e (u @ z # w) = None \<longleftrightarrow> next_token e u = None"
proof -
  obtain c v where u: "u = c # v" using assms(2) by (cases u) simp_all
  show ?thesis
    unfolding next_token_before [OF assms(1) u]
    by (simp add: next_token_def Let_def u split: option.splits del: starts_with_simps)
qed

section \<open>A piece is one statement\<close>

lemma semicolon_neutral [simp]: "neutral 59"
  by (simp add: neutral_def)

lemma join_single: "pieces e rest = [p] \<Longrightarrow> p = rest"
  using join_pieces [of e rest] by simp

lemma first_piece_single:
  "pieces e rest = p # ps \<Longrightarrow> pieces e p = [p]"
proof (induction e rest arbitrary: p ps rule: pieces.induct)
  case (1 e rest)
  show ?case
  proof (cases "rest = [] \<or> ps = []")
    case True
    then show ?thesis using "1.prems" join_single by auto
  next
    case False
    then have rest: "rest \<noteq> []" by simp
    show ?thesis
    proof (cases "next_token e rest")
      case None
      then show ?thesis using "1.prems" by (simp add: pieces_end [OF rest])
    next
      case (Some n)
      let ?e = "ends_with_e (take n rest)"
      obtain p' ps' where q: "pieces ?e (drop n rest) = p' # ps'"
        by (cases "pieces ?e (drop n rest)") simp_all
      have p: "p = take n rest @ p'" "ps' = ps"
        using "1.prems" q by (simp_all add: pieces_token [OF rest Some])
      have n: "n \<le> length rest"
      proof (rule ccontr)
        assume "\<not> n \<le> length rest"
        then have "pieces ?e (drop n rest) = [[]]" by simp
        then show False using q p False by simp
      qed
      have "rest = p @ 59 # js_join [59] ps"
        using join_pieces [of e rest] "1.prems" False by (simp add: join_Cons)
      then have "next_token e (p @ 59 # js_join [59] ps) = Some n" using Some by simp
      moreover have "p \<noteq> []" using p(1) n next_token_moves [OF Some rest] rest by simp
      ultimately have t: "next_token e p = Some n"
        using token_local [of 59 p e _ n 59] p(1) n by simp
      have d: "take n p = take n rest" "drop n p = p'" using p(1) n by simp_all
      have "pieces ?e p' = [p']" using 1(2) [OF rest Some q] .
      then show ?thesis using pieces_token [OF \<open>p \<noteq> []\<close> t] p(1) n by (simp add: d)
    qed
  qed
qed

lemma other_piece_single: "q \<in> set (tl (pieces e rest)) \<Longrightarrow> pieces False q = [q]"
proof (induction e rest rule: pieces.induct)
  case (1 e rest)
  show ?case
  proof (cases "rest = []")
    case False
    show ?thesis
    proof (cases "next_token e rest")
      case None
      obtain p ps where q: "pieces False (tl rest) = p # ps"
        by (cases "pieces False (tl rest)") simp_all
      show ?thesis
        using "1.prems" 1(1) [OF False None] first_piece_single [OF q]
        by (auto simp: pieces_end [OF False None] q)
    next
      case (Some n)
      then show ?thesis
        using "1.prems" 1(2) [OF False Some] by (simp add: pieces_token [OF False Some])
    qed
  qed (use "1.prems" in simp)
qed

lemma piece_single:
  assumes "q \<in> set (pieces False rest)"
  shows "pieces False q = [q]"
proof -
  obtain p ps where q: "pieces False rest = p # ps" by (cases "pieces False rest") simp_all
  show ?thesis
    using assms first_piece_single [OF q] other_piece_single [of q False rest] by (auto simp: q)
qed

lemma space_token:
  assumes "js_space c"
  shows "next_token e (c # rest) = Some 1"
proof -
  note N = neutral_code [of c]
  have c: "neutral c" "c \<noteq> 59" using assms by (auto simp: neutral_def js_space_def)
  then show ?thesis using N by (simp add: next_token_def dollar_tag_def)
qed

lemma single_after_space:
  assumes "js_space c" "pieces False (c # p) = [c # p]"
  shows "pieces False p = [p]"
proof -
  have e: "\<not> ends_with_e [c]" using assms(1) by (auto simp: ends_with_e_def js_space_def)
  have "pieces False (c # p) = (c # hd (pieces False p)) # tl (pieces False p)"
    using pieces_token [OF _ space_token [OF assms(1)], of p False] e by simp
  then show ?thesis using assms(2) by (cases "pieces False p") simp_all
qed

lemma single_before_space:
  "js_space z \<Longrightarrow> pieces e (p @ [z]) = [p @ [z]] \<Longrightarrow> pieces e p = [p]"
proof (induction e p rule: pieces.induct)
  case (1 e p)
  have z: "neutral z" using "1.prems"(1) by (simp add: neutral_def)
  show ?case
  proof (cases "p = []")
    case False
    show ?thesis
    proof (cases "next_token e (p @ [z])")
      case None
      then show ?thesis using "1.prems"(2) pieces_end [OF _ None] False by simp
    next
      case (Some n)
      show ?thesis
      proof (cases "n \<le> length p")
        case True
        then have t: "next_token e p = Some n" using token_local [OF z False Some _ z] by blast
        let ?e = "ends_with_e (take n p)"
        have "pieces e (p @ [z]) = (take n p @ hd (pieces ?e (drop n p @ [z]))) # tl (pieces ?e (drop n p @ [z]))"
          using pieces_token [OF _ Some] True by simp
        then have "pieces ?e (drop n p @ [z]) = [drop n p @ [z]]"
          using "1.prems"(2) join_single [of ?e "drop n p @ [z]"]
          by (cases "pieces ?e (drop n p @ [z])") simp_all
        then have "pieces ?e (drop n p) = [drop n p]" using 1(2) [OF False t "1.prems"(1)] by blast
        then show ?thesis by (simp add: pieces_token [OF False t])
      next
        case over: False
        then obtain m where m: "length p \<le> m" "next_token e p = Some m"
          using token_over [OF z False Some] by auto
        then show ?thesis by (simp add: pieces_token [OF False m(2)])
      qed
    qed
  qed simp
qed

lemma single_dropWhile: "pieces False p = [p] \<Longrightarrow> pieces False (dropWhile js_space p) = [dropWhile js_space p]"
  by (induction p) (auto dest: single_after_space)

lemma single_dropWhile_end:
  "pieces False p = [p] \<Longrightarrow>
     pieces False (rev (dropWhile js_space (rev p))) = [rev (dropWhile js_space (rev p))]"
  by (induction p rule: rev_induct) (auto dest: single_before_space)

lemma single_trim: "pieces False p = [p] \<Longrightarrow> pieces False (js_trim p) = [js_trim p]"
  unfolding js_trim_def by (intro single_dropWhile_end single_dropWhile)

lemma trim_trim: "js_trim (js_trim s) = js_trim s"
proof -
  define t where "t = dropWhile js_space s"
  have t: "dropWhile js_space t = t" by (simp add: t_def dropWhile_idem)
  have "dropWhile js_space (rev (dropWhile js_space (rev t))) = rev (dropWhile js_space (rev t))"
  proof (cases t)
    case (Cons c v)
    then have "\<not> js_space c" using t by (auto split: if_splits) (metis impossible_Cons length_dropWhile_le)
    then show ?thesis by (simp add: Cons dropWhile_append)
  qed simp
  then show ?thesis by (simp add: js_trim_def t_def)
qed

section \<open>Statements that a semicolon ends\<close>

definition complete :: "js_string \<Rightarrow> bool" where
  "complete s \<longleftrightarrow> s \<noteq> [] \<and> js_trim s = s \<and> pieces False (s @ [59]) = [s, []]"

lemma pieces_semicolon: "pieces e (59 # v) = [] # pieces False v"
  using pieces_end [of "59 # v" e] by (simp add: next_token_def dollar_tag_def)

lemma pieces_ended:
  "pieces e (s @ [59]) = [s, []] \<Longrightarrow> pieces e (s @ 59 # v) = s # pieces False v"
proof (induction e s rule: pieces.induct)
  case (1 e s)
  show ?case
  proof (cases "s = []")
    case False
    show ?thesis
    proof (cases "next_token e (s @ [59])")
      case None
      then show ?thesis using "1.prems" pieces_end [OF _ None] False by simp
    next
      case (Some n)
      let ?e = "ends_with_e (take n s)"
      have n: "n \<le> length s"
      proof (rule ccontr)
        assume "\<not> n \<le> length s"
        then have "take n (s @ [59]) = s @ [59]" "drop n (s @ [59]) = []" by simp_all
        then show False using pieces_token [OF _ Some] "1.prems" by simp
      qed
      then have t: "next_token e (s @ 59 # v) = Some n" "next_token e s = Some n"
        using token_local [OF _ False Some, of 59 v] by simp_all
      obtain p ps where q: "pieces ?e (drop n s @ [59]) = p # ps"
        by (cases "pieces ?e (drop n s @ [59])") simp_all
      then have "take n s @ p = s" "ps = [[]]"
        using pieces_token [OF _ Some] "1.prems" n by simp_all
      then have "pieces ?e (drop n s @ [59]) = [drop n s, []]"
        using q append_take_drop_id [of n s] by (metis same_append_eq)
      from 1(2) [OF False t(2) this] show ?thesis
        using pieces_token [OF _ t(1)] n by simp
    qed
  qed (simp add: pieces_semicolon)
qed

lemma pieces_complete:
  "\<forall>s \<in> set ss. complete s \<Longrightarrow> pieces False (concat (map (\<lambda>s. s @ [59]) ss)) = ss @ [[]]"
  by (induction ss) (simp_all add: complete_def pieces_ended)

end
