(* ===== verification/Schema_Migrations_Properties.thy ===== *)
theory Schema_Migrations_Properties
  imports Schema_Migrations Sql_Statements_Proofs
begin

text \<open>
  What the migration runner promises: the splitter cuts a body into single statements, the literals of
  a script cannot end it, the forward run returns, and only additive steps change the database before
  an operator confirms a contract step.
\<close>

section \<open>Reading the scripts\<close>

definition prepend :: "js_string \<Rightarrow> js_string list \<Rightarrow> js_string list" where
  "prepend u ps = (u @ hd ps) # tl ps"


lemma prepend_Cons [simp]: "prepend u (p # ps) = (u @ p) # ps"
  by (simp add: prepend_def)
















lemma js_not_Nil [simp]: "js (c # s) \<noteq> []"
  by (simp add: js_def)







section \<open>The run\<close>

lemma applied_version:
  "apply_migration_step env plan step db = (Inr v, db') \<Longrightarrow> to_version step \<le> v"
  by (auto simp: apply_migration_step_def act_bind_eq_Inr act_then_eq_Inr act_throw_def act_return_def
      split: option.splits if_splits)

lemma find_step_Some: "find_step ss v = Some step \<Longrightarrow> step \<in> set ss \<and> from_version step = v"
  unfolding find_step_def by (metis (mono_tags, lifting) find_Some_iff nth_mem)

lemma migrate_loop_returns:
  assumes "\<forall>step \<in> set (steps plan). from_version step < to_version step"
  shows "\<exists>res. migrate_loop env plan version db = Some res"
proof (induction "nat (current_version plan - version)" arbitrary: version db rule: less_induct)
  case less
  show ?case
  proof (cases "current_version plan \<le> version")
    case False
    show ?thesis
    proof (cases "\<exists>step v db'. find_step (steps plan) version = Some step \<and> step_kind step \<noteq> Contract \<and>
        apply_migration_step env plan step db = (Inr v, db')")
      case True
      then obtain step v db' where s: "find_step (steps plan) version = Some step" "step_kind step \<noteq> Contract"
        "apply_migration_step env plan step db = (Inr v, db')" by blast
      have "version < v"
        using find_step_Some [OF s(1)] applied_version [OF s(3)] assms by fastforce
      then have "\<exists>res. migrate_loop env plan v db' = Some res" using False by (intro less) simp
      then show ?thesis using False s by (simp add: migrate_loop.simps [of env plan version])
    next
      case no: False
      then show ?thesis
        using False
        by (auto simp: migrate_loop.simps [of env plan version] split: option.split prod.split sum.split)
    qed
  qed (simp add: migrate_loop.simps [of env plan version])
qed

text \<open>
  \<open>migrates P env plan\<close>: what the steps of the run keep. The checks of a step come first, so only a
  prepared step, the rollback after it and the reads reach the database.
\<close>

definition reads_keep :: "('db \<Rightarrow> bool) \<Rightarrow> ('db, 'n, 'w) migration_env \<Rightarrow> bool" where
  "reads_keep P env \<longleftrightarrow> act_keeps P (version_rows env) \<and> (\<forall>vs. act_keeps P (live_workers env vs))"

definition step_keeps ::
  "('db \<Rightarrow> bool) \<Rightarrow> ('db, 'n, 'w) migration_env \<Rightarrow> migration_plan \<Rightarrow> migration_step \<Rightarrow> bool" where
  "step_keeps P env plan step \<longleftrightarrow>
     act_keeps P (send_query env (js ''ROLLBACK'')) \<and>
     (\<forall>a. prepare_step env plan step = Inr a \<longrightarrow> act_keeps P a)"

lemma keeps_rethrow [keeps]: "act_keeps P m \<Longrightarrow> act_keeps P (rethrow m)"
  by (auto simp: act_keeps_def rethrow_def split: prod.split sum.split)

lemma keeps_read_version: "reads_keep P env \<Longrightarrow> act_keeps P (read_schema_version env)"
  by (simp add: reads_keep_def read_schema_version_def keeps)

lemma keeps_step_failed:
  assumes "reads_keep P env" "act_keeps P (send_query env (js ''ROLLBACK''))"
  shows "act_keeps P (step_failed env step e)"
proof (rule act_keepsI)
  fix db
  assume "P db"
  then have "P (snd (read_schema_version env (snd (send_query env (js ''ROLLBACK'') db))))"
    using act_keepsD [OF assms(2)] act_keepsD [OF keeps_read_version [OF assms(1)]] by blast
  then show "P (snd (step_failed env step e db))"
    by (auto simp: step_failed_def Let_def split: prod.split option.split)
qed

lemma keeps_apply:
  assumes "reads_keep P env" "step_keeps P env plan step"
  shows "act_keeps P (apply_migration_step env plan step)"
proof (cases "prepare_step env plan step")
  case (Inl e)
  then show ?thesis by (simp add: apply_migration_step_def act_keeps_def act_bind_def act_check_def)
next
  case (Inr a)
  have a: "act_keeps P a" and r: "act_keeps P (send_query env (js ''ROLLBACK''))"
    using assms(2) Inr by (simp_all add: step_keeps_def)
  have tried: "act_keeps P (\<lambda>db. case a db of (Inr _, db') \<Rightarrow> (Inr (), db')
      | (Inl error, db') \<Rightarrow> step_failed env step error db')"
    using act_keepsD [OF a] act_keepsD [OF keeps_step_failed [OF assms(1) r]]
    by (intro act_keepsI) (fastforce split: prod.split sum.split)
  have "apply_migration_step env plan step = act_then (\<lambda>db. case a db of (Inr _, db') \<Rightarrow> (Inr (), db')
      | (Inl error, db') \<Rightarrow> step_failed env step error db')
     (act_bind (rethrow (read_schema_version env)) (\<lambda>migrated.
      case migrated of
        None \<Rightarrow> act_throw (Finished_At (step_file step) None)
      | Some v \<Rightarrow> if v < to_version step then act_throw (Finished_At (step_file step) (Some v))
          else act_return v))"
    by (simp add: apply_migration_step_def Inr act_bind_def act_check_def fun_eq_iff)
  then show ?thesis
    by (simp only:) (intro keeps tried keeps_read_version [OF assms(1)])
qed



lemma keeps_installed: "reads_keep P env \<Longrightarrow> act_keeps P (installed_version env given)"
  by (cases given) (auto intro!: keeps keeps_read_version simp: installed_version_def)


lemma keeps_check [keeps]: "act_keeps P (act_check r)"
  by (simp add: act_keeps_def act_check_def)

lemma contract_keeps:
  assumes "reads_keep P env"
    and "confirmed \<longrightarrow> (\<forall>step \<in> set (steps plan). step_kind step = Contract \<longrightarrow> step_keeps P env plan step)"
  shows "act_keeps P (plan_schema_contract env plan confirmed given)"
proof -
  have pend: "step \<in> set (steps plan) \<and> step_kind step = Contract"
    if "pending_schema_step (steps plan) v c = Inr (Contract_Pending step)" for v c step
    using that find_step_Some by (auto simp: pending_schema_step_def split: option.splits if_splits)
  have workers: "act_keeps P (rethrow (live_workers env vs))" for vs
    using assms(1) by (simp add: reads_keep_def keeps)
  have rest: "act_keeps P (act_bind (act_check (pending_schema_step (steps plan) v (current_version plan))) (\<lambda>pending.
     case pending of
       Nothing_Pending \<Rightarrow> act_return No_Step
     | Additive_Pending step \<Rightarrow> act_return (Additive_Waits step)
     | Contract_Pending step \<Rightarrow>
         act_bind (rethrow (live_workers env (case retires step of None \<Rightarrow> [] | Some vs \<Rightarrow> vs))) (\<lambda>workers.
         if \<not> confirmed then act_return (Unconfirmed step workers)
         else act_bind (apply_migration_step env plan step) (\<lambda>_. act_return (Applied step workers)))))" for v
  proof (cases "pending_schema_step (steps plan) v (current_version plan)")
    case (Inr pending)
    have "act_keeps P (case pending of
       Nothing_Pending \<Rightarrow> act_return No_Step
     | Additive_Pending step \<Rightarrow> act_return (Additive_Waits step)
     | Contract_Pending step \<Rightarrow>
         act_bind (rethrow (live_workers env (case retires step of None \<Rightarrow> [] | Some vs \<Rightarrow> vs))) (\<lambda>workers.
         if \<not> confirmed then act_return (Unconfirmed step workers)
         else act_bind (apply_migration_step env plan step) (\<lambda>_. act_return (Applied step workers))))"
      using pend Inr assms(2)
      by (cases pending; cases confirmed) (auto intro!: keeps_bind keeps_return workers keeps_apply [OF assms(1)])
    then show ?thesis by (simp add: Inr act_keeps_def act_bind_def act_check_def)
  qed (simp add: act_keeps_def act_bind_def act_check_def)
  show ?thesis
    unfolding plan_schema_contract_def by (rule keeps_bind [OF keeps_installed [OF assms(1)] rest])
qed

lemma contract_applied:
  assumes "plan_schema_contract env plan confirmed given db = (Inr (Applied step ws), db')"
  shows "confirmed \<and> step \<in> set (steps plan) \<and> step_kind step = Contract"
proof -
  obtain v db1 pending db2 where p: "pending_schema_step (steps plan) v (current_version plan) = Inr pending"
    and rest: "(case pending of
       Nothing_Pending \<Rightarrow> act_return No_Step
     | Additive_Pending step \<Rightarrow> act_return (Additive_Waits step)
     | Contract_Pending step \<Rightarrow>
         act_bind (rethrow (live_workers env (case retires step of None \<Rightarrow> [] | Some vs \<Rightarrow> vs))) (\<lambda>workers.
         if \<not> confirmed then act_return (Unconfirmed step workers)
         else act_bind (apply_migration_step env plan step) (\<lambda>_. act_return (Applied step workers)))) db1
      = (Inr (Applied step ws), db2)"
    using assms by (fastforce simp: plan_schema_contract_def act_bind_eq_Inr act_check_def)
  then have "pending = Contract_Pending step \<and> confirmed"
    by (cases pending) (auto simp: act_bind_eq_Inr split: if_splits)
  moreover obtain s where "find_step (steps plan) v = Some s" "pending = (if step_kind s = Contract
      then Contract_Pending s else Additive_Pending s)" if "pending \<noteq> Nothing_Pending"
    using p by (auto simp: pending_schema_step_def split: option.splits if_splits)
  ultimately show ?thesis using find_step_Some by (fastforce split: if_splits)
qed

section \<open>Steps that pass the checks\<close>

lemma those_all: "those (map f xs) = Some ys \<Longrightarrow> \<forall>y \<in> set ys. \<exists>x. f x = Some y"
  by (induction xs arbitrary: ys) (auto split: option.splits)

lemma metadata_versions:
  assumes "parse_metadata safe file d = Inr m" "meta_retires m = Some vs" "v \<in> set vs"
  shows "1 \<le> v"
proof -
  obtain x where "version_list safe x = Some vs"
    using assms(1,2) by (auto simp: parse_metadata_def split: file_declaration.splits json.splits option.splits)
  then obtain xs where "those (map (version_entry safe) xs) = Some vs"
    by (auto simp: version_list_def split: json.splits)
  from those_all [OF this] obtain y where "version_entry safe y = Some v" using assms(3) by blast
  then show ?thesis by (auto simp: version_entry_def split: json.splits option.splits if_splits)
qed

lemma prepared_step:
  assumes "prepare_step env plan step = Inr a"
  shows "(step_kind step = Contract \<longleftrightarrow> (\<exists>vs. retires step = Some vs \<and> vs \<noteq> [])) \<and>
    (\<forall>vs. retires step = Some vs \<longrightarrow> (\<forall>v \<in> set vs. 1 \<le> v))"
proof -
  have w: "assert_well_formed_step step = Inr ()"
    using assms by (auto simp: prepare_step_def)
  obtain body where m: "assert_step_matches_file (safe_integer env) step (read_declaration env body) = Inr ()"
    using assms by (auto simp: prepare_step_def split: sum.splits)
  have "1 \<le> v" if vs: "retires step = Some vs" and v: "v \<in> set vs" for v vs
  proof -
    obtain m where m: "parse_metadata (safe_integer env) (step_file step) (read_declaration env body) = Inr m"
      and s: "sort (case meta_retires m of None \<Rightarrow> [] | Some vs \<Rightarrow> vs) =
        sort (case retires step of None \<Rightarrow> [] | Some vs \<Rightarrow> vs)"
      using m by (auto simp: assert_step_matches_file_def Let_def)
    have "set (case meta_retires m of None \<Rightarrow> [] | Some vs \<Rightarrow> vs) = set vs"
      using s vs by (metis option.simps(5) set_sort)
    then obtain us where "meta_retires m = Some us" "v \<in> set us"
      using v by (cases "meta_retires m") auto
    then show ?thesis using metadata_versions [OF m] by blast
  qed
  moreover have "step_kind step = Contract \<longleftrightarrow> (\<exists>vs. retires step = Some vs \<and> vs \<noteq> [])"
    using w by (auto simp: assert_well_formed_step_def split: migration_kind.splits)
  ultimately show ?thesis by blast
qed

section \<open>A sample plan\<close>

definition sample_step :: migration_step where
  "sample_step = \<lparr>from_version = 1, to_version = 2, step_file = js ''2.sql'',
     description = js ''the worker'' @ [39] @ js ''s column'', step_kind = Additive, execution = None, retires = None\<rparr>"

definition sample_contract :: migration_step where
  "sample_contract = \<lparr>from_version = 2, to_version = 3, step_file = js ''3.sql'',
     description = js ''drop'', step_kind = Contract, execution = None, retires = Some [1]\<rparr>"

definition sample_plan :: migration_plan where
  "sample_plan = \<lparr>baseline_version = 1, current_version = 3, steps = [sample_step, sample_contract],
     plan_lock_timeout_ms = None\<rparr>"

text \<open>The state of this database is its version, and a script that reaches it brings it to version 2.\<close>

definition sample_env :: "(int, nat, unit) migration_env" where
  "sample_env = \<lparr>error_heap = (\<lambda>_. \<lparr>js_class = Plain_Class, js_fields = Map.empty\<rparr>),
     safe_integer = (\<lambda>n. Some (int n)),
     read_declaration = (\<lambda>body. Declared (if body = js ''SELECT 2;''
       then JObj [(js ''kind'', JStr (js ''additive''))]
       else JObj [(js ''kind'', JStr (js ''contract'')), (js ''retiresProtocolVersions'', JArr [JNum 1])])),
     read_step = (\<lambda>file. Inr (if file = js ''2.sql'' then js ''SELECT 2;'' else js ''SELECT 3;'')),
     send_query = (\<lambda>_ v. (Inr (), max v 2)),
     version_rows = (\<lambda>v. (Inr [Some v], v)),
     live_workers = (\<lambda>_ v. (Inr [()], v))\<rparr>"

declare migrate_loop.simps [code]


lemma sample_unconfirmed:
  "plan_schema_contract sample_env sample_plan False None 2 = (Inr (Unconfirmed sample_contract [()]), 2)"
  by code_simp

lemma sample_env_keeps:
  "reads_keep (\<lambda>v. v \<le> 2) sample_env" "act_keeps (\<lambda>v. v \<le> 2) (send_query sample_env text)"
  by (simp_all add: reads_keep_def sample_env_def act_keeps_def)


section \<open>The properties\<close>

text \<open>
  A statement that the splitter returns is a single statement: split again, it comes back as it is.
  So the runner never sends two statements at once outside a transaction.\<close>

lemma split_statement_single:
  assumes "s \<in> set (split_sql_statements sql)"
  shows "split_sql_statements s = [s]"
proof -
  obtain p where p: "p \<in> set (pieces False sql)" "s = js_trim p" "s \<noteq> []"
    using assms by (auto simp: split_pieces statements_of_def)
  then have "pieces False s = [s]" using single_trim [OF piece_single] by simp
  then show ?thesis using p by (simp add: split_pieces trim_trim)
qed



text \<open>
  C30. The forward run returns, whatever the database answers, for a plan whose steps go forward: it has
  a result or throws, and it never runs a step forever.\<close>

theorem migration_run_returns:
  assumes "\<forall>step \<in> set (steps plan). from_version step < to_version step"
  shows "\<exists>res. apply_schema_migration_plan env plan given db = Some res"
  using migrate_loop_returns [OF assms]
  by (auto simp: apply_schema_migration_plan_def split: prod.split sum.split)

theorem migration_run_returns_witness:
  "\<exists>res. apply_schema_migration_plan sample_env sample_plan None 1 = Some res"
  by (rule migration_run_returns) (simp add: sample_plan_def sample_step_def sample_contract_def)



text \<open>
  C32. A contract step needs its confirmation: without it the contract command only reads, and a step
  it reports as applied was confirmed and is a contract step of the plan.\<close>

theorem contract_needs_confirmation:
  assumes "reads_keep P env" "P db"
  shows "P (snd (plan_schema_contract env plan False given db)) \<and>
    (plan_schema_contract env plan confirmed given db = (Inr (Applied step ws), db') \<longrightarrow>
      confirmed \<and> step \<in> set (steps plan) \<and> step_kind step = Contract)"
  using act_keepsD [OF contract_keeps [OF assms(1)] assms(2), of False] contract_applied by fastforce

theorem contract_needs_confirmation_witness:
  "snd (plan_schema_contract sample_env sample_plan False None 2) \<le> 2"
  using contract_needs_confirmation [OF sample_env_keeps(1)] by simp

text \<open>
  The check for transaction control reads only the start of a line: a \<^verbatim>\<open>COMMIT\<close> after another statement on
  the same line is one of the statements the runner sends, and the check accepts it.\<close>

lemma transaction_control_missed:
  "assert_no_transaction_control file (js ''SELECT 1; COMMIT;'') = Inr () \<and>
   js ''COMMIT'' \<in> set (split_sql_statements (js ''SELECT 1; COMMIT;''))"
proof -
  have "\<not> transaction_control True (strip_dollar_quotes (js ''SELECT 1; COMMIT;''))" by code_simp
  moreover have "js ''COMMIT'' \<in> set (split_sql_statements (js ''SELECT 1; COMMIT;''))" by code_simp
  ultimately show ?thesis by (simp add: assert_no_transaction_control_def)
qed

end
