(* ===== verification/Borrowed_Connections.thy ===== *)
theory Borrowed_Connections
  imports Workhorse_Prelude
begin

text \<open>
  The ordinary borrows of \<^verbatim>\<open>heartbeat-connection.ts\<close>: \<^verbatim>\<open>borrowConnectionWithin\<close> and the connects it shares
  between borrows of one pool. A connect is named by the number of its acquisition, and so is the
  client it gives. Each callback of the event loop is an event: a borrow that starts, a connect that
  settles, a timer or an abort, the operation of a borrow that settles, and the two points where a
  borrow resumes after a \<^verbatim>\<open>Promise.race\<close>. A race keeps what settled it first until the borrow resumes.
\<close>

section \<open>Data\<close>

text \<open>\<^verbatim>\<open>BorrowAcquisition\<close>: the borrow that waits, and whether the connect settled.\<close>

record acquisition =
  waiter :: "nat option"
  settled :: bool

datatype stop_reason = Timeout | Aborted

datatype wait_outcome = Delivered | Connect_Failed | Wait_Stopped stop_reason

datatype work_outcome = Work_Value | Work_Error | Work_Stopped stop_reason

datatype borrow_phase = Waiting | Working | Done

record borrow =
  taken :: nat
  received :: bool
  stopped :: "stop_reason option"
  wait_race :: "wait_outcome option"
  work_race :: "work_outcome option"
  phase :: borrow_phase

text \<open>\<open>released\<close> logs each client that goes back to the pool, and whether it is destroyed.\<close>

record borrows =
  parked :: "nat list"
  acquisitions :: "nat \<rightharpoonup> acquisition"
  next_acquisition :: nat
  borrow_of :: "nat \<rightharpoonup> borrow"
  released :: "(nat \<times> bool) list"

definition no_borrows :: borrows where
  "no_borrows = \<lparr>parked = [], acquisitions = Map.empty, next_acquisition = 0, borrow_of = Map.empty,
     released = []\<rparr>"

section \<open>Connects\<close>

definition unpark :: "nat \<Rightarrow> borrows \<Rightarrow> borrows" where
  "unpark a s = s\<lparr>parked := remove1 a (parked s)\<rparr>"

definition park_borrow :: "nat \<Rightarrow> borrows \<Rightarrow> borrows" where
  "park_borrow a s = s\<lparr>parked := parked s @ [a]\<rparr>"

definition release_to_pool :: "nat \<Rightarrow> bool \<Rightarrow> borrows \<Rightarrow> borrows" where
  "release_to_pool a destroy s = s\<lparr>released := released s @ [(a, destroy)]\<rparr>"

text \<open>\<^verbatim>\<open>borrowAcquisition\<close>: the oldest parked connect, or a new one.\<close>

definition borrow_acquisition :: "borrows \<Rightarrow> nat \<times> borrows" where
  "borrow_acquisition s =
     (case parked s of
        a # rest \<Rightarrow> (a, s\<lparr>parked := rest\<rparr>)
      | [] \<Rightarrow>
          let a = next_acquisition s in
          (a, s\<lparr>next_acquisition := Suc a,
                acquisitions := (acquisitions s)(a \<mapsto> \<lparr>waiter = None, settled = False\<rparr>)\<rparr>))"

text \<open>What a settled promise gives to the race that waits for it: only the first counts.\<close>

definition race :: "'a \<Rightarrow> 'a option \<Rightarrow> 'a option" where
  "race v r = (case r of None \<Rightarrow> Some v | Some w \<Rightarrow> Some w)"

text \<open>The waiter of a connect hears of it: \<^verbatim>\<open>deliver\<close> or \<^verbatim>\<open>fail\<close>.\<close>

definition deliver :: "nat \<Rightarrow> borrows \<Rightarrow> borrows" where
  "deliver b s =
     (case borrow_of s b of
        None \<Rightarrow> s
      | Some w \<Rightarrow> s\<lparr>borrow_of := (borrow_of s)(b \<mapsto>
          w\<lparr>received := True, wait_race := race Delivered (wait_race w)\<rparr>)\<rparr>)"

definition fail :: "nat \<Rightarrow> borrows \<Rightarrow> borrows" where
  "fail b s =
     (case borrow_of s b of
        None \<Rightarrow> s
      | Some w \<Rightarrow> s\<lparr>borrow_of := (borrow_of s)(b \<mapsto>
          w\<lparr>wait_race := race Connect_Failed (wait_race w)\<rparr>)\<rparr>)"

definition borrow_connect_settles :: "nat \<Rightarrow> bool \<Rightarrow> borrows \<Rightarrow> borrows" where
  "borrow_connect_settles a arrived s =
     (case acquisitions s a of
        None \<Rightarrow> s
      | Some q \<Rightarrow>
          if settled q then s
          else
            let s1 = unpark a (s\<lparr>acquisitions := (acquisitions s)(a \<mapsto> q\<lparr>settled := True, waiter := None\<rparr>)\<rparr>) in
            (case waiter q of
               Some b \<Rightarrow> if arrived then deliver b s1 else fail b s1
             | None \<Rightarrow> if arrived then release_to_pool a False s1 else s1))"

section \<open>Borrows\<close>

definition borrow_starts :: "nat \<Rightarrow> bool \<Rightarrow> borrows \<Rightarrow> borrows" where
  "borrow_starts b aborted s =
     (if borrow_of s b \<noteq> None then s
      else
        let (a, s1) = borrow_acquisition s;
            stop = (if aborted then Some Aborted else None) in
        s1\<lparr>acquisitions := (acquisitions s1)(a := map_option (\<lambda>q. q\<lparr>waiter := Some b\<rparr>) (acquisitions s1 a)),
           borrow_of := (borrow_of s1)(b \<mapsto> \<lparr>taken = a, received = False, stopped = stop,
             wait_race = map_option Wait_Stopped stop, work_race = None, phase = Waiting\<rparr>)\<rparr>)"

definition put_borrow :: "nat \<Rightarrow> borrow \<Rightarrow> borrows \<Rightarrow> borrows" where
  "put_borrow b w s = s\<lparr>borrow_of := (borrow_of s)(b \<mapsto> w)\<rparr>"

text \<open>The promise \<^verbatim>\<open>stopped\<close> resolves, by the timer or the signal. The \<^verbatim>\<open>finally\<close> of a borrow ends both.\<close>

definition borrow_stops :: "nat \<Rightarrow> stop_reason \<Rightarrow> borrows \<Rightarrow> borrows" where
  "borrow_stops b reason s =
     (case borrow_of s b of
        None \<Rightarrow> s
      | Some w \<Rightarrow>
          if phase w = Done \<or> stopped w \<noteq> None then s
          else put_borrow b (w\<lparr>stopped := Some reason,
                 wait_race := race (Wait_Stopped reason) (wait_race w),
                 work_race := (if phase w = Working then race (Work_Stopped reason) (work_race w)
                               else work_race w)\<rparr>) s)"

text \<open>A borrow after its first race.\<close>

definition wait_resumes :: "nat \<Rightarrow> borrows \<Rightarrow> borrows" where
  "wait_resumes b s =
     (case borrow_of s b of
        None \<Rightarrow> s
      | Some w \<Rightarrow>
          if phase w \<noteq> Waiting then s
          else
            (case wait_race w of
               None \<Rightarrow> s
             | Some Connect_Failed \<Rightarrow> put_borrow b (w\<lparr>phase := Done\<rparr>) s
             | Some Delivered \<Rightarrow>
                 put_borrow b (w\<lparr>phase := Working, work_race := map_option Work_Stopped (stopped w)\<rparr>) s
             | Some (Wait_Stopped reason) \<Rightarrow>
                 let s1 = put_borrow b (w\<lparr>phase := Done\<rparr>) s; a = taken w in
                 if received w then release_to_pool a False s1
                 else
                   (case acquisitions s1 a of
                      None \<Rightarrow> s1
                    | Some q \<Rightarrow>
                        if waiter q = None then s1
                        else
                          let s2 = s1\<lparr>acquisitions := (acquisitions s1)(a \<mapsto> q\<lparr>waiter := None\<rparr>)\<rparr> in
                          if settled q then s2 else park_borrow a s2)))"

definition work_settles :: "nat \<Rightarrow> bool \<Rightarrow> borrows \<Rightarrow> borrows" where
  "work_settles b ok s =
     (case borrow_of s b of
        None \<Rightarrow> s
      | Some w \<Rightarrow>
          if phase w \<noteq> Working then s
          else put_borrow b (w\<lparr>work_race := race (if ok then Work_Value else Work_Error) (work_race w)\<rparr>) s)"

text \<open>A borrow after its second race: only an operation that finished gives the connection back unharmed.\<close>

definition work_resumes :: "nat \<Rightarrow> borrows \<Rightarrow> borrows" where
  "work_resumes b s =
     (case borrow_of s b of
        None \<Rightarrow> s
      | Some w \<Rightarrow>
          if phase w \<noteq> Working then s
          else
            (case work_race w of
               None \<Rightarrow> s
             | Some out \<Rightarrow>
                 release_to_pool (taken w) (out \<noteq> Work_Value) (put_borrow b (w\<lparr>phase := Done\<rparr>) s)))"

section \<open>Runs\<close>

datatype borrow_event =
    Borrow_Starts nat bool
  | Connect_Settles nat bool
  | Borrow_Stops nat stop_reason
  | Wait_Resumes nat
  | Work_Settles nat bool
  | Work_Resumes nat

fun borrow_step :: "borrow_event \<Rightarrow> borrows \<Rightarrow> borrows" where
  "borrow_step (Borrow_Starts b aborted) s = borrow_starts b aborted s"
| "borrow_step (Connect_Settles a arrived) s = borrow_connect_settles a arrived s"
| "borrow_step (Borrow_Stops b reason) s = borrow_stops b reason s"
| "borrow_step (Wait_Resumes b) s = wait_resumes b s"
| "borrow_step (Work_Settles b ok) s = work_settles b ok s"
| "borrow_step (Work_Resumes b) s = work_resumes b s"

definition borrow_run :: "borrow_event list \<Rightarrow> borrows" where
  "borrow_run es = fold borrow_step es no_borrows"

end
