(* ===== verification/Borrowed_Connections_Properties.thy ===== *)
theory Borrowed_Connections_Properties
  imports Borrowed_Connections
begin

text \<open>
  Each connect of a borrow has exactly one owner. The abstract specification is a life cycle of one
  connect, and every callback moves every connect along it or leaves it where it is.
\<close>

section \<open>The life cycle of a connect\<close>

datatype owner = Nobody | Parked | Waited_By nat | Held_By nat | In_Pool | Failed

inductive owner_step :: "owner \<Rightarrow> owner \<Rightarrow> bool" where
  start: "owner_step Nobody (Waited_By b)"
| take: "owner_step Parked (Waited_By b)"
| arrive: "owner_step (Waited_By b) (Held_By b)"
| waited_fails: "owner_step (Waited_By b) Failed"
| park: "owner_step (Waited_By b) Parked"
| parked_fails: "owner_step Parked Failed"
| parked_arrives: "owner_step Parked In_Pool"
| return: "owner_step (Held_By b) In_Pool"

definition holds :: "borrows \<Rightarrow> nat \<Rightarrow> nat \<Rightarrow> bool" where
  "holds s b a \<longleftrightarrow> (\<exists>w. borrow_of s b = Some w \<and> taken w = a \<and> received w \<and> phase w \<noteq> Done)"

abbreviation in_pool :: "borrows \<Rightarrow> nat \<Rightarrow> bool" where
  "in_pool s a \<equiv> a \<in> fst ` set (released s)"

fun owned :: "borrows \<Rightarrow> nat \<Rightarrow> owner \<Rightarrow> bool" where
  "owned s a Nobody \<longleftrightarrow> acquisitions s a = None"
| "owned s a Parked \<longleftrightarrow> a \<in> set (parked s)"
| "owned s a (Waited_By b) \<longleftrightarrow> (\<exists>q. acquisitions s a = Some q \<and> waiter q = Some b)"
| "owned s a (Held_By b) \<longleftrightarrow> holds s b a"
| "owned s a In_Pool \<longleftrightarrow> in_pool s a"
| "owned s a Failed \<longleftrightarrow> (\<exists>q. acquisitions s a = Some q \<and> settled q) \<and> \<not> in_pool s a \<and> (\<forall>b. \<not> holds s b a)"

section \<open>The invariant\<close>

definition borrow_ok :: "borrows \<Rightarrow> nat \<Rightarrow> borrow \<Rightarrow> bool" where
  "borrow_ok s b w \<longleftrightarrow>
     (\<exists>q. acquisitions s (taken w) = Some q \<and>
        (phase w = Waiting \<and> \<not> received w \<longrightarrow> waiter q = Some b \<or> settled q) \<and>
        (received w \<longrightarrow> settled q \<and> (phase w = Done \<longleftrightarrow> in_pool s (taken w))) \<and>
        (wait_race w = Some Connect_Failed \<longrightarrow> settled q \<and> \<not> received w)) \<and>
     (phase w = Working \<longrightarrow> received w) \<and> (wait_race w = Some Delivered \<longrightarrow> received w)"

definition acquisition_ok :: "borrows \<Rightarrow> nat \<Rightarrow> acquisition \<Rightarrow> bool" where
  "acquisition_ok s a q \<longleftrightarrow>
     a < next_acquisition s \<and> (\<not> settled q \<and> waiter q = None \<longleftrightarrow> a \<in> set (parked s)) \<and>
     (\<forall>b. waiter q = Some b \<longrightarrow> \<not> settled q \<and>
        (\<exists>w. borrow_of s b = Some w \<and> taken w = a \<and> \<not> received w \<and> phase w = Waiting))"

definition one_receiver :: "borrows \<Rightarrow> bool" where
  "one_receiver s \<longleftrightarrow>
     (\<forall>b w. borrow_of s b = Some w \<and> received w \<longrightarrow>
        (\<forall>b' w'. borrow_of s b' = Some w' \<and> received w' \<and> taken w' = taken w \<longrightarrow> b' = b))"

definition connects_ok :: "borrows \<Rightarrow> bool" where
  "connects_ok s \<longleftrightarrow>
     (\<forall>a q. acquisitions s a = Some q \<longrightarrow> acquisition_ok s a q) \<and>
     (\<forall>b w. borrow_of s b = Some w \<longrightarrow> borrow_ok s b w) \<and>
     distinct (parked s) \<and> (\<forall>a \<in> set (parked s). acquisitions s a \<noteq> None) \<and>
     one_receiver s \<and>
     distinct (map fst (released s)) \<and>
     (\<forall>a. in_pool s a \<longrightarrow> (\<exists>q. acquisitions s a = Some q \<and> settled q))"

lemma connects_okD:
  assumes "connects_ok s"
  shows "acquisitions s a = Some q \<Longrightarrow> acquisition_ok s a q"
    and "borrow_of s b = Some w \<Longrightarrow> borrow_ok s b w"
    and "distinct (parked s)" and "a \<in> set (parked s) \<Longrightarrow> acquisitions s a \<noteq> None"
    and "one_receiver s"
    and "distinct (map fst (released s))"
    and "in_pool s a \<Longrightarrow> \<exists>q. acquisitions s a = Some q \<and> settled q"
  using assms unfolding connects_ok_def by blast+

lemma connects_okI:
  assumes "\<And>a q. acquisitions s a = Some q \<Longrightarrow> acquisition_ok s a q"
    and "\<And>b w. borrow_of s b = Some w \<Longrightarrow> borrow_ok s b w"
    and "distinct (parked s)" and "\<And>a. a \<in> set (parked s) \<Longrightarrow> acquisitions s a \<noteq> None"
    and "one_receiver s"
    and "distinct (map fst (released s))"
    and "\<And>a. in_pool s a \<Longrightarrow> \<exists>q. acquisitions s a = Some q \<and> settled q"
  shows "connects_ok s"
  using assms unfolding connects_ok_def by blast

section \<open>One owner\<close>

lemma holdsD:
  assumes "connects_ok s" "holds s b a"
  shows "\<exists>q. acquisitions s a = Some q \<and> settled q" "\<not> in_pool s a"
proof -
  obtain w where w: "borrow_of s b = Some w" "taken w = a" "received w" "phase w \<noteq> Done"
    using assms(2) by (auto simp: holds_def)
  show "\<exists>q. acquisitions s a = Some q \<and> settled q" "\<not> in_pool s a"
    using connects_okD(2) [OF assms(1) w(1)] w(2-) by (auto simp: borrow_ok_def)
qed

lemma holds_one: "connects_ok s \<Longrightarrow> holds s b a \<Longrightarrow> holds s b' a \<Longrightarrow> b = b'"
  using connects_okD(5) [of s] by (auto simp: holds_def one_receiver_def)

lemma owned_unsettled:
  assumes "connects_ok s" "acquisitions s a = Some q" "\<not> settled q"
  shows "owned s a own \<longleftrightarrow> own = (case waiter q of Some b \<Rightarrow> Waited_By b | None \<Rightarrow> Parked)"
proof -
  have "\<not> in_pool s a" using connects_okD(7) [OF assms(1), of a] assms(2,3) by auto
  moreover have "\<not> holds s b a" for b using holdsD(1) [OF assms(1), of b a] assms(2,3) by auto
  moreover have "a \<in> set (parked s) \<longleftrightarrow> waiter q = None"
    using connects_okD(1) [OF assms(1,2)] assms(3) by (simp add: acquisition_ok_def)
  ultimately show ?thesis using assms(2,3) by (cases own; cases "waiter q") auto
qed

lemma owned_settled:
  assumes "connects_ok s" "acquisitions s a = Some q" "settled q"
  shows "owned s a own \<longleftrightarrow> (case own of In_Pool \<Rightarrow> in_pool s a | Held_By b \<Rightarrow> holds s b a
    | Failed \<Rightarrow> \<not> in_pool s a \<and> (\<forall>b. \<not> holds s b a) | _ \<Rightarrow> False)"
proof -
  have "waiter q = None \<and> a \<notin> set (parked s)"
    using connects_okD(1) [OF assms(1,2)] assms(3) by (cases "waiter q") (auto simp: acquisition_ok_def)
  then show ?thesis using assms(2,3) by (cases own) simp_all
qed

lemma owned_fresh:
  assumes "connects_ok s" "acquisitions s a = None"
  shows "owned s a own \<longleftrightarrow> own = Nobody"
proof -
  have "a \<notin> set (parked s)" "\<not> in_pool s a"
    using connects_okD(4,7) [OF assms(1), of a] assms(2) by auto
  moreover have "\<not> holds s b a" for b using holdsD(1) [OF assms(1), of b a] assms(2) by auto
  ultimately show ?thesis using assms(2) by (cases own) simp_all
qed

lemma owner_unique:
  assumes "connects_ok s" "owned s a o1" "owned s a o2"
  shows "o1 = o2"
proof (cases "acquisitions s a")
  case None
  then show ?thesis using assms by (simp add: owned_fresh)
next
  case (Some q)
  show ?thesis
  proof (cases "settled q")
    case True
    note S = owned_settled [OF assms(1) Some True]
    show ?thesis
    proof (cases "\<exists>b. holds s b a")
      case True
      then obtain b where b: "holds s b a" by blast
      have "own = Held_By b" if own: "owned s a own" for own
      proof (cases own)
        case (Held_By b')
        then have "holds s b' a" using own by simp
        then show ?thesis using holds_one [OF assms(1) b] Held_By by blast
      qed (use own [unfolded S] b holdsD(2) [OF assms(1) b] in auto)
      then show ?thesis using assms(2,3) by blast
    next
      case no: False
      have "own = (if in_pool s a then In_Pool else Failed)" if own: "owned s a own" for own
        using own no unfolding S by (cases own) auto
      then show ?thesis using assms(2,3) by blast
    qed
  next
    case False
    then show ?thesis using assms(2,3) by (simp add: owned_unsettled [OF assms(1) Some])
  qed
qed


section \<open>The callbacks\<close>

definition moves :: "borrows \<Rightarrow> borrows \<Rightarrow> bool" where
  "moves s s' \<longleftrightarrow> (\<forall>a own. owned s a own \<longrightarrow> owned s' a own \<or> (\<exists>own'. owner_step own own' \<and> owned s' a own'))"

lemma movesI: "(\<And>a own. owned s a own \<Longrightarrow> owned s' a own \<or> (\<exists>own'. owner_step own own' \<and> owned s' a own')) \<Longrightarrow> moves s s'"
  by (simp add: moves_def)

lemma moves_refl: "moves s s"
  by (simp add: moves_def)

lemma moves_same: "(\<And>a own. owned s' a own = owned s a own) \<Longrightarrow> moves s s'"
  by (simp add: moves_def)

lemma holds_put: "holds (put_borrow b w s) b' a =
    (if b' = b then taken w = a \<and> received w \<and> phase w \<noteq> Done else holds s b' a)"
  by (auto simp: holds_def put_borrow_def)

text \<open>A change of a borrow that does not concern its connect.\<close>

lemma put_borrow_ok:
  assumes ok: "connects_ok s" and w: "borrow_of s b = Some w"
    and same: "taken w' = taken w" "received w' = received w" and w': "borrow_ok s b w'"
    and ends: "\<And>q. acquisitions s (taken w) = Some q \<Longrightarrow> waiter q = Some b \<Longrightarrow> phase w' = Waiting"
  shows "connects_ok (put_borrow b w' s)"
proof (rule connects_okI)
  note D = connects_okD [OF ok]
  let ?s = "put_borrow b w' s"
  have f: "acquisitions ?s = acquisitions s" "parked ?s = parked s" "released ?s = released s"
    "next_acquisition ?s = next_acquisition s" "borrow_of ?s = (borrow_of s)(b \<mapsto> w')"
    by (simp_all add: put_borrow_def)
  show "acquisition_ok ?s a q" if "acquisitions ?s a = Some q" for a q
  proof -
    have "acquisition_ok s a q" using that D(1) by (simp add: f)
    then show ?thesis using that ends w same by (auto simp: acquisition_ok_def f)
  qed
  show "borrow_ok ?s b' x" if "borrow_of ?s b' = Some x" for b' x
  proof -
    have "borrow_ok s b' x" using that D(2) w' by (auto simp: f split: if_splits)
    then show ?thesis by (simp add: borrow_ok_def f)
  qed
  show "one_receiver ?s"
    using D(5) w same by (fastforce simp: one_receiver_def f)
qed (use connects_okD [OF ok] in \<open>simp_all add: put_borrow_def\<close>)

lemma put_borrow_owned:
  assumes "borrow_of s b = Some w" "taken w' = taken w" "received w' = received w"
    and "received w \<Longrightarrow> (phase w' = Done \<longleftrightarrow> phase w = Done)"
  shows "owned (put_borrow b w' s) a own = owned s a own"
proof -
  have "holds (put_borrow b w' s) b' x = holds s b' x" for b' x
    using assms by (auto simp: holds_put) (auto simp: holds_def)
  then show ?thesis by (cases own) (simp_all add: put_borrow_def)
qed

text \<open>A borrow gives its client back.\<close>

lemma return_ok:
  assumes ok: "connects_ok s" and w: "borrow_of s b = Some w" "received w" "phase w \<noteq> Done"
  shows "connects_ok (release_to_pool (taken w) d (put_borrow b (w\<lparr>phase := Done\<rparr>) s))"
    and "moves s (release_to_pool (taken w) d (put_borrow b (w\<lparr>phase := Done\<rparr>) s))"
proof -
  let ?w = "w\<lparr>phase := Done\<rparr>"
  let ?s = "release_to_pool (taken w) d (put_borrow b ?w s)"
  note D = connects_okD [OF ok]
  have f: "acquisitions ?s = acquisitions s" "parked ?s = parked s" "released ?s = released s @ [(taken w, d)]"
    "next_acquisition ?s = next_acquisition s" "borrow_of ?s = (borrow_of s)(b \<mapsto> ?w)"
    by (simp_all add: put_borrow_def release_to_pool_def)
  obtain q where q: "acquisitions s (taken w) = Some q" "settled q" "\<not> in_pool s (taken w)"
    using D(2) [OF w(1)] w by (auto simp: borrow_ok_def)
  have idle: "waiter q = None" using D(1) [OF q(1)] q(2) by (cases "waiter q") (auto simp: acquisition_ok_def)
  have other: "taken x \<noteq> taken w" if "borrow_of s b' = Some x" "received x" "b' \<noteq> b" for b' x
    using D(5) w that unfolding one_receiver_def by blast
  show "connects_ok ?s"
  proof (rule connects_okI)
    show "acquisition_ok ?s a p" if "acquisitions ?s a = Some p" for a p
      using that D(1) [of a p] q idle w unfolding f
      by (cases "a = taken w") (auto simp: acquisition_ok_def f)
    show "borrow_ok ?s b' x" if x: "borrow_of ?s b' = Some x" for b' x
    proof (cases "b' = b")
      case True
      then have "x = ?w" using x by (simp add: f)
      then show ?thesis using D(2) [OF w(1)] w q by (auto simp: borrow_ok_def f)
    next
      case False
      then have x: "borrow_of s b' = Some x" using x by (simp add: f)
      have "in_pool ?s (taken x) = in_pool s (taken x)" if "received x"
        using other [OF x that False] by (auto simp: f)
      then show ?thesis using D(2) [OF x] by (auto simp: borrow_ok_def f)
    qed
    show "one_receiver ?s" using D(5) w by (auto simp: one_receiver_def f)
    show "distinct (map fst (released ?s))" using D(6) q(3) by (simp add: f)
    show "\<exists>p. acquisitions ?s a = Some p \<and> settled p" if "in_pool ?s a" for a
      using that D(7) [of a] q by (auto simp: f)
  qed (use D(3,4) in \<open>simp_all add: f\<close>)
  have h: "holds s b (taken w)" using w by (simp add: holds_def)
  have hs: "holds ?s b' x \<longleftrightarrow> holds s b' x \<and> x \<noteq> taken w" for b' x
  proof (cases "b' = b")
    case True
    then show ?thesis using w by (auto simp: holds_def f)
  next
    case False
    then show ?thesis using other [of b'] by (auto simp: holds_def f)
  qed
  show "moves s ?s"
  proof (rule movesI)
    fix a own
    assume own: "owned s a own"
    show "owned ?s a own \<or> (\<exists>own'. owner_step own own' \<and> owned ?s a own')"
    proof (cases "a = taken w")
      case True
      have "owned s a (Held_By b)" using h True by simp
      then have "own = Held_By b" using owner_unique [OF ok own] by blast
      moreover have "owned ?s a In_Pool" using True by (simp add: f)
      ultimately show ?thesis using owner_step.return by blast
    next
      case False
      then have "owned ?s a own" using own by (cases own) (auto simp: f hs)
      then show ?thesis ..
    qed
  qed
qed

text \<open>A borrow that stops waiting parks its connect.\<close>

lemma park_ok:
  assumes ok: "connects_ok s" and w: "borrow_of s b = Some w" "\<not> received w" "phase w = Waiting"
    and q: "acquisitions s (taken w) = Some q" "waiter q \<noteq> None"
  defines "s' \<equiv> park_borrow (taken w) ((put_borrow b (w\<lparr>phase := Done\<rparr>) s)
      \<lparr>acquisitions := (acquisitions s)(taken w \<mapsto> q\<lparr>waiter := None\<rparr>)\<rparr>)"
  shows "connects_ok s'" and "moves s s'"
proof -
  let ?a = "taken w" and ?w = "w\<lparr>phase := Done\<rparr>"
  note D = connects_okD [OF ok]
  have f: "acquisitions s' = (acquisitions s)(?a \<mapsto> q\<lparr>waiter := None\<rparr>)" "parked s' = parked s @ [?a]"
    "released s' = released s" "next_acquisition s' = next_acquisition s" "borrow_of s' = (borrow_of s)(b \<mapsto> ?w)"
    by (simp_all add: s'_def park_borrow_def put_borrow_def)
  have un: "\<not> settled q" "?a \<notin> set (parked s)"
    using D(1) [OF q(1)] q(2) by (auto simp: acquisition_ok_def)
  have wb: "waiter q = Some b"
    using D(2) [OF w(1)] w q un by (auto simp: borrow_ok_def)
  have np: "\<not> in_pool s ?a" using D(7) [of ?a] q(1) un(1) by auto
  have rx: "taken x \<noteq> ?a" if "borrow_of s b' = Some x" "received x" for b' x
    using D(2) [OF that(1)] that(2) q(1) un(1) by (auto simp: borrow_ok_def)
  have wx: "b' = b" if "borrow_of s b' = Some x" "phase x = Waiting" "\<not> received x" "taken x = ?a" for b' x
    using D(2) [OF that(1)] that(2-) q(1) un(1) wb by (auto simp: borrow_ok_def)
  show "connects_ok s'"
  proof (rule connects_okI)
    show "acquisition_ok s' a p" if p: "acquisitions s' a = Some p" for a p
    proof (cases "a = ?a")
      case True
      then show ?thesis using p D(1) [OF q(1)] un by (auto simp: acquisition_ok_def f)
    next
      case False
      then have "acquisition_ok s a p" using p D(1) by (simp add: f)
      then show ?thesis using False w by (auto simp: acquisition_ok_def f)
    qed
    show "borrow_ok s' b' x" if x: "borrow_of s' b' = Some x" for b' x
    proof (cases "b' = b")
      case True
      then show ?thesis using x D(2) [OF w(1)] w un(1) q(1) by (auto simp: borrow_ok_def f)
    next
      case False
      then have x: "borrow_of s b' = Some x" using x by (simp add: f)
      show ?thesis using D(2) [OF x] rx [OF x] wx [OF x] False un(1) q(1)
        by (auto simp: borrow_ok_def f)
    qed
    show "one_receiver s'" using D(5) w by (auto simp: one_receiver_def f)
    show "\<exists>p. acquisitions s' a = Some p \<and> settled p" if "in_pool s' a" for a
    proof -
      have "in_pool s a" using that by (simp add: f)
      then show ?thesis using D(7) [of a] np by (cases "a = ?a") (simp_all add: f)
    qed
  qed (use D(3,4,6) un in \<open>auto simp: f\<close>)
  have hs: "holds s' b' x = holds s b' x" for b' x using w by (auto simp: holds_def f)
  show "moves s s'"
  proof (rule movesI)
    fix a own
    assume own: "owned s a own"
    show "owned s' a own \<or> (\<exists>own'. owner_step own own' \<and> owned s' a own')"
    proof (cases "a = ?a")
      case True
      have "own = Waited_By b" using owner_unique [OF ok own, of "Waited_By b"] q(1) wb True by simp
      moreover have "owned s' a Parked" using True by (simp add: f)
      ultimately show ?thesis using owner_step.park by blast
    next
      case False
      then have "owned s' a own" using own by (cases own) (simp_all add: f hs)
      then show ?thesis ..
    qed
  qed
qed

text \<open>A connect settles with no borrow waiting: it goes back to the pool, or has failed.\<close>

lemma settle_parked_ok:
  fixes arrived :: bool
  assumes ok: "connects_ok s" and q: "acquisitions s a = Some q" "\<not> settled q" "waiter q = None"
  defines "s' \<equiv> s\<lparr>acquisitions := (acquisitions s)(a \<mapsto> q\<lparr>settled := True, waiter := None\<rparr>),
      parked := remove1 a (parked s), released := released s @ (if arrived then [(a, False)] else [])\<rparr>"
  shows "connects_ok s'" and "moves s s'"
proof -
  note D = connects_okD [OF ok]
  have f: "acquisitions s' = (acquisitions s)(a \<mapsto> q\<lparr>settled := True, waiter := None\<rparr>)"
    "parked s' = remove1 a (parked s)" "next_acquisition s' = next_acquisition s" "borrow_of s' = borrow_of s"
    "released s' = released s @ (if arrived then [(a, False)] else [])"
    by (simp_all add: s'_def)
  have pk: "set (parked s') = set (parked s) - {a}" "distinct (parked s')" using D(3) by (simp_all add: f)
  have np: "\<not> in_pool s a" using D(7) [of a] q by auto
  have rx: "taken x \<noteq> a" if "borrow_of s b' = Some x" "received x" for b' x
    using D(2) [OF that(1)] that(2) q by (auto simp: borrow_ok_def)
  show "connects_ok s'"
  proof (rule connects_okI)
    show "acquisition_ok s' c p" if p: "acquisitions s' c = Some p" for c p
    proof (cases "c = a")
      case True
      then show ?thesis using p D(1) [OF q(1)] pk by (auto simp: acquisition_ok_def f(1,3))
    next
      case False
      then have "acquisition_ok s c p" using p D(1) by (simp add: f)
      then show ?thesis using False pk by (simp add: acquisition_ok_def f(3,4))
    qed
    show "borrow_ok s' b x" if x: "borrow_of s' b = Some x" for b x
    proof -
      have x: "borrow_of s b = Some x" using x by (simp add: f)
      have "in_pool s' (taken x) = in_pool s (taken x)" if "received x" using rx [OF x that] by (auto simp: f)
      then show ?thesis using D(2) [OF x] q by (auto simp: borrow_ok_def f(1))
    qed
    show "one_receiver s'" using D(5) by (simp add: one_receiver_def f)
    show "distinct (map fst (released s'))" using D(6) np by (simp add: f)
    show "\<exists>p. acquisitions s' c = Some p \<and> settled p" if "in_pool s' c" for c
      using that D(7) [of c] by (cases "c = a") (auto simp: f split: if_splits)
    show "acquisitions s' c \<noteq> None" if "c \<in> set (parked s')" for c using that D(4) [of c] pk by (simp add: f)
  qed (rule pk(2))
  have hs: "holds s' b x = holds s b x" for b x by (simp add: holds_def f)
  have nh: "\<not> holds s b a" for b using rx by (auto simp: holds_def)
  show "moves s s'"
  proof (rule movesI)
    fix c own
    assume own: "owned s c own"
    show "owned s' c own \<or> (\<exists>own'. owner_step own own' \<and> owned s' c own')"
    proof (cases "c = a")
      case True
      have "own = Parked" using owned_unsettled [OF ok q(1,2)] own True q(3) by simp
      moreover have "owned s' c (if arrived then In_Pool else Failed)"
        using True np nh by (simp add: f hs)
      moreover have "owner_step Parked (if arrived then In_Pool else Failed)"
        using owner_step.parked_arrives owner_step.parked_fails by simp
      ultimately show ?thesis by blast
    next
      case False
      then have "owned s' c own" using own pk by (cases own) (auto simp: f(1,4,5) hs)
      then show ?thesis ..
    qed
  qed
qed

text \<open>A connect settles while a borrow waits for it.\<close>

lemma settle_waited_ok:
  fixes arrived :: bool
  assumes ok: "connects_ok s" and q: "acquisitions s a = Some q" "waiter q = Some b"
    and w: "borrow_of s b = Some w"
  defines "s' \<equiv> s\<lparr>acquisitions := (acquisitions s)(a \<mapsto> q\<lparr>settled := True, waiter := None\<rparr>),
      borrow_of := (borrow_of s)(b \<mapsto> w\<lparr>received := arrived,
        wait_race := race (if arrived then Delivered else Connect_Failed) (wait_race w)\<rparr>)\<rparr>"
  shows "connects_ok s'" and "moves s s'"
proof -
  let ?w = "w\<lparr>received := arrived, wait_race := race (if arrived then Delivered else Connect_Failed) (wait_race w)\<rparr>"
  note D = connects_okD [OF ok]
  have f: "acquisitions s' = (acquisitions s)(a \<mapsto> q\<lparr>settled := True, waiter := None\<rparr>)"
    "parked s' = parked s" "next_acquisition s' = next_acquisition s" "borrow_of s' = (borrow_of s)(b \<mapsto> ?w)"
    "released s' = released s"
    by (simp_all add: s'_def)
  have un: "\<not> settled q" "a \<notin> set (parked s)" "taken w = a" "\<not> received w" "phase w = Waiting"
    using D(1) [OF q(1)] q(2) w by (auto simp: acquisition_ok_def)
  have np: "\<not> in_pool s a" using D(7) [of a] q un by auto
  have rx: "taken x \<noteq> a" if "borrow_of s b' = Some x" "received x" for b' x
    using D(2) [OF that(1)] that(2) q un by (auto simp: borrow_ok_def)
  have race: "wait_race w \<noteq> Some Delivered" "wait_race w \<noteq> Some Connect_Failed"
    using D(2) [OF w] un q by (auto simp: borrow_ok_def)
  show "connects_ok s'"
  proof (rule connects_okI)
    show "acquisition_ok s' c p" if p: "acquisitions s' c = Some p" for c p
    proof (cases "c = a")
      case True
      then show ?thesis using p D(1) [OF q(1)] un by (auto simp: acquisition_ok_def f(1-3))
    next
      case False
      then have "acquisition_ok s c p" using p D(1) by (simp add: f)
      then show ?thesis using False un w by (auto simp: acquisition_ok_def f(2-4))
    qed
    show "borrow_ok s' b' x" if x: "borrow_of s' b' = Some x" for b' x
    proof (cases "b' = b")
      case True
      then have "x = ?w" using x by (simp add: f)
      then show ?thesis
        using un np race by (auto simp: borrow_ok_def f(1,5) race_def split: option.splits if_splits)
    next
      case False
      then have "borrow_of s b' = Some x" using x by (simp add: f)
      from D(2) [OF this] rx [OF this] show ?thesis using q un by (auto simp: borrow_ok_def f(1,5))
    qed
    show "one_receiver s'"
      unfolding one_receiver_def f
    proof (intro allI impI, elim conjE)
      fix b1 w1 b2 w2
      assume x: "((borrow_of s)(b \<mapsto> ?w)) b1 = Some w1" "received w1"
        "((borrow_of s)(b \<mapsto> ?w)) b2 = Some w2" "received w2" "taken w2 = taken w1"
      show "b2 = b1"
      proof (cases "b1 = b \<or> b2 = b")
        case True
        then show ?thesis using x rx [of b1 w1] rx [of b2 w2] un(3) by (auto split: if_splits)
      next
        case False
        then have "borrow_of s b1 = Some w1" "borrow_of s b2 = Some w2" using x by simp_all
        then show ?thesis using D(5) x unfolding one_receiver_def by blast
      qed
    qed
    show "\<exists>p. acquisitions s' c = Some p \<and> settled p" if "in_pool s' c" for c
      using that D(7) [of c] by (cases "c = a") (auto simp: f)
    show "acquisitions s' c \<noteq> None" if "c \<in> set (parked s')" for c using that D(4) [of c] by (simp add: f)
  qed (use D(3,6) in \<open>simp_all add: f\<close>)
  have hs: "holds s' b' x \<longleftrightarrow> holds s b' x \<or> arrived \<and> b' = b \<and> x = a" for b' x
    using un w by (auto simp: holds_def f(4))
  have nh: "\<not> holds s b' a" for b' using rx by (auto simp: holds_def)
  show "moves s s'"
  proof (rule movesI)
    fix c own
    assume own: "owned s c own"
    show "owned s' c own \<or> (\<exists>own'. owner_step own own' \<and> owned s' c own')"
    proof (cases "c = a")
      case True
      have "own = Waited_By b" using owned_unsettled [OF ok q(1) un(1)] own True q(2) by simp
      moreover have "owned s' c (if arrived then Held_By b else Failed)"
        using True np nh by (simp add: f(1,5) hs)
      moreover have "owner_step (Waited_By b) (if arrived then Held_By b else Failed)"
        using owner_step.arrive owner_step.waited_fails by simp
      ultimately show ?thesis by blast
    next
      case False
      then have "owned s' c own" using own by (cases own) (auto simp: f hs)
      then show ?thesis ..
    qed
  qed
qed

text \<open>A borrow starts: it waits for the oldest parked connect, or for a new one.\<close>

lemma start_ok:
  assumes ok: "connects_ok s" and b: "borrow_of s b = None"
    and pk: "parked s = a # ps \<and> acquisitions s a = Some q \<and> n = next_acquisition s \<or>
      parked s = ps \<and> ps = [] \<and> a = next_acquisition s \<and> n = Suc a \<and> q = \<lparr>waiter = None, settled = False\<rparr>"
    and w: "taken w = a" "\<not> received w" "phase w = Waiting"
      "wait_race w \<noteq> Some Delivered" "wait_race w \<noteq> Some Connect_Failed"
  defines "s' \<equiv> s\<lparr>parked := ps, next_acquisition := n, acquisitions := (acquisitions s)(a \<mapsto> q\<lparr>waiter := Some b\<rparr>),
      borrow_of := (borrow_of s)(b \<mapsto> w)\<rparr>"
  shows "connects_ok s'" and "moves s s'"
proof -
  note D = connects_okD [OF ok]
  have f: "acquisitions s' = (acquisitions s)(a \<mapsto> q\<lparr>waiter := Some b\<rparr>)" "parked s' = ps"
    "next_acquisition s' = n" "borrow_of s' = (borrow_of s)(b \<mapsto> w)" "released s' = released s"
    by (simp_all add: s'_def)
  have old: "\<not> settled p \<and> waiter p = None \<and> a \<in> set (parked s)" if "acquisitions s a = Some p" for p
    using D(1) [OF that] pk by (auto simp: acquisition_ok_def)
  have fresh: "acquisitions s a = None \<longrightarrow> a = next_acquisition s \<and> parked s = []" using pk by auto
  have q: "\<not> settled q" "a < n" "next_acquisition s \<le> n"
    using pk old D(1) [of a q] by (auto simp: acquisition_ok_def)
  have pset: "set ps = set (parked s) - {a}" "distinct ps" using pk D(3) D(1) [of a] D(4) [of a] by auto
  have np: "\<not> in_pool s a" using D(7) [of a] old by auto
  have rx: "phase x = Done \<and> \<not> received x \<and> wait_race x \<noteq> Some Connect_Failed"
    if x: "borrow_of s b' = Some x" "taken x = a" for b' x
  proof -
    obtain p where p: "acquisitions s a = Some p" using D(2) [OF x(1)] x(2) by (auto simp: borrow_ok_def)
    show ?thesis using D(2) [OF x(1)] x(2) old [OF p] p by (cases "phase x") (auto simp: borrow_ok_def)
  qed
  show "connects_ok s'"
  proof (rule connects_okI)
    show "acquisition_ok s' c p" if p: "acquisitions s' c = Some p" for c p
    proof (cases "c = a")
      case True
      then have "p = q\<lparr>waiter := Some b\<rparr>" using p by (simp add: f)
      then show ?thesis using True q(1,2) pset(1) w(1-3) by (simp add: acquisition_ok_def f)
    next
      case False
      then have "acquisition_ok s c p" using p D(1) by (simp add: f)
      then show ?thesis using False b q(3) pset by (auto simp: acquisition_ok_def f)
    qed
    show "borrow_ok s' b' x" if x: "borrow_of s' b' = Some x" for b' x
    proof (cases "b' = b")
      case True
      then have "x = w" using x by (simp add: f)
      then show ?thesis using w True by (simp add: borrow_ok_def f)
    next
      case False
      then have x: "borrow_of s b' = Some x" using x by (simp add: f)
      show ?thesis
      proof (cases "taken x = a")
        case True
        then show ?thesis using rx [OF x True] D(2) [OF x] by (auto simp: borrow_ok_def f)
      next
        case False
        then show ?thesis using D(2) [OF x] by (auto simp: borrow_ok_def f)
      qed
    qed
    show "one_receiver s'" using D(5) w(2) by (auto simp: one_receiver_def f)
    show "\<exists>p. acquisitions s' c = Some p \<and> settled p" if "in_pool s' c" for c
    proof -
      have "in_pool s c" using that by (simp add: f)
      then show ?thesis using D(7) [of c] np by (cases "c = a") (simp_all add: f)
    qed
    show "acquisitions s' c \<noteq> None" if "c \<in> set (parked s')" for c
      using that D(4) [of c] pset by (simp add: f)
  qed (use D(6) pset in \<open>simp_all add: f\<close>)
  have hs: "holds s' b' x = holds s b' x" for b' x using w(2) b by (auto simp: holds_def f)
  show "moves s s'"
  proof (rule movesI)
    fix c own
    assume own: "owned s c own"
    show "owned s' c own \<or> (\<exists>own'. owner_step own own' \<and> owned s' c own')"
    proof (cases "c = a")
      case True
      have "own = Nobody \<or> own = Parked"
        using own owned_fresh [OF ok, of a own] owned_unsettled [OF ok, of a _ own] old True
        by (cases "acquisitions s a") auto
      then have "owner_step own (Waited_By b)" using owner_step.start owner_step.take by blast
      moreover have "owned s' c (Waited_By b)" using True by (simp add: f)
      ultimately show ?thesis by blast
    next
      case False
      then have "owned s' c own" using own pset by (cases own) (simp_all add: f hs)
      then show ?thesis ..
    qed
  qed
qed

section \<open>Runs\<close>

lemma starts_ok:
  assumes "connects_ok s"
  shows "connects_ok (borrow_starts b aborted s) \<and> moves s (borrow_starts b aborted s)"
proof (cases "borrow_of s b")
  case None
  define w where "w a = \<lparr>taken = a, received = False, stopped = (if aborted then Some Aborted else None),
    wait_race = map_option Wait_Stopped (if aborted then Some Aborted else None), work_race = None, phase = Waiting\<rparr>" for a
  have w: "taken (w a) = a" "\<not> received (w a)" "phase (w a) = Waiting"
    "wait_race (w a) \<noteq> Some Delivered" "wait_race (w a) \<noteq> Some Connect_Failed" for a
    by (simp_all add: w_def)
  show ?thesis
  proof (cases "parked s")
    case Nil
    let ?a = "next_acquisition s" and ?q = "\<lparr>waiter = None, settled = False\<rparr>"
    have "borrow_starts b aborted s = s\<lparr>parked := [], next_acquisition := Suc ?a,
        acquisitions := (acquisitions s)(?a \<mapsto> ?q\<lparr>waiter := Some b\<rparr>), borrow_of := (borrow_of s)(b \<mapsto> w ?a)\<rparr>"
      using None Nil by (cases s) (simp add: borrow_starts_def borrow_acquisition_def w_def)
    moreover have "parked s = ?a # [] \<and> acquisitions s ?a = Some ?q \<and> Suc ?a = ?a \<or>
        parked s = [] \<and> [] = [] \<and> ?a = ?a \<and> Suc ?a = Suc ?a \<and> ?q = ?q" using Nil by simp
    ultimately show ?thesis using start_ok [OF assms None _ w, of ?a "[]" ?q "Suc ?a"] by simp
  next
    case (Cons a ps)
    then obtain q where q: "acquisitions s a = Some q" using connects_okD(4) [OF assms, of a] by auto
    have "borrow_starts b aborted s = s\<lparr>parked := ps, next_acquisition := next_acquisition s,
        acquisitions := (acquisitions s)(a \<mapsto> q\<lparr>waiter := Some b\<rparr>), borrow_of := (borrow_of s)(b \<mapsto> w a)\<rparr>"
      using None Cons q by (cases s) (simp add: borrow_starts_def borrow_acquisition_def w_def)
    then show ?thesis using start_ok [OF assms None _ w, of a ps q "next_acquisition s"] Cons q by simp
  qed
qed (simp add: borrow_starts_def assms moves_refl)

lemma settles_ok:
  assumes "connects_ok s"
  shows "connects_ok (borrow_connect_settles a arrived s) \<and> moves s (borrow_connect_settles a arrived s)"
proof (cases "\<exists>q. acquisitions s a = Some q \<and> \<not> settled q")
  case True
  then obtain q where q: "acquisitions s a = Some q" "\<not> settled q" by blast
  show ?thesis
  proof (cases "waiter q")
    case None
    then show ?thesis
      using settle_parked_ok [OF assms q None, of arrived] q
      by (cases arrived) (simp_all add: borrow_connect_settles_def unpark_def release_to_pool_def Let_def)
  next
    case (Some b)
    then obtain w where w: "borrow_of s b = Some w" "a \<notin> set (parked s)" "\<not> received w"
      using connects_okD(1) [OF assms q(1)] by (auto simp: acquisition_ok_def)
    have "borrow_connect_settles a arrived s = s\<lparr>acquisitions := (acquisitions s)(a \<mapsto> q\<lparr>settled := True, waiter := None\<rparr>),
      borrow_of := (borrow_of s)(b \<mapsto> w\<lparr>received := arrived,
        wait_race := race (if arrived then Delivered else Connect_Failed) (wait_race w)\<rparr>)\<rparr>"
      using q Some w by (cases s; cases w; cases arrived)
        (simp_all add: borrow_connect_settles_def unpark_def deliver_def fail_def remove1_idem)
    then show ?thesis using settle_waited_ok [OF assms q(1) Some w(1), of arrived] by simp
  qed
qed (auto simp: borrow_connect_settles_def assms moves_refl split: option.split)

lemma put_quiet_ok:
  assumes ok: "connects_ok s" and w: "borrow_of s b = Some w" and same: "taken w' = taken w" "received w' = received w"
    and w': "borrow_ok s b w'" and ph: "phase w' = phase w"
  shows "connects_ok (put_borrow b w' s) \<and> moves s (put_borrow b w' s)"
proof -
  have "phase w' = Waiting" if "acquisitions s (taken w) = Some q" "waiter q = Some b" for q
    using connects_okD(1) [OF ok that(1)] that(2) w ph by (auto simp: acquisition_ok_def)
  then have "connects_ok (put_borrow b w' s)" using put_borrow_ok [OF ok w same w'] by blast
  moreover have "owned (put_borrow b w' s) a own = owned s a own" for a own
    using put_borrow_owned [OF w same] ph by simp
  ultimately show ?thesis using moves_same by blast
qed

lemma stops_ok:
  assumes "connects_ok s"
  shows "connects_ok (borrow_stops b reason s) \<and> moves s (borrow_stops b reason s)"
proof (cases "\<exists>w. borrow_of s b = Some w \<and> phase w \<noteq> Done \<and> stopped w = None")
  case True
  then obtain w where w: "borrow_of s b = Some w" "phase w \<noteq> Done" "stopped w = None" by blast
  let ?w = "w\<lparr>stopped := Some reason, wait_race := race (Wait_Stopped reason) (wait_race w),
    work_race := (if phase w = Working then race (Work_Stopped reason) (work_race w) else work_race w)\<rparr>"
  have "borrow_ok s b ?w"
    using connects_okD(2) [OF assms w(1)] by (auto simp: borrow_ok_def race_def split: option.splits)
  then have "connects_ok (put_borrow b ?w s) \<and> moves s (put_borrow b ?w s)"
    by (intro put_quiet_ok [OF assms w(1)]) simp_all
  then show ?thesis using w by (simp add: borrow_stops_def)
qed (auto simp: borrow_stops_def assms moves_refl split: option.split)

lemma work_settles_ok:
  assumes "connects_ok s"
  shows "connects_ok (work_settles b done s) \<and> moves s (work_settles b done s)"
proof (cases "\<exists>w. borrow_of s b = Some w \<and> phase w = Working")
  case True
  then obtain w where w: "borrow_of s b = Some w" "phase w = Working" by blast
  let ?w = "w\<lparr>work_race := race (if done then Work_Value else Work_Error) (work_race w)\<rparr>"
  have "borrow_ok s b ?w" using connects_okD(2) [OF assms w(1)] by (auto simp: borrow_ok_def)
  then have "connects_ok (put_borrow b ?w s) \<and> moves s (put_borrow b ?w s)"
    by (intro put_quiet_ok [OF assms w(1)]) simp_all
  then show ?thesis using w by (simp add: work_settles_def)
qed (auto simp: work_settles_def assms moves_refl split: option.split)

lemma work_resumes_ok:
  assumes "connects_ok s"
  shows "connects_ok (work_resumes b s) \<and> moves s (work_resumes b s)"
proof (cases "\<exists>w out. borrow_of s b = Some w \<and> phase w = Working \<and> work_race w = Some out")
  case True
  then obtain w out where w: "borrow_of s b = Some w" "phase w = Working" "work_race w = Some out" by blast
  have "received w" "phase w \<noteq> Done" using connects_okD(2) [OF assms w(1)] w(2) by (simp_all add: borrow_ok_def)
  from return_ok [OF assms w(1) this] show ?thesis using w by (simp add: work_resumes_def)
qed (auto simp: work_resumes_def assms moves_refl split: option.split)

lemma wait_resumes_ok:
  assumes "connects_ok s"
  shows "connects_ok (wait_resumes b s) \<and> moves s (wait_resumes b s)"
proof (cases "\<exists>w out. borrow_of s b = Some w \<and> phase w = Waiting \<and> wait_race w = Some out")
  case True
  then obtain w out where w: "borrow_of s b = Some w" "phase w = Waiting" "wait_race w = Some out" by blast
  note D = connects_okD [OF assms]
  have wok: "borrow_ok s b w" by (rule D(2) [OF w(1)])
  then obtain q where q: "acquisitions s (taken w) = Some q" by (auto simp: borrow_ok_def)
  have qok: "acquisition_ok s (taken w) q" by (rule D(1) [OF q])
  have quiet: "connects_ok (put_borrow b w' s) \<and> moves s (put_borrow b w' s)"
    if "taken w' = taken w" "received w' = received w" "borrow_ok s b w'" "settled q"
      "received w \<Longrightarrow> (phase w' = Done \<longleftrightarrow> phase w = Done)" for w'
  proof -
    have "waiter q \<noteq> Some b" using qok that(4) by (auto simp: acquisition_ok_def)
    then have "connects_ok (put_borrow b w' s)" using put_borrow_ok [OF assms w(1) that(1-3)] q by simp
    then show ?thesis using put_borrow_owned [OF w(1) that(1,2,5)] moves_same by blast
  qed
  show ?thesis
  proof (cases out)
    case Delivered
    then have rq: "received w" "settled q" using wok w(3) q by (auto simp: borrow_ok_def)
    let ?w = "w\<lparr>phase := Working, work_race := map_option Work_Stopped (stopped w)\<rparr>"
    have "borrow_ok s b ?w" using wok w(2) rq by (auto simp: borrow_ok_def)
    then have "connects_ok (put_borrow b ?w s) \<and> moves s (put_borrow b ?w s)"
      using rq w(2) by (intro quiet) simp_all
    then show ?thesis using w Delivered by (simp add: wait_resumes_def)
  next
    case Connect_Failed
    then have rq: "\<not> received w" "settled q" using wok w(3) q by (auto simp: borrow_ok_def)
    let ?w = "w\<lparr>phase := Done\<rparr>"
    have "borrow_ok s b ?w" using wok rq w q by (auto simp: borrow_ok_def)
    then have "connects_ok (put_borrow b ?w s) \<and> moves s (put_borrow b ?w s)"
      using rq by (intro quiet) simp_all
    then show ?thesis using w Connect_Failed by (simp add: wait_resumes_def)
  next
    case (Wait_Stopped reason)
    let ?w = "w\<lparr>phase := Done\<rparr>"
    show ?thesis
    proof (cases "received w")
      case True
      from return_ok [OF assms w(1) True, of False] w Wait_Stopped True show ?thesis
        by (simp add: wait_resumes_def)
    next
      case unreceived: False
      show ?thesis
      proof (cases "waiter q = None")
        case True
        then have rq: "settled q" using wok unreceived w(2) q by (auto simp: borrow_ok_def)
        have "borrow_ok s b ?w" using wok unreceived w Wait_Stopped by (auto simp: borrow_ok_def)
        then have "connects_ok (put_borrow b ?w s) \<and> moves s (put_borrow b ?w s)"
          using rq unreceived by (intro quiet) simp_all
        then show ?thesis using w Wait_Stopped unreceived True q
          by (simp add: wait_resumes_def put_borrow_def)
      next
        case False
        then obtain y where y: "waiter q = Some y" by blast
        then have "\<not> settled q" using qok by (auto simp: acquisition_ok_def)
        then show ?thesis
          using park_ok [OF assms w(1) unreceived w(2) q False] w Wait_Stopped unreceived y q
          by (simp add: wait_resumes_def put_borrow_def Let_def)
      qed
    qed
  qed
qed (auto simp: wait_resumes_def assms moves_refl split: option.split)

lemma step_ok: "connects_ok s \<Longrightarrow> connects_ok (borrow_step e s) \<and> moves s (borrow_step e s)"
  using starts_ok settles_ok stops_ok wait_resumes_ok work_settles_ok work_resumes_ok
  by (cases e) simp_all

interpretation borrows: machine_invariant borrow_step "\<lambda>_. True" connects_ok
  by unfold_locales (simp add: step_ok)


section \<open>The property\<close>





end
