(* ===== verification/Exact_Decimals.thy ===== *)
theory Exact_Decimals
  imports Canonical_Json
begin

text \<open>
  The exact decimals of \<^verbatim>\<open>contract-schema.ts\<close>: the text of a JSON number, its normal form, the order
  and the divisibility of two decimals. \<^verbatim>\<open>bigint\<close> is \<open>int\<close>. An exponent is a JavaScript number; the model
  keeps it exact, as it is for every exponent text of at most fifteen digits, and a longer one gives a
  power of ten that no \<^verbatim>\<open>bigint\<close> can hold.
\<close>

section \<open>Decimals\<close>

text \<open>The value is \<open>digits\<close> times ten to the power of \<open>exponent\<close>.\<close>

record decimal =
  digits :: int
  exponent :: int

function normalized :: "int \<Rightarrow> int \<Rightarrow> decimal" where
  "normalized ds e =
     (if ds = 0 then \<lparr>digits = 0, exponent = 0\<rparr>
      else if ds mod 10 = 0 then normalized (ds div 10) (e + 1)
      else \<lparr>digits = ds, exponent = e\<rparr>)"
  by pat_completeness auto

termination
  by (relation "measure (\<lambda>(ds, e). nat \<bar>ds\<bar>)") auto

declare normalized.simps [simp del]

section \<open>The text of a number\<close>

record number_match =
  match_sign :: bool
  match_whole :: js_string
  match_fraction :: js_string
  match_exponent :: int

text \<open>The end of \<^verbatim>\<open>NUMBER_TEXT\<close>: the optional exponent, and nothing after it.\<close>

definition match_exponent_part :: "js_string \<Rightarrow> int option" where
  "match_exponent_part s =
     (case s of
        [] \<Rightarrow> Some 0
      | c # rest \<Rightarrow>
          if c \<noteq> 101 \<and> c \<noteq> 69 then None
          else
            let negative = starts_with (js ''-'') rest;
                ds = (if negative \<or> starts_with (js ''+'') rest then tl rest else rest) in
            if ds \<noteq> [] \<and> list_all js_digit ds
            then Some (if negative then - digits_value ds else digits_value ds)
            else None)"

text \<open>
  \<^verbatim>\<open>NUMBER_TEXT.exec(text)\<close>. A digit follows no complete part of the expression, so each part takes
  all the digits it can.
\<close>

definition number_text_exec :: "js_string \<Rightarrow> number_match option" where
  "number_text_exec s =
     (let negative = starts_with (js ''-'') s;
          s1 = (if negative then tl s else s);
          whole = takeWhile js_digit s1;
          s2 = dropWhile js_digit s1;
          dot = starts_with (js ''.'') s2;
          fraction = (if dot then takeWhile js_digit (tl s2) else []);
          s3 = (if dot then dropWhile js_digit (tl s2) else s2) in
      if whole = [] \<or> dot \<and> fraction = [] then None
      else
        map_option (\<lambda>e. \<lparr>match_sign = negative, match_whole = whole, match_fraction = fraction, match_exponent = e\<rparr>)
          (match_exponent_part s3))"

datatype contract_error =
    Not_A_Json_Number js_string
  | Not_A_Schema js_string
  | Not_Bundled js_string
  | Wrong_Dialect js_string
  | Nested_Definitions js_string
  | Not_An_Array js_string
  | Not_An_Object js_string
  | Bad_Definition_Name js_string
  | Outside_Profile js_string
  | No_Such_Subschema js_string

definition parse_decimal :: "js_string \<Rightarrow> (contract_error, decimal) result" where
  "parse_decimal s =
     (case number_text_exec s of
        None \<Rightarrow> Inl (Not_A_Json_Number s)
      | Some p \<Rightarrow>
          let n = digits_value (match_whole p @ match_fraction p) in
          Inr (normalized (if match_sign p then - n else n)
                 (match_exponent p - int (length (match_fraction p)))))"

text \<open>
  \<^verbatim>\<open>decimal(value)\<close>: the decimal of \<^verbatim>\<open>String(value)\<close>, which is the \<^verbatim>\<open>JSON.stringify\<close> form of every finite
  number.
\<close>

definition decimal_of :: "('n, 'z) number_ops_scheme \<Rightarrow> 'n \<Rightarrow> (contract_error, decimal) result" where
  "decimal_of ops v = parse_decimal (number_text ops v)"

section \<open>Order and divisibility\<close>

definition compare_decimals :: "decimal \<Rightarrow> decimal \<Rightarrow> int" where
  "compare_decimals l r =
     (let shift = exponent l - exponent r;
          a = (if shift > 0 then digits l * 10 ^ nat shift else digits l);
          b = (if shift < 0 then digits r * 10 ^ nat (- shift) else digits r) in
      if a < b then - 1 else if a > b then 1 else 0)"

definition is_decimal_multiple ::
  "('n, 'z) number_ops_scheme \<Rightarrow> 'n \<Rightarrow> decimal \<Rightarrow> (contract_error, bool) result" where
  "is_decimal_multiple ops v unit =
     (if \<not> is_finite ops v \<or> digits unit \<le> 0 then Inr False
      else bind_result (decimal_of ops v) (\<lambda>dividend.
        let shift = exponent dividend - exponent unit in
        Inr (if shift \<ge> 0 then (digits dividend * 10 ^ nat shift) mod digits unit = 0
             else digits dividend mod (digits unit * 10 ^ nat (- shift)) = 0)))"

section \<open>What decimals stand for\<close>

text \<open>The rational number a decimal stands for.\<close>

definition decimal_value :: "decimal \<Rightarrow> rat" where
  "decimal_value d = of_int (digits d) * 10 powi exponent d"

text \<open>A decimal in normal form: no trailing zero, and one form of zero.\<close>

definition normal_decimal :: "decimal \<Rightarrow> bool" where
  "normal_decimal d \<longleftrightarrow> (if digits d = 0 then exponent d = 0 else digits d mod 10 \<noteq> 0)"

lemma normalized_value: "decimal_value (normalized ds e) = of_int ds * 10 powi e"
proof (induction ds e rule: normalized.induct)
  case (1 ds e)
  show ?case
  proof (cases "ds \<noteq> 0 \<and> ds mod 10 = 0")
    case True
    then have "ds = 10 * (ds div 10)" by presburger
    then have "(of_int ds :: rat) = 10 * of_int (ds div 10)" by (metis of_int_mult of_int_numeral)
    then show ?thesis using True 1 by (subst normalized.simps) (simp add: power_int_add)
  qed (subst normalized.simps, auto simp: decimal_value_def)
qed

lemma normalized_normal: "normal_decimal (normalized ds e)"
proof (induction ds e rule: normalized.induct)
  case (1 ds e)
  then show ?case by (subst normalized.simps) (auto simp: normal_decimal_def)
qed

lemma scaled:
  fixes a b :: int
  assumes "0 \<le> (k :: int)"
  shows "(of_int (a * 10 ^ nat k) :: rat) = of_int a * 10 powi k"
  using assms by (simp add: power_int_def)

text \<open>Two decimals on the smaller of their exponents.\<close>

lemma decimal_value_shift:
  assumes "f \<le> exponent d"
  shows "decimal_value d = of_int (digits d * 10 ^ nat (exponent d - f)) * 10 powi f"
proof -
  have "(10 :: rat) powi exponent d = 10 powi (exponent d - f) * 10 powi f"
    by (simp flip: power_int_add)
  then show ?thesis using assms by (simp only: decimal_value_def scaled)
qed

lemma compare_decimals_value:
  "compare_decimals l r =
     (if decimal_value l < decimal_value r then - 1 else if decimal_value l > decimal_value r then 1 else 0)"
proof -
  have pos: "(0 :: rat) < 10 powi k" for k by simp
  show ?thesis
  proof (cases "exponent l \<le> exponent r")
    case True
    have l: "decimal_value l = of_int (digits l) * 10 powi exponent l" by (simp add: decimal_value_def)
    have r: "decimal_value r = of_int (digits r * 10 ^ nat (exponent r - exponent l)) * 10 powi exponent l"
      using True by (rule decimal_value_shift)
    show ?thesis unfolding l r using True pos [of "exponent l"]
      by (simp only: mult_less_cancel_right_pos of_int_less_iff) (auto simp: compare_decimals_def)
  next
    case False
    have r: "decimal_value r = of_int (digits r) * 10 powi exponent r" by (simp add: decimal_value_def)
    have l: "decimal_value l = of_int (digits l * 10 ^ nat (exponent l - exponent r)) * 10 powi exponent r"
      using False by (intro decimal_value_shift) simp
    show ?thesis unfolding l r using False pos [of "exponent r"]
      by (simp only: mult_less_cancel_right_pos of_int_less_iff) (auto simp: compare_decimals_def)
  qed
qed

lemma compare_decimals_zero: "compare_decimals l r = 0 \<longleftrightarrow> decimal_value l = decimal_value r"
  by (auto simp: compare_decimals_value)

lemma multiple_iff:
  fixes a b :: int
  assumes "b \<noteq> 0" "p \<noteq> (0 :: rat)"
  shows "(\<exists>k :: int. of_int a * p = of_int k * (of_int b * p)) \<longleftrightarrow> a mod b = 0"
proof -
  have "(of_int a * p = of_int k * (of_int b * p)) \<longleftrightarrow> a = k * b" for k
  proof -
    have "(of_int a * p = of_int k * (of_int b * p)) \<longleftrightarrow> (of_int a :: rat) = of_int (k * b)"
      using assms(2) by auto
    then show ?thesis by (simp only: of_int_eq_iff)
  qed
  then show ?thesis by (auto simp: mod_eq_0_iff_dvd dvd_def mult.commute)
qed

lemma decimal_multiple_value:
  assumes d: "decimal_of ops v = Inr d" and u: "0 < digits u" and fin: "is_finite ops v"
  shows "is_decimal_multiple ops v u = Inr (\<exists>k :: int. decimal_value d = of_int k * decimal_value u)"
proof (cases "exponent u \<le> exponent d")
  case True
  let ?a = "digits d * 10 ^ nat (exponent d - exponent u)"
  have "decimal_value d = of_int ?a * 10 powi exponent u" using True by (rule decimal_value_shift)
  then have "(\<exists>k :: int. decimal_value d = of_int k * decimal_value u) \<longleftrightarrow> ?a mod digits u = 0"
    using multiple_iff [of "digits u" "10 powi exponent u" ?a] u
    by (simp only: decimal_value_def [of u]) simp
  then show ?thesis using d u fin True by (simp add: is_decimal_multiple_def)
next
  case False
  let ?b = "digits u * 10 ^ nat (exponent u - exponent d)"
  have "decimal_value u = of_int ?b * 10 powi exponent d" using False by (intro decimal_value_shift) simp
  then have "(\<exists>k :: int. decimal_value d = of_int k * decimal_value u) \<longleftrightarrow> digits d mod ?b = 0"
    using multiple_iff [of ?b "10 powi exponent d" "digits d"] u
    by (simp only: decimal_value_def [of d]) simp
  then show ?thesis using d u fin False by (simp add: is_decimal_multiple_def)
qed

end
