(* ===== verification/Contract_Schema.thy ===== *)
theory Contract_Schema
  imports Exact_Decimals
begin

text \<open>
  The contract schemas of \<^verbatim>\<open>contract-schema.ts\<close>: exact numbers of stored schemas, the keywords that
  replace those of Ajv, the walk that checks a schema against the contract profile, and the cache of
  compiled validators. Ajv itself is a parameter: \<^verbatim>\<open>ajv.compile\<close> gives a validator or throws.

  A schema is a JSON value whose numbers carry the entry that \<^verbatim>\<open>exactNumberTexts\<close> has for them: the double
  and the source text, when the double does not hold it. An object is its entries in the order of
  \<^verbatim>\<open>Object.entries\<close>.
\<close>

section \<open>Keywords\<close>

definition DIALECT :: js_string where
  "DIALECT = js ''https://json-schema.org/draft/2020-12/schema''"

definition SCHEMA_VALUE_KEYWORDS :: "js_string list" where
  "SCHEMA_VALUE_KEYWORDS = map js [''additionalProperties'', ''contains'', ''else'', ''if'', ''items'', ''not'',
     ''propertyNames'', ''then'']"

definition SCHEMA_ARRAY_KEYWORDS :: "js_string list" where
  "SCHEMA_ARRAY_KEYWORDS = map js [''allOf'', ''anyOf'', ''oneOf'', ''prefixItems'']"

definition SCHEMA_MAP_KEYWORDS :: "js_string list" where
  "SCHEMA_MAP_KEYWORDS = map js [''$defs'', ''dependentSchemas'', ''properties'']"

definition ANNOTATION_KEYWORDS :: "js_string list" where
  "ANNOTATION_KEYWORDS = map js [''$comment'', ''$schema'', ''default'', ''deprecated'', ''description'',
     ''examples'', ''format'', ''readOnly'', ''title'', ''writeOnly'']"

definition VALIDATION_KEYWORDS :: "js_string list" where
  "VALIDATION_KEYWORDS = map js [''const'', ''dependentRequired'', ''enum'', ''exclusiveMaximum'',
     ''exclusiveMinimum'', ''maxContains'', ''maximum'', ''maxItems'', ''maxLength'', ''maxProperties'',
     ''minContains'', ''minimum'', ''minItems'', ''minLength'', ''minProperties'', ''multipleOf'', ''required'',
     ''type'', ''uniqueItems'']"

text \<open>The test of \<^verbatim>\<open>DEFINITION_NAME\<close>.\<close>

definition definition_name :: "js_string \<Rightarrow> bool" where
  "definition_name s =
     (case s of
        [] \<Rightarrow> False
      | c # cs \<Rightarrow> (js_letter c \<or> c = 95) \<and> list_all (\<lambda>d. js_word d \<or> d = 45 \<or> d = 46) cs)"

definition DEFINITION_REFERENCE_PREFIX :: js_string where
  "DEFINITION_REFERENCE_PREFIX = js ''#/$defs/''"

section \<open>Stored schemas\<close>

type_synonym 'n schema_number = "'n \<times> js_string option"

text \<open>What the reviver uses of doubles besides \<open>number_ops\<close>.\<close>

record 'n double_ops = "'n number_ops" +
  is_zero :: "'n \<Rightarrow> bool"
  is_negative :: "'n \<Rightarrow> bool"
  max_value :: 'n
  min_value :: 'n
  negated :: "'n \<Rightarrow> 'n"

text \<open>The reviver of \<^verbatim>\<open>parseStoredContractSchema\<close>, on one number token.\<close>

definition revive_number ::
  "('n, 'z) double_ops_scheme \<Rightarrow> js_string \<Rightarrow> (contract_error, 'n schema_number) result" where
  "revive_number ops source =
     (let v = number_of ops source in
      bind_result (parse_decimal source) (\<lambda>exact.
        let held =
              (if \<not> is_finite ops v
               then (if is_negative ops v then negated ops (max_value ops) else max_value ops)
               else if is_zero ops v \<and> digits exact \<noteq> 0
               then (if digits exact < 0 then negated ops (min_value ops) else min_value ops)
               else v) in
        bind_result (decimal_of ops held) (\<lambda>d.
          Inr (held, if compare_decimals d exact \<noteq> 0 then Some source else None))))"

text \<open>\<^verbatim>\<open>parseStoredContractSchema\<close> on the value that \<^verbatim>\<open>JSON.parse\<close> reads, with each number as its source text.\<close>

fun parse_stored_contract_schema ::
  "('n, 'z) double_ops_scheme \<Rightarrow> js_string json \<Rightarrow> (contract_error, 'n schema_number json) result" where
  "parse_stored_contract_schema ops JNull = Inr JNull"
| "parse_stored_contract_schema ops (JBool b) = Inr (JBool b)"
| "parse_stored_contract_schema ops (JStr s) = Inr (JStr s)"
| "parse_stored_contract_schema ops (JNum source) =
     bind_result (revive_number ops source) (\<lambda>v. Inr (JNum v))"
| "parse_stored_contract_schema ops (JArr xs) =
     bind_result (map_result (parse_stored_contract_schema ops) xs) (\<lambda>ys. Inr (JArr ys))"
| "parse_stored_contract_schema ops (JObj ms) =
     bind_result (map_result (\<lambda>m. bind_result (parse_stored_contract_schema ops (snd m)) (\<lambda>v. Inr (fst m, v))) ms)
       (\<lambda>ms'. Inr (JObj ms'))"

definition exact_number ::
  "('n, 'z) number_ops_scheme \<Rightarrow> 'n schema_number \<Rightarrow> (contract_error, decimal) result" where
  "exact_number ops n = (case snd n of None \<Rightarrow> decimal_of ops (fst n) | Some text \<Rightarrow> parse_decimal text)"

text \<open>\<^verbatim>\<open>ExactJson\<close> is a JSON value with decimals as its numbers.\<close>

fun exact_value ::
  "('n, 'z) number_ops_scheme \<Rightarrow> 'n schema_number json \<Rightarrow> (contract_error, decimal json) result" where
  "exact_value ops (JNum n) = bind_result (exact_number ops n) (\<lambda>d. Inr (JNum d))"
| "exact_value ops JNull = Inr JNull"
| "exact_value ops (JBool b) = Inr (JBool b)"
| "exact_value ops (JStr s) = Inr (JStr s)"
| "exact_value ops (JArr xs) = bind_result (map_result (exact_value ops) xs) (\<lambda>ys. Inr (JArr ys))"
| "exact_value ops (JObj ms) =
     bind_result (map_result (\<lambda>m. bind_result (exact_value ops (snd m)) (\<lambda>v. Inr (fst m, v))) ms)
       (\<lambda>ms'. Inr (JObj ms'))"

section \<open>Keywords on exact numbers\<close>

lemma zip_size [termination_simp]:
  "(x, y) \<in> set (zip xs ys) \<Longrightarrow> size y < Suc (size_list size ys)"
  by (meson dual_order.strict_trans1 le_imp_less_Suc set_zip_rightD size_list_estimation' order_refl)

lemma member_size [termination_simp]:
  "(k, y) \<in> set ms \<Longrightarrow> size y < Suc (size_list (size_prod (\<lambda>_. 0) size) ms)"
  by (induction ms) auto

fun equals_exact ::
  "('n, 'z) number_ops_scheme \<Rightarrow> decimal json \<Rightarrow> 'n json \<Rightarrow> (contract_error, bool) result" where
  "equals_exact ops (JNum d) value =
     (case value of
        JNum v \<Rightarrow>
          if is_finite ops v then bind_result (decimal_of ops v) (\<lambda>x. Inr (compare_decimals x d = 0))
          else Inr False
      | _ \<Rightarrow> Inr False)"
| "equals_exact ops (JArr es) value =
     (case value of
        JArr vs \<Rightarrow>
          if length vs = length es then every_result (\<lambda>p. equals_exact ops (fst p) (snd p)) (zip es vs)
          else Inr False
      | _ \<Rightarrow> Inr False)"
| "equals_exact ops (JObj es) value =
     (case value of
        JObj vs \<Rightarrow>
          if length vs = length es
          then every_result (\<lambda>m.
                 case map_of es (fst m) of None \<Rightarrow> Inr False | Some e \<Rightarrow> equals_exact ops e (snd m)) vs
          else Inr False
      | _ \<Rightarrow> Inr False)"
| "equals_exact ops JNull value = Inr (case value of JNull \<Rightarrow> True | _ \<Rightarrow> False)"
| "equals_exact ops (JBool b) value = Inr (case value of JBool c \<Rightarrow> b = c | _ \<Rightarrow> False)"
| "equals_exact ops (JStr s) value = Inr (case value of JStr t \<Rightarrow> s = t | _ \<Rightarrow> False)"

datatype bound_keyword = Minimum | Maximum | Exclusive_Minimum | Exclusive_Maximum

fun bound_holds :: "bound_keyword \<Rightarrow> int \<Rightarrow> bool" where
  "bound_holds Minimum order = (order \<ge> 0)"
| "bound_holds Maximum order = (order \<le> 0)"
| "bound_holds Exclusive_Minimum order = (order > 0)"
| "bound_holds Exclusive_Maximum order = (order < 0)"

text \<open>The validators of the keywords, from the keyword's value in the schema and the value to check.\<close>

definition check_bound ::
  "('n, 'z) number_ops_scheme \<Rightarrow> bound_keyword \<Rightarrow> 'n schema_number \<Rightarrow> 'n \<Rightarrow> (contract_error, bool) result" where
  "check_bound ops k bound v =
     bind_result (exact_number ops bound) (\<lambda>limit.
       if is_finite ops v
       then bind_result (decimal_of ops v) (\<lambda>d. Inr (bound_holds k (compare_decimals d limit)))
       else Inr False)"

definition check_multiple_of ::
  "('n, 'z) number_ops_scheme \<Rightarrow> 'n schema_number \<Rightarrow> 'n \<Rightarrow> (contract_error, bool) result" where
  "check_multiple_of ops divisor v =
     bind_result (exact_number ops divisor) (\<lambda>unit. is_decimal_multiple ops v unit)"

definition check_const ::
  "('n, 'z) number_ops_scheme \<Rightarrow> 'n schema_number json \<Rightarrow> 'n json \<Rightarrow> (contract_error, bool) result" where
  "check_const ops constant value =
     bind_result (exact_value ops constant) (\<lambda>expected. equals_exact ops expected value)"

fun some_result :: "('a \<Rightarrow> ('e, bool) result) \<Rightarrow> 'a list \<Rightarrow> ('e, bool) result" where
  "some_result p [] = Inr False"
| "some_result p (x # xs) = bind_result (p x) (\<lambda>b. if b then Inr True else some_result p xs)"

definition check_enum ::
  "('n, 'z) number_ops_scheme \<Rightarrow> 'n schema_number json list \<Rightarrow> 'n json \<Rightarrow> (contract_error, bool) result" where
  "check_enum ops values value =
     bind_result (map_result (exact_value ops) values) (\<lambda>candidates.
       some_result (\<lambda>expected. equals_exact ops expected value) candidates)"

section \<open>The contract profile\<close>

text \<open>\<^verbatim>\<open>SchemaReference\<close>: where a reference stands, and what it names.\<close>

type_synonym schema_reference = "js_string \<times> js_string"

definition indexed_path :: "js_string \<Rightarrow> nat \<Rightarrow> js_string" where
  "indexed_path path i = path @ js ''['' @ decimal_text i @ js '']''"

definition member_path :: "js_string \<Rightarrow> js_string \<Rightarrow> js_string" where
  "member_path path name = path @ js ''.'' @ name"

definition ROOT_PATH :: js_string where
  "ROOT_PATH = js ''$''"

definition collect_references ::
  "('a \<Rightarrow> (contract_error, schema_reference list) result) \<Rightarrow> 'a list \<Rightarrow> (contract_error, schema_reference list) result"
  where "collect_references f xs = bind_result (map_result f xs) (\<lambda>rs. Inr (concat rs))"

lemma collect_references_cong [fundef_cong]:
  "xs = ys \<Longrightarrow> (\<And>x. x \<in> set ys \<Longrightarrow> f x = g x) \<Longrightarrow> collect_references f xs = collect_references g ys"
  unfolding collect_references_def using map_result_cong by metis

lemma enumerate_size: "p \<in> set (enumerate n xs) \<Longrightarrow> size (snd p) < Suc (size_list size xs)"
proof (induction xs arbitrary: n)
  case (Cons x xs)
  have "size (snd p) < Suc (size_list size xs)" if "p \<in> set (enumerate (Suc n) xs)" using Cons.IH that .
  then show ?case using Cons.prems by (auto simp: less_Suc_eq_le)
qed simp

text \<open>\<^verbatim>\<open>visitSchema\<close>, and the body of its loop for one keyword.\<close>

function visit_schema :: "'n json \<Rightarrow> js_string \<Rightarrow> (contract_error, schema_reference list) result"
and visit_keyword :: "js_string \<Rightarrow> 'n json \<Rightarrow> js_string \<Rightarrow> (contract_error, schema_reference list) result" where
  "visit_schema schema path =
     (case schema of
        JBool _ \<Rightarrow> Inr []
      | JObj entries \<Rightarrow> collect_references (\<lambda>entry. visit_keyword (fst entry) (snd entry) path) entries
      | _ \<Rightarrow> Inl (Not_A_Schema path))"
| "visit_keyword keyword value path =
     (let keyword_path = member_path path keyword in
      if keyword = js ''$ref''
      then (case value of
              JStr reference \<Rightarrow>
                if starts_with (js ''#'') reference then Inr [(keyword_path, reference)]
                else Inl (Not_Bundled keyword_path)
            | _ \<Rightarrow> Inl (Not_Bundled keyword_path))
      else if keyword = js ''$schema''
      then (if value = JStr DIALECT then Inr [] else Inl (Wrong_Dialect keyword_path))
      else if keyword = js ''$defs'' \<and> path \<noteq> ROOT_PATH then Inl (Nested_Definitions keyword_path)
      else if keyword \<in> set SCHEMA_VALUE_KEYWORDS then visit_schema value keyword_path
      else if keyword \<in> set SCHEMA_ARRAY_KEYWORDS
      then (case value of
              JArr xs \<Rightarrow>
                collect_references (\<lambda>p. visit_schema (snd p) (indexed_path keyword_path (fst p))) (enumerate 0 xs)
            | _ \<Rightarrow> Inl (Not_An_Array keyword_path))
      else if keyword \<in> set SCHEMA_MAP_KEYWORDS
      then (case value of
              JObj children \<Rightarrow>
                collect_references (\<lambda>child.
                  if keyword = js ''$defs'' \<and> \<not> definition_name (fst child)
                  then Inl (Bad_Definition_Name (member_path keyword_path (fst child)))
                  else visit_schema (snd child) (member_path keyword_path (fst child))) children
            | _ \<Rightarrow> Inl (Not_An_Object keyword_path))
      else if keyword \<notin> set ANNOTATION_KEYWORDS \<and> keyword \<notin> set VALIDATION_KEYWORDS
      then Inl (Outside_Profile keyword_path)
      else Inr [])"
  by pat_completeness auto

termination
  by (relation "measure (case_sum (\<lambda>(s, _). 2 * size s) (\<lambda>(_, v, _). 2 * size v + 1))")
    (auto dest!: member_size enumerate_size)

declare visit_schema.simps [simp del] visit_keyword.simps [simp del]

definition references_subschema :: "'n json \<Rightarrow> js_string \<Rightarrow> bool" where
  "references_subschema schema reference =
     (if reference = js ''#'' then True
      else if \<not> starts_with DEFINITION_REFERENCE_PREFIX reference then False
      else
        (case schema of
           JObj entries \<Rightarrow>
             (case map_of entries (js ''$defs'') of
                Some (JObj definitions) \<Rightarrow>
                  drop (length DEFINITION_REFERENCE_PREFIX) reference \<in> set (map fst definitions)
              | _ \<Rightarrow> False)
         | _ \<Rightarrow> False))"

definition assert_contract_schema :: "'n json \<Rightarrow> (contract_error, unit) result" where
  "assert_contract_schema schema =
     bind_result (visit_schema schema ROOT_PATH)
       (for_each (\<lambda>r. guard_that (references_subschema schema (snd r)) (No_Such_Subschema (fst r))))"

section \<open>Compiled validators\<close>

text \<open>
  The caches of \<^verbatim>\<open>compileContractSchema\<close>. A schema object has an identity, the key of the \<^verbatim>\<open>WeakMap\<close>.
\<close>

record 'v validators =
  object_validators :: "nat \<rightharpoonup> 'v"
  boolean_validators :: "bool \<rightharpoonup> 'v"

fun is_object :: "'n json \<Rightarrow> bool" where
  "is_object (JObj _) = True"
| "is_object _ = False"

definition compile_contract_schema ::
  "('n json \<Rightarrow> (contract_error, 'v) result) \<Rightarrow> nat \<Rightarrow> 'n json \<Rightarrow> ('v validators, contract_error, 'v) action" where
  "compile_contract_schema ajv_compile identity schema =
     (case schema of
        JBool b \<Rightarrow>
          act_read (\<lambda>s.
            case boolean_validators s b of
              Some cached \<Rightarrow> act_return cached
            | None \<Rightarrow>
                act_then (act_result (assert_contract_schema schema))
                  (act_bind (act_result (ajv_compile schema)) (\<lambda>validator.
                     act_then (act_update (\<lambda>s. s\<lparr>boolean_validators := (boolean_validators s)(b \<mapsto> validator)\<rparr>))
                       (act_return validator))))
      | _ \<Rightarrow>
          act_then (if is_object schema then act_return () else act_result (assert_contract_schema schema))
            (act_read (\<lambda>s.
               case object_validators s identity of
                 Some cached \<Rightarrow> act_return cached
               | None \<Rightarrow>
                   act_then (act_result (assert_contract_schema schema))
                     (act_bind (act_result (ajv_compile schema)) (\<lambda>validator.
                        act_then (act_update (\<lambda>s. s\<lparr>object_validators := (object_validators s)(identity \<mapsto> validator)\<rparr>))
                          (act_return validator))))))"

end
