(* ===== verification/Contract_Schema_Properties.thy ===== *)
theory Contract_Schema_Properties
  imports Contract_Schema
begin

text \<open>
  Correctness of contract schemas: the number keywords decide on exact values, and the profile walk
  accepts exactly the schemas of the contract profile, with every reference at a schema it checked.
\<close>

section \<open>The values of number texts\<close>

text \<open>A JSON number by its parts, with the exponent mark, its sign and its digits.\<close>

record number_literal =
  lit_negative :: bool
  lit_whole :: js_string
  lit_fraction :: js_string
  lit_exponent :: "(16 word \<times> js_string \<times> js_string) option"

definition literal_ok :: "number_literal \<Rightarrow> bool" where
  "literal_ok l \<longleftrightarrow> lit_whole l \<noteq> [] \<and> list_all js_digit (lit_whole l) \<and> list_all js_digit (lit_fraction l) \<and>
     (case lit_exponent l of
        None \<Rightarrow> True
      | Some (mark, sign, ds) \<Rightarrow> mark \<in> {101, 69} \<and> sign \<in> {[], [43], [45]} \<and> ds \<noteq> [] \<and> list_all js_digit ds)"

definition exponent_text :: "number_literal \<Rightarrow> js_string" where
  "exponent_text l = (case lit_exponent l of None \<Rightarrow> [] | Some (mark, sign, ds) \<Rightarrow> mark # sign @ ds)"

definition literal_text :: "number_literal \<Rightarrow> js_string" where
  "literal_text l =
     (if lit_negative l then [45] else []) @ lit_whole l @
     (if lit_fraction l = [] then [] else 46 # lit_fraction l) @ exponent_text l"

definition exponent_value :: "number_literal \<Rightarrow> int" where
  "exponent_value l =
     (case lit_exponent l of
        None \<Rightarrow> 0
      | Some (_, sign, ds) \<Rightarrow> if sign = [45] then - digits_value ds else digits_value ds)"

definition literal_value :: "number_literal \<Rightarrow> rat" where
  "literal_value l =
     (if lit_negative l then - 1 else 1) *
     (of_int (digits_value (lit_whole l)) + of_int (digits_value (lit_fraction l)) / 10 ^ length (lit_fraction l)) *
     10 powi exponent_value l"

lemma js_signs [simp]: "js ''-'' = [45]" "js ''+'' = [43]" "js ''.'' = [46]"
  by (simp_all add: js_def)

lemma not_digits [simp]: "\<not> js_digit 45" "\<not> js_digit 43" "\<not> js_digit 46" "\<not> js_digit 101" "\<not> js_digit 69"
  by (simp_all add: js_digit_def)

lemma digits_value_append:
  "digits_value (xs @ ys) = digits_value xs * 10 ^ length ys + digits_value ys"
  by (induction ys rule: rev_induct) (simp_all add: digits_value_def algebra_simps flip: append_assoc)

lemma takeWhile_digits:
  assumes "list_all js_digit ds" "rest = [] \<or> \<not> js_digit (hd rest)"
  shows "takeWhile js_digit (ds @ rest) = ds" "dropWhile js_digit (ds @ rest) = rest"
proof -
  have "\<forall>c \<in> set ds. js_digit c" using assms(1) by (simp add: list_all_iff)
  then show "takeWhile js_digit (ds @ rest) = ds" "dropWhile js_digit (ds @ rest) = rest"
    using assms(2) by (cases rest; simp add: takeWhile_append2 dropWhile_append2)+
qed

lemma starts_with_sign:
  assumes "list_all js_digit (d # ds)"
  shows "\<not> starts_with [45] (d # ds @ r)" "\<not> starts_with [43] (d # ds @ r)"
  using assms by auto

lemma exponent_part_text:
  assumes "literal_ok l"
  shows "match_exponent_part (exponent_text l) = Some (exponent_value l)"
proof (cases "lit_exponent l")
  case (Some e)
  obtain mark sign ds where e: "e = (mark, sign, ds)" by (cases e)
  then have ok: "mark \<in> {101, 69}" "sign \<in> {[], [43], [45]}" "ds \<noteq> []" "list_all js_digit ds"
    using assms Some by (auto simp: literal_ok_def)
  then obtain d ds' where ds: "ds = d # ds'" by (cases ds) auto
  then have "d \<noteq> 45" "d \<noteq> 43" using ok(4) by auto
  then show ?thesis
    using ok Some e ds by (auto simp: match_exponent_part_def exponent_text_def exponent_value_def)
qed (simp add: match_exponent_part_def exponent_text_def exponent_value_def)

lemma exponent_text_head: "literal_ok l \<Longrightarrow> exponent_text l = [] \<or> hd (exponent_text l) \<in> {101, 69}"
  by (auto simp: literal_ok_def exponent_text_def split: option.split)

lemma exec_literal:
  assumes ok: "literal_ok l"
  shows "number_text_exec (literal_text l) =
    Some \<lparr>match_sign = lit_negative l, match_whole = lit_whole l, match_fraction = lit_fraction l,
      match_exponent = exponent_value l\<rparr>"
proof -
  let ?f = "if lit_fraction l = [] then [] else 46 # lit_fraction l"
  obtain d ds where w: "lit_whole l = d # ds" using ok by (cases "lit_whole l") (auto simp: literal_ok_def)
  have dig: "list_all js_digit (lit_whole l)" "list_all js_digit (lit_fraction l)" using ok by (auto simp: literal_ok_def)
  have neg: "starts_with (js ''-'') (literal_text l) = lit_negative l"
    using dig(1) w by (auto simp: literal_text_def)
  have "exponent_text l = [] \<or> \<not> js_digit (hd (exponent_text l))" using exponent_text_head [OF ok] by auto
  then have tw: "takeWhile js_digit (lit_whole l @ ?f @ exponent_text l) = lit_whole l"
    "dropWhile js_digit (lit_whole l @ ?f @ exponent_text l) = ?f @ exponent_text l"
    "takeWhile js_digit (lit_fraction l @ exponent_text l) = lit_fraction l"
    "dropWhile js_digit (lit_fraction l @ exponent_text l) = exponent_text l"
    using dig by (auto intro!: takeWhile_digits simp del: takeWhile_append dropWhile_append)
  have dot: "starts_with (js ''.'') (?f @ exponent_text l) = (lit_fraction l \<noteq> [])"
    using exponent_text_head [OF ok] by (cases "exponent_text l") auto
  have s1: "(if lit_negative l then tl (literal_text l) else literal_text l) = lit_whole l @ ?f @ exponent_text l"
    by (simp add: literal_text_def)
  show ?thesis
    unfolding number_text_exec_def Let_def neg s1 tw(1,2) dot
    using tw(3,4) exponent_part_text [OF ok] w by auto
qed

lemma parse_literal:
  assumes "literal_ok l"
  shows "\<exists>d. parse_decimal (literal_text l) = Inr d \<and> decimal_value d = literal_value l"
proof -
  let ?n = "digits_value (lit_whole l @ lit_fraction l)" and ?k = "length (lit_fraction l)"
  let ?d = "normalized (if lit_negative l then - ?n else ?n) (exponent_value l - int ?k)"
  have "decimal_value ?d = (if lit_negative l then - 1 else 1) * of_int ?n * 10 powi (exponent_value l - int ?k)"
    by (simp add: normalized_value)
  also have "\<dots> = literal_value l"
    by (simp add: literal_value_def digits_value_append power_int_diff field_simps)
  finally show ?thesis using exec_literal [OF assms] by (simp add: parse_decimal_def Let_def)
qed

text \<open>The text that a number of a schema stands for.\<close>

definition exact_text :: "('n, 'z) number_ops_scheme \<Rightarrow> 'n schema_number \<Rightarrow> js_string" where
  "exact_text ops n = (case snd n of None \<Rightarrow> number_text ops (fst n) | Some text \<Rightarrow> text)"

lemma exact_number_text: "exact_number ops n = parse_decimal (exact_text ops n)"
  by (simp add: exact_number_def exact_text_def decimal_of_def split: option.split)

fun bound_spec :: "bound_keyword \<Rightarrow> rat \<Rightarrow> rat \<Rightarrow> bool" where
  "bound_spec Minimum limit v = (limit \<le> v)"
| "bound_spec Maximum limit v = (v \<le> limit)"
| "bound_spec Exclusive_Minimum limit v = (limit < v)"
| "bound_spec Exclusive_Maximum limit v = (v < limit)"

text \<open>
  C36. The keywords \<^verbatim>\<open>minimum\<close>, \<^verbatim>\<open>maximum\<close>, \<^verbatim>\<open>exclusiveMinimum\<close>, \<^verbatim>\<open>exclusiveMaximum\<close> and \<^verbatim>\<open>multipleOf\<close> decide on
  the exact rational values of the number in the schema and of the number they check, whatever the
  exponents and the trailing zeros of the two texts.\<close>

theorem number_keywords_exact:
  assumes "is_finite ops v" "literal_ok l" "number_text ops v = literal_text l"
    and "literal_ok b" "exact_text ops bound = literal_text b"
  shows "check_bound ops k bound v = Inr (bound_spec k (literal_value b) (literal_value l)) \<and>
    (0 < literal_value b \<longrightarrow>
     check_multiple_of ops bound v = Inr (\<exists>i :: int. literal_value l = of_int i * literal_value b))"
proof -
  obtain d where d: "decimal_of ops v = Inr d" "decimal_value d = literal_value l"
    using parse_literal [OF assms(2)] assms(3) by (auto simp: decimal_of_def)
  obtain e where e: "exact_number ops bound = Inr e" "decimal_value e = literal_value b"
    using parse_literal [OF assms(4)] assms(5) by (auto simp: exact_number_text)
  have "0 < digits e" if "0 < literal_value b"
  proof -
    have "\<not> 10 powi exponent e < (0 :: rat)" by (simp add: not_less order_less_imp_le)
    then show ?thesis using that by (simp add: decimal_value_def zero_less_mult_iff flip: e(2))
  qed
  then show ?thesis
    using assms(1) d e decimal_multiple_value [OF d(1), of e]
    by (cases k) (auto simp: check_bound_def check_multiple_of_def compare_decimals_value)
qed

text \<open>A number type with texts as its numbers.\<close>

definition text_numbers :: "js_string number_ops" where
  "text_numbers = \<lparr>number_of = id, number_text = id, is_finite = (\<lambda>_. True), beyond_safe = (\<lambda>_. False)\<rparr>"

definition tenths :: "16 word \<Rightarrow> number_literal" where
  "tenths c = \<lparr>lit_negative = False, lit_whole = [48], lit_fraction = [c], lit_exponent = None\<rparr>"

lemma tenths_facts:
  "literal_ok (tenths 49)" "literal_ok (tenths 51)" "literal_text (tenths 49) = js ''0.1''"
  "literal_text (tenths 51) = js ''0.3''" "literal_value (tenths 49) = 1 / 10" "literal_value (tenths 51) = 3 / 10"
  by (simp_all add: literal_ok_def tenths_def js_digit_def literal_text_def exponent_text_def js_def
      literal_value_def exponent_value_def digits_value_def digit_value_def)

theorem number_keywords_exact_witness:
  "check_bound text_numbers Minimum (js ''0.1'', None) (js ''0.3'') = Inr True \<and>
   check_multiple_of text_numbers (js ''0.1'', None) (js ''0.3'') = Inr True"
proof -
  have "\<exists>i :: int. (3 / 10 :: rat) = of_int i * (1 / 10)" by (rule exI [of _ 3]) simp
  then show ?thesis
    using number_keywords_exact [of text_numbers "js ''0.3''" "tenths 51" "tenths 49" "(js ''0.1'', None)" Minimum]
    by (simp add: tenths_facts exact_text_def text_numbers_def)
qed

section \<open>The contract profile\<close>

text \<open>The schemas directly below a keyword.\<close>

definition subschemas_of :: "js_string \<Rightarrow> 'n json \<Rightarrow> 'n json list" where
  "subschemas_of k v =
     (if k \<in> set SCHEMA_VALUE_KEYWORDS then [v]
      else if k \<in> set SCHEMA_ARRAY_KEYWORDS then (case v of JArr xs \<Rightarrow> xs | _ \<Rightarrow> [])
      else if k \<in> set SCHEMA_MAP_KEYWORDS then (case v of JObj cs \<Rightarrow> map snd cs | _ \<Rightarrow> [])
      else [])"

text \<open>\<open>stands_in rooted s rooted' t\<close>: the schema \<open>t\<close> stands in \<open>s\<close>; the flags say which of them is the root.\<close>

inductive stands_in :: "bool \<Rightarrow> 'n json \<Rightarrow> bool \<Rightarrow> 'n json \<Rightarrow> bool" for rooted s where
  stands_self: "stands_in rooted s rooted s"
| stands_step: "stands_in rooted s b (JObj es) \<Longrightarrow> (k, v) \<in> set es \<Longrightarrow> c \<in> set (subschemas_of k v) \<Longrightarrow> stands_in rooted s False c"

definition keyword_ok :: "bool \<Rightarrow> js_string \<Rightarrow> 'n json \<Rightarrow> bool" where
  "keyword_ok rooted k v \<longleftrightarrow>
     (if k = js ''$ref'' then \<exists>r. v = JStr r \<and> starts_with (js ''#'') r
      else if k = js ''$schema'' then v = JStr DIALECT
      else if k = js ''$defs'' then rooted \<and> (\<exists>cs. v = JObj cs \<and> (\<forall>c \<in> set cs. definition_name (fst c)))
      else if k \<in> set SCHEMA_ARRAY_KEYWORDS then \<exists>xs. v = JArr xs
      else if k \<in> set SCHEMA_MAP_KEYWORDS then \<exists>cs. v = JObj cs
      else k \<in> set SCHEMA_VALUE_KEYWORDS \<or> k \<in> set ANNOTATION_KEYWORDS \<or> k \<in> set VALIDATION_KEYWORDS)"

definition in_profile :: "bool \<Rightarrow> 'n json \<Rightarrow> bool" where
  "in_profile rooted t \<longleftrightarrow>
     (\<exists>b. t = JBool b) \<or> (\<exists>es. t = JObj es \<and> (\<forall>(k, v) \<in> set es. keyword_ok rooted k v))"

text \<open>A reference names the root, or a definition of the root.\<close>

definition reference_ok :: "'n json \<Rightarrow> js_string \<Rightarrow> bool" where
  "reference_ok s r \<longleftrightarrow> r = js ''#'' \<or>
     (\<exists>es ds n d. s = JObj es \<and> map_of es (js ''$defs'') = Some (JObj ds) \<and> map_of ds n = Some d \<and>
        r = DEFINITION_REFERENCE_PREFIX @ n)"

lemma references_subschema_iff: "references_subschema s r = reference_ok s r"
proof -
  have "starts_with p r \<and> drop (length p) r \<in> N \<longleftrightarrow> (\<exists>n. n \<in> N \<and> r = p @ n)" for p N
    by (auto simp: starts_with_iff)
  note this [of DEFINITION_REFERENCE_PREFIX]
  moreover have "n \<in> set (map fst ds) \<longleftrightarrow> (\<exists>d. map_of ds n = Some d)" for n and ds :: "(js_string \<times> 'a json) list"
    by (metis map_of_eq_None_iff not_None_eq list.set_map)
  ultimately show ?thesis
    unfolding references_subschema_def reference_ok_def
    by (auto split: json.splits option.splits) metis
qed

lemma collectD:
  assumes "collect_references f xs = Inr rs" "x \<in> set xs"
  shows "\<exists>r. f x = Inr r \<and> set r \<subseteq> set rs"
proof -
  obtain rss where "list_all2 (\<lambda>x y. f x = Inr y) xs rss" "rs = concat rss"
    using assms(1) by (auto simp: collect_references_def map_result_eq_Inr)
  then show ?thesis using assms(2) by (auto simp: list_all2_conv_all_nth in_set_conv_nth) (metis nth_mem)
qed

lemma collectI:
  assumes "\<And>x. x \<in> set xs \<Longrightarrow> \<exists>r. f x = Inr r \<and> set r \<subseteq> R"
  shows "\<exists>rs. collect_references f xs = Inr rs \<and> set rs \<subseteq> R"
  using assms by (induction xs) (fastforce simp: collect_references_def)+

lemma keyword_groups:
  "js ''$ref'' \<notin> set SCHEMA_VALUE_KEYWORDS" "js ''$ref'' \<notin> set SCHEMA_ARRAY_KEYWORDS" "js ''$ref'' \<notin> set SCHEMA_MAP_KEYWORDS"
  "js ''$schema'' \<notin> set SCHEMA_VALUE_KEYWORDS" "js ''$schema'' \<notin> set SCHEMA_ARRAY_KEYWORDS"
  "js ''$schema'' \<notin> set SCHEMA_MAP_KEYWORDS" "js ''$defs'' \<notin> set SCHEMA_VALUE_KEYWORDS"
  "js ''$defs'' \<notin> set SCHEMA_ARRAY_KEYWORDS" "js ''$defs'' \<in> set SCHEMA_MAP_KEYWORDS"
  "js ''$ref'' \<noteq> js ''$schema''" "js ''$defs'' \<noteq> js ''$schema''" "js ''$defs'' \<noteq> js ''$ref''"
  by code_simp+

lemma keyword_groups_disjoint:
  "\<forall>k \<in> set SCHEMA_VALUE_KEYWORDS. k \<notin> set SCHEMA_ARRAY_KEYWORDS \<and> k \<notin> set SCHEMA_MAP_KEYWORDS"
  by code_simp

lemma child_paths [simp]: "member_path p n \<noteq> ROOT_PATH" "indexed_path p i \<noteq> ROOT_PATH"
  by (auto simp: member_path_def indexed_path_def ROOT_PATH_def js_def Cons_eq_append_conv append_eq_Cons_conv)

lemma enumerate_snd: "x \<in> set xs \<Longrightarrow> \<exists>i. (i, x) \<in> set (enumerate n xs)"
  by (induction xs arbitrary: n) auto

lemma snd_enumerate: "q \<in> set (enumerate n xs) \<Longrightarrow> snd q \<in> set xs"
  by (induction xs arbitrary: n) auto

lemma array_members: "c \<in> set (case v of JArr xs \<Rightarrow> xs | _ \<Rightarrow> []) \<longleftrightarrow> (\<exists>xs. v = JArr xs \<and> c \<in> set xs)"
  by (cases v) simp_all

lemma object_members:
  "c \<in> set (case v of JObj cs \<Rightarrow> map snd cs | _ \<Rightarrow> []) \<longleftrightarrow> (\<exists>cs n. v = JObj cs \<and> (n, c) \<in> set cs)"
  by (cases v) force+

lemma subschemas_cases:
  assumes "c \<in> set (subschemas_of k v)"
  shows "k \<in> set SCHEMA_VALUE_KEYWORDS \<and> c = v \<or>
    k \<notin> set SCHEMA_VALUE_KEYWORDS \<and> k \<in> set SCHEMA_ARRAY_KEYWORDS \<and> (\<exists>xs. v = JArr xs \<and> c \<in> set xs) \<or>
    k \<notin> set SCHEMA_VALUE_KEYWORDS \<and> k \<notin> set SCHEMA_ARRAY_KEYWORDS \<and> k \<in> set SCHEMA_MAP_KEYWORDS \<and>
    (\<exists>cs n. v = JObj cs \<and> (n, c) \<in> set cs)"
  using assms unfolding subschemas_of_def
  by (simp only: array_members object_members list.set insert_iff empty_iff split: if_split_asm) simp_all

lemma visit_keywordD:
  assumes visit: "visit_keyword k v p = Inr rs"
  shows "keyword_ok (p = ROOT_PATH) k v"
    and "c \<in> set (subschemas_of k v) \<Longrightarrow>
      \<exists>p' rs'. p' \<noteq> ROOT_PATH \<and> visit_schema c p' = Inr rs' \<and> set rs' \<subseteq> set rs"
    and "k = js ''$ref'' \<Longrightarrow> v = JStr r \<Longrightarrow> r \<in> snd ` set rs"
proof -
  note unfolded = visit [unfolded visit_keyword.simps [of k v p] Let_def]
  show "keyword_ok (p = ROOT_PATH) k v"
    using unfolded keyword_groups keyword_groups_disjoint
    by (auto simp: keyword_ok_def split: if_splits json.splits dest: collectD)
  show "\<exists>p' rs'. p' \<noteq> ROOT_PATH \<and> visit_schema c p' = Inr rs' \<and> set rs' \<subseteq> set rs"
    if c: "c \<in> set (subschemas_of k v)"
  proof -
    have k: "k \<noteq> js ''$ref''" "k \<noteq> js ''$schema''" using c keyword_groups by (auto simp: subschemas_of_def)
    from c consider "k \<in> set SCHEMA_VALUE_KEYWORDS" "c = v"
      | xs where "k \<notin> set SCHEMA_VALUE_KEYWORDS" "k \<in> set SCHEMA_ARRAY_KEYWORDS" "v = JArr xs" "c \<in> set xs"
      | cs n where "k \<notin> set SCHEMA_VALUE_KEYWORDS" "k \<notin> set SCHEMA_ARRAY_KEYWORDS" "k \<in> set SCHEMA_MAP_KEYWORDS"
          "v = JObj cs" "(n, c) \<in> set cs"
      using subschemas_cases by blast
    then show ?thesis
    proof cases
      case 1
      then have "visit_schema c (member_path p k) = Inr rs" using unfolded k by (simp split: if_splits)
      then show ?thesis by (metis child_paths(1) order_refl)
    next
      case 2
      then have all: "collect_references (\<lambda>q. visit_schema (snd q) (indexed_path (member_path p k) (fst q)))
          (enumerate 0 xs) = Inr rs" using unfolded k by (simp split: if_splits)
      obtain i where "(i, c) \<in> set (enumerate 0 xs)" using enumerate_snd [OF 2(4), of 0] by blast
      from collectD [OF all this] show ?thesis by (metis child_paths(2) fst_conv snd_conv)
    next
      case 3
      then have all: "collect_references (\<lambda>child.
          if k = js ''$defs'' \<and> \<not> definition_name (fst child)
          then Inl (Bad_Definition_Name (member_path (member_path p k) (fst child)))
          else visit_schema (snd child) (member_path (member_path p k) (fst child))) cs = Inr rs"
        using unfolded k by (simp split: if_splits)
      from collectD [OF all 3(5)] obtain r where
        "visit_schema c (member_path (member_path p k) n) = Inr r" "set r \<subseteq> set rs" by (auto split: if_splits)
      then show ?thesis using child_paths(1) by blast
    qed
  qed
  show "r \<in> snd ` set rs" if "k = js ''$ref''" "v = JStr r"
    using that unfolded by (auto split: if_splits)
qed

lemma visit_keywordI:
  assumes ok: "keyword_ok (p = ROOT_PATH) k v"
    and sub: "\<And>c p'. c \<in> set (subschemas_of k v) \<Longrightarrow> p' \<noteq> ROOT_PATH \<Longrightarrow>
      \<exists>rs. visit_schema c p' = Inr rs \<and> set rs \<subseteq> UNIV \<times> R"
    and ref: "\<And>r. k = js ''$ref'' \<Longrightarrow> v = JStr r \<Longrightarrow> r \<in> R"
  shows "\<exists>rs. visit_keyword k v p = Inr rs \<and> set rs \<subseteq> UNIV \<times> R"
proof -
  note unfold = visit_keyword.simps [of k v p] Let_def
  consider "k = js ''$ref'' \<or> k = js ''$schema''"
    | "k \<in> set SCHEMA_VALUE_KEYWORDS" "k \<noteq> js ''$ref''" "k \<noteq> js ''$schema''" "k \<noteq> js ''$defs''"
    | xs where "k \<notin> set SCHEMA_VALUE_KEYWORDS" "k \<in> set SCHEMA_ARRAY_KEYWORDS" "v = JArr xs"
        "k \<noteq> js ''$ref''" "k \<noteq> js ''$schema''" "k \<noteq> js ''$defs''"
    | cs where "k \<notin> set SCHEMA_VALUE_KEYWORDS" "k \<notin> set SCHEMA_ARRAY_KEYWORDS" "k \<in> set SCHEMA_MAP_KEYWORDS"
        "v = JObj cs" "k \<noteq> js ''$ref''" "k \<noteq> js ''$schema''"
        "k = js ''$defs'' \<Longrightarrow> p = ROOT_PATH \<and> (\<forall>c \<in> set cs. definition_name (fst c))"
    | "k \<notin> set SCHEMA_VALUE_KEYWORDS" "k \<notin> set SCHEMA_ARRAY_KEYWORDS" "k \<notin> set SCHEMA_MAP_KEYWORDS"
        "k \<in> set ANNOTATION_KEYWORDS \<or> k \<in> set VALIDATION_KEYWORDS" "k \<noteq> js ''$ref''" "k \<noteq> js ''$schema''" "k \<noteq> js ''$defs''"
    using ok keyword_groups keyword_groups_disjoint unfolding keyword_ok_def by (auto split: if_splits)
  then show ?thesis
  proof cases
    case 1
    then show ?thesis unfolding unfold using ok ref keyword_groups by (auto simp: keyword_ok_def split: if_splits)
  next
    case 2
    then show ?thesis unfolding unfold using sub [of v "member_path p k"] by (simp add: subschemas_of_def)
  next
    case 3
    then have "\<exists>rs. visit_schema (snd q) (indexed_path (member_path p k) (fst q)) = Inr rs \<and> set rs \<subseteq> UNIV \<times> R"
      if "q \<in> set (enumerate 0 xs)" for q
      using that sub [of "snd q"] by (simp add: subschemas_of_def snd_enumerate)
    then show ?thesis unfolding unfold using 3 by (simp add: collectI)
  next
    case 4
    then have "\<exists>rs. (if k = js ''$defs'' \<and> \<not> definition_name (fst q)
          then Inl (Bad_Definition_Name (member_path (member_path p k) (fst q)))
          else visit_schema (snd q) (member_path (member_path p k) (fst q))) = Inr rs \<and> set rs \<subseteq> UNIV \<times> R"
      if "q \<in> set cs" for q
      using that sub [of "snd q"] by (auto simp: subschemas_of_def)
    then show ?thesis unfolding unfold using 4 by (simp add: collectI)
  next
    case 5
    then show ?thesis unfolding unfold by auto
  qed
qed

lemma visit_schemaD:
  assumes "visit_schema s p = Inr rs" "stands_in (p = ROOT_PATH) s b t"
  shows "\<exists>p' rs'. (p' = ROOT_PATH) = b \<and> visit_schema t p' = Inr rs' \<and> set rs' \<subseteq> set rs"
  using assms(2)
proof induction
  case stands_self
  then show ?case using assms(1) by blast
next
  case (stands_step b es k v c)
  then obtain p' rs' where "visit_schema (JObj es) p' = Inr rs'" and sub: "set rs' \<subseteq> set rs" by blast
  then have "collect_references (\<lambda>e. visit_keyword (fst e) (snd e) p') es = Inr rs'"
    by (simp add: visit_schema.simps)
  from collectD [OF this stands_step(2)] obtain r where
    "visit_keyword k v p' = Inr r" "set r \<subseteq> set rs'" by auto
  from visit_keywordD(2) [OF this(1) stands_step(3)] this(2) sub show ?case by blast
qed

lemma visit_profile:
  fixes t :: "'n json"
  assumes "visit_schema t p = Inr rs"
  shows "in_profile (p = ROOT_PATH) t"
    and "t = JObj es \<Longrightarrow> (js ''$ref'', JStr r) \<in> set es \<Longrightarrow> r \<in> snd ` set rs"
proof -
  have all: "collect_references (\<lambda>e. visit_keyword (fst e) (snd e) p) es = Inr rs" if "t = JObj es" for es
    using assms that by (simp add: visit_schema.simps)
  show "in_profile (p = ROOT_PATH) t"
    using assms visit_keywordD(1) collectD [OF all]
    by (cases t) (fastforce simp: in_profile_def visit_schema.simps)+
  show "r \<in> snd ` set rs" if t: "t = JObj es" and r: "(js ''$ref'', JStr r) \<in> set es"
  proof -
    obtain q where "visit_keyword (js ''$ref'') (JStr r :: 'n json) p = Inr q" "set q \<subseteq> set rs"
      using collectD [OF all [OF t] r] by auto
    from visit_keywordD(3) [OF this(1)] this(2) show ?thesis by blast
  qed
qed

lemma stands_child:
  assumes "stands_in False c b t" "(k, v) \<in> set es" "c \<in> set (subschemas_of k v)"
  shows "stands_in rooted (JObj es) b t"
  using assms by induction (blast intro: stands_in.intros)+

lemma subschemas_size:
  assumes "c \<in> set (subschemas_of k v)"
  shows "size c \<le> size v"
proof -
  consider "c = v" | xs where "v = JArr xs" "c \<in> set xs" | cs n where "v = JObj cs" "(n, c) \<in> set cs"
    using subschemas_cases [OF assms] by blast
  then show ?thesis
  proof cases
    case 2
    then have "size c \<le> size_list size xs" by (simp add: size_list_estimation')
    then show ?thesis using 2 by simp
  next
    case 3
    then show ?thesis using member_size [OF 3(2)] by simp
  qed simp
qed

lemma visit_schemaI:
  assumes "\<And>b t. stands_in (p = ROOT_PATH) s b t \<Longrightarrow> in_profile b t"
    and "\<And>b es r. stands_in (p = ROOT_PATH) s b (JObj es) \<Longrightarrow> (js ''$ref'', JStr r) \<in> set es \<Longrightarrow> r \<in> R"
  shows "\<exists>rs. visit_schema s p = Inr rs \<and> set rs \<subseteq> UNIV \<times> R"
  using assms
proof (induction s arbitrary: p rule: measure_induct_rule [of size])
  case (less s)
  from less.prems(1) [OF stands_self] consider b where "s = JBool b"
    | es where "s = JObj es" "\<forall>(k, v) \<in> set es. keyword_ok (p = ROOT_PATH) k v"
    unfolding in_profile_def by blast
  then show ?case
  proof cases
    case (2 es)
    have "\<exists>rs. visit_keyword k v p = Inr rs \<and> set rs \<subseteq> UNIV \<times> R" if kv: "(k, v) \<in> set es" for k v
    proof (rule visit_keywordI)
      show "keyword_ok (p = ROOT_PATH) k v" using 2 kv by blast
      show "r \<in> R" if "k = js ''$ref''" "v = JStr r" for r
        using less.prems(2) stands_self 2(1) that kv by blast
      show "\<exists>rs. visit_schema c p' = Inr rs \<and> set rs \<subseteq> UNIV \<times> R"
        if c: "c \<in> set (subschemas_of k v)" and p': "p' \<noteq> ROOT_PATH" for c p'
      proof (rule less.IH)
        show "size c < size s" using subschemas_size [OF c] member_size [OF kv] 2(1) by simp
        fix b t assume "stands_in (p' = ROOT_PATH) c b t"
        with p' have "stands_in False c b t" by simp
        note this = stands_child [OF this kv c, of "p = ROOT_PATH"]
        then show "in_profile b t" using less.prems(1) 2(1) by blast
      next
        fix b fs r assume "stands_in (p' = ROOT_PATH) c b (JObj fs)" and r: "(js ''$ref'', JStr r) \<in> set fs"
        with p' have "stands_in False c b (JObj fs)" by simp
        from stands_child [OF this kv c, of "p = ROOT_PATH"] show "r \<in> R" using less.prems(2) r 2(1) by blast
      qed
    qed
    then show ?thesis using 2 by (auto simp: visit_schema.simps intro!: collectI)
  qed (simp add: visit_schema.simps)
qed

text \<open>
  C37. The walk over a contract schema accepts exactly the contract profile: every schema in it is a
  boolean or an object with keywords of the profile in the shape they ask for, definitions stand only
  at the root, and every reference names the root or a definition of the root.\<close>

theorem contract_profile_exact:
  "assert_contract_schema s = Inr () \<longleftrightarrow>
     (\<forall>b t. stands_in True s b t \<longrightarrow> in_profile b t) \<and>
     (\<forall>b es r. stands_in True s b (JObj es) \<and> (js ''$ref'', JStr r) \<in> set es \<longrightarrow> reference_ok s r)"
proof
  assume "assert_contract_schema s = Inr ()"
  then obtain rs where visit: "visit_schema s ROOT_PATH = Inr rs" and refs: "\<forall>r \<in> snd ` set rs. reference_ok s r"
    by (auto simp: assert_contract_schema_def references_subschema_iff)
  have at: "\<exists>p rs'. (p = ROOT_PATH) = b \<and> visit_schema t p = Inr rs' \<and> set rs' \<subseteq> set rs"
    if "stands_in True s b t" for b t using visit_schemaD [OF visit] that by simp
  have "in_profile b t" if "stands_in True s b t" for b t using at [OF that] visit_profile(1) by blast
  moreover have "reference_ok s r"
    if t: "stands_in True s b (JObj es)" and r: "(js ''$ref'', JStr r) \<in> set es" for b es r
  proof -
    obtain p rs' where "visit_schema (JObj es) p = Inr rs'" "set rs' \<subseteq> set rs" using at [OF t] by blast
    then show ?thesis using visit_profile(2) [OF _ refl r] refs by blast
  qed
  ultimately show "(\<forall>b t. stands_in True s b t \<longrightarrow> in_profile b t) \<and>
     (\<forall>b es r. stands_in True s b (JObj es) \<and> (js ''$ref'', JStr r) \<in> set es \<longrightarrow> reference_ok s r)" by blast
next
  assume "(\<forall>b t. stands_in True s b t \<longrightarrow> in_profile b t) \<and>
     (\<forall>b es r. stands_in True s b (JObj es) \<and> (js ''$ref'', JStr r) \<in> set es \<longrightarrow> reference_ok s r)"
  then obtain rs where "visit_schema s ROOT_PATH = Inr rs" "set rs \<subseteq> UNIV \<times> {r. reference_ok s r}"
    using visit_schemaI [of ROOT_PATH s "{r. reference_ok s r}"] by auto
  then show "assert_contract_schema s = Inr ()"
    by (auto simp: assert_contract_schema_def references_subschema_iff)
qed

definition sample_contract :: "js_string json" where
  "sample_contract = JObj
     [(js ''$schema'', JStr DIALECT),
      (js ''$defs'', JObj [(js ''id'', JObj [(js ''minimum'', JNum (js ''1''))])]),
      (js ''properties'', JObj [(js ''task'', JObj [(js ''$ref'', JStr (js ''#/$defs/id''))])])]"

lemma sample_accepted: "assert_contract_schema sample_contract = Inr ()"
  by code_simp

lemma sample_reference:
  "stands_in True sample_contract False (JObj [(js ''$ref'', JStr (js ''#/$defs/id''))])"
proof -
  have "JObj [(js ''$ref'', JStr (js ''#/$defs/id''))] \<in>
      set (subschemas_of (js ''properties'') (JObj [(js ''task'', JObj [(js ''$ref'', JStr (js ''#/$defs/id'') :: js_string json)])]))"
    by code_simp
  then show ?thesis
    using stands_step [OF stands_self] unfolding sample_contract_def by (meson list.set_intros)
qed

theorem contract_profile_exact_witness: "reference_ok sample_contract (js ''#/$defs/id'')"
  using contract_profile_exact [of sample_contract] sample_accepted sample_reference
  by (metis list.set_intros(1))

end
