(* ===== verification/Claim_Gate.thy ===== *)
theory Claim_Gate
  imports Database_Errors
begin

text \<open>
  The heartbeat gate of \<^verbatim>\<open>heartbeat-connection.ts\<close>: which pools can lend a heartbeat connection, and the view
  of a database that reads the gate immediately before each attempt of a claim statement.

  The world is a parameter. A driver gives what the pool, a client and the database do to it, and
  whether the gate is open in it. The model adds three logs to the world: the clients that were lent, those
  that went back and whether they were destroyed, and each statement that was sent, with the gate at
  that moment.
\<close>

section \<open>Pools\<close>

text \<open>What \<^verbatim>\<open>connectionPoolOf\<close> finds: a pool and the maximum size it reports.\<close>

record connection_pool =
  max_size :: "nat option"

definition MINIMUM_RESERVING_CAPACITY :: nat where
  "MINIMUM_RESERVING_CAPACITY = 3"

definition plural :: "nat \<Rightarrow> js_string" where
  "plural n = (if n = 1 then [] else js ''s'')"

definition describe_pool :: "connection_pool option \<Rightarrow> js_string" where
  "describe_pool pool =
     (case Option.bind pool max_size of
        None \<Rightarrow> js ''the queue's pool''
      | Some capacity \<Rightarrow> js ''the queue's pool of '' @ decimal_text capacity @ js '' connection'' @ plural capacity)"

definition heartbeat_reservation_problem :: "connection_pool option \<Rightarrow> js_string option" where
  "heartbeat_reservation_problem database =
     (case database of
        None \<Rightarrow>
          Some (js ''the queue's database has no connect() and no attached pool, and a worker needs a pool of at least '' @
                decimal_text MINIMUM_RESERVING_CAPACITY @ js '' connections'')
      | Some pool \<Rightarrow>
          (case max_size pool of
             None \<Rightarrow>
               Some (js ''the pool reports no maximum size and needs a known size of at least '' @
                     decimal_text MINIMUM_RESERVING_CAPACITY)
           | Some capacity \<Rightarrow>
               if capacity < MINIMUM_RESERVING_CAPACITY
               then Some (js ''the pool allows '' @ decimal_text capacity @ js '' connection'' @ plural capacity @
                          js '' and needs at least '' @ decimal_text MINIMUM_RESERVING_CAPACITY)
               else None))"

definition can_reserve_heartbeat_connection :: "connection_pool option \<Rightarrow> bool" where
  "can_reserve_heartbeat_connection database = (heartbeat_reservation_problem database = None)"

section \<open>Statements\<close>

text \<open>What a driver takes and gives for a parameter or a column. A date is its time, and \<open>None\<close> when it is invalid.\<close>

datatype sql_value =
    Sql_Undefined
  | Sql_Null
  | Sql_Bool bool
  | Sql_Number int
  | Sql_Text js_string
  | Sql_Date "int option"
  | Sql_Array "sql_value list"

type_synonym sql_row = "string \<rightharpoonup> sql_value"

text \<open>The texts of \<^verbatim>\<open>SQL_STATEMENTS\<close> that claim, and the tier read of a probe.\<close>

definition SQL_claim_v1 :: js_string where
  "SQL_claim_v1 = js ''SELECT * FROM workhorse.claim_v1($1::text, $2::text, $3::integer)''"

definition SQL_claim_many_v1 :: js_string where
  "SQL_claim_many_v1 =
     js ''SELECT * FROM workhorse.claim_many_v1($1::text, $2::text, $3::integer, $4::integer)''"

definition SQL_complete_many_and_claim_v1 :: js_string where
  "SQL_complete_many_and_claim_v1 =
     js (''SELECT * FROM workhorse.complete_many_and_claim_v1($1::text, $2::uuid[], $3::bigint[], $4::jsonb[], '' @
         ''$5::text, $6::integer, $7::integer)'')"

definition SQL_queue_tier :: js_string where
  "SQL_queue_tier =
     js (''SELECT COALESCE((SELECT tier FROM workhorse.queue_control WHERE queue_name = $1::text), '' @
         CHR 0x27 # ''full'' @ [CHR 0x27] @ '') AS tier'')"

definition CLAIM_STATEMENTS :: "js_string list" where
  "CLAIM_STATEMENTS = [SQL_claim_v1, SQL_claim_many_v1, SQL_complete_many_and_claim_v1, SQL_queue_tier]"

section \<open>The world\<close>

record 'w session =
  world :: 'w
  lent :: "nat list"
  returned :: "(nat \<times> bool) list"
  sent :: "(bool \<times> js_string \<times> sql_value list) list"

text \<open>
  \<open>pool_connect\<close> gives a client and whether it can be released; \<open>thrown\<close> is the error object that each
  refusal of the code throws.
\<close>

record 'w driver =
  pool :: "connection_pool option"
  pool_connect :: "('w, js_value, nat \<times> bool) action"
  client_query :: "nat \<Rightarrow> js_string \<Rightarrow> sql_value list \<Rightarrow> ('w, js_value, sql_row list) action"
  database_query :: "js_string \<Rightarrow> sql_value list \<Rightarrow> ('w, js_value, sql_row list) action"
  gate_open :: "'w \<Rightarrow> bool"
  gate_closed_error :: js_value
  client_type_error :: js_value

text \<open>An action of the driver, in a session.\<close>

definition outside :: "('w, 'e, 'a) action \<Rightarrow> ('w session, 'e, 'a) action" where
  "outside m s = (case m (world s) of (r, w) \<Rightarrow> (r, s\<lparr>world := w\<rparr>))"

definition log_sent :: "'w driver \<Rightarrow> js_string \<Rightarrow> sql_value list \<Rightarrow> 'w session \<Rightarrow> 'w session" where
  "log_sent d text values s = s\<lparr>sent := sent s @ [(gate_open d (world s), text, values)]\<rparr>"

definition release_session :: "nat \<Rightarrow> bool \<Rightarrow> 'w session \<Rightarrow> 'w session" where
  "release_session c destroyed s = s\<lparr>returned := returned s @ [(c, destroyed)]\<rparr>"

definition connect_client :: "'w driver \<Rightarrow> ('w session, js_value, nat) action" where
  "connect_client d =
     act_bind (outside (pool_connect d)) (\<lambda>(c, releasable).
       if releasable then act_then (act_update (\<lambda>s. s\<lparr>lent := lent s @ [c]\<rparr>)) (act_return c)
       else act_throw (client_type_error d))"

section \<open>The gate\<close>

definition FUSED_LIMIT_PARAMETER :: nat where
  "FUSED_LIMIT_PARAMETER = 5"

definition FUSED_TASKS_PARAMETER :: nat where
  "FUSED_TASKS_PARAMETER = 1"

text \<open>\<^verbatim>\<open>xs[i] = v\<close> on an array, which grows when \<open>i\<close> is beyond its end.\<close>

definition array_put :: "nat \<Rightarrow> sql_value \<Rightarrow> sql_value list \<Rightarrow> sql_value list" where
  "array_put i v xs =
     (if i < length xs then xs[i := v] else xs @ replicate (i - length xs) Sql_Undefined @ [v])"

definition array_get :: "nat \<Rightarrow> sql_value list \<Rightarrow> sql_value" where
  "array_get i xs = (if i < length xs then xs ! i else Sql_Undefined)"

fun non_empty_array :: "sql_value \<Rightarrow> bool" where
  "non_empty_array (Sql_Array xs) = (xs \<noteq> [])"
| "non_empty_array _ = False"

definition admit_claim ::
  "'w driver \<Rightarrow> js_string \<Rightarrow> sql_value list \<Rightarrow> ('w session, js_value, sql_value list) action" where
  "admit_claim d text values =
     act_read (\<lambda>s.
       if gate_open d (world s) then act_return values
       else if text \<noteq> SQL_complete_many_and_claim_v1 then act_throw (gate_closed_error d)
       else if \<not> non_empty_array (array_get FUSED_TASKS_PARAMETER values) then act_throw (gate_closed_error d)
       else act_return (array_put FUSED_LIMIT_PARAMETER (Sql_Number 0) values))"

text \<open>\<^verbatim>\<open>client.query\<close> and \<^verbatim>\<open>database.query\<close>.\<close>

definition send_on_client ::
  "'w driver \<Rightarrow> nat \<Rightarrow> js_string \<Rightarrow> sql_value list \<Rightarrow> ('w session, js_value, sql_row list) action" where
  "send_on_client d c text values =
     act_then (act_update (log_sent d text values)) (outside (client_query d c text values))"

definition send_on_database ::
  "'w driver \<Rightarrow> js_string \<Rightarrow> sql_value list \<Rightarrow> ('w session, js_value, sql_row list) action" where
  "send_on_database d text values =
     act_then (act_update (log_sent d text values)) (outside (database_query d text values))"

text \<open>\<^verbatim>\<open>try { m } catch (error) { release(...); throw error; }\<close>\<close>

definition releasing_on_error ::
  "nat \<Rightarrow> bool \<Rightarrow> ('w session, js_value, 'a) action \<Rightarrow> ('w session, js_value, 'a) action" where
  "releasing_on_error c destroyed m s =
     (case m s of (Inl error, s') \<Rightarrow> (Inl error, release_session c destroyed s') | (Inr a, s') \<Rightarrow> (Inr a, s'))"

definition gated_query ::
  "'w driver \<Rightarrow> js_string \<Rightarrow> sql_value list \<Rightarrow> ('w session, js_value, sql_row list) action" where
  "gated_query d text values =
     (if text \<notin> set CLAIM_STATEMENTS then send_on_database d text values
      else if pool d = None
      then act_bind (admit_claim d text values) (send_on_database d text)
      else
        act_bind (connect_client d) (\<lambda>c.
          act_bind (releasing_on_error c False (admit_claim d text values)) (\<lambda>admitted.
            releasing_on_error c True
              (act_bind (send_on_client d c text admitted) (\<lambda>rows.
                 act_then (act_update (release_session c False)) (act_return rows))))))"

text \<open>
  \<^verbatim>\<open>claimDatabase(database).query\<close>: inside \<^verbatim>\<open>withClaimGate\<close> the gated view, otherwise the database itself.
\<close>

definition claim_query ::
  "'w driver \<Rightarrow> bool \<Rightarrow> js_string \<Rightarrow> sql_value list \<Rightarrow> ('w session, js_value, sql_row list) action" where
  "claim_query d gated text values = (if gated then gated_query d text values else send_on_database d text values)"

end
