(* ===== verification/Claim_Gate_Properties.thy ===== *)
theory Claim_Gate_Properties
  imports Claim_Gate
begin

text \<open>
  Correctness of the claim gate: while the gate is closed no statement claims, whatever happens while a
  claim waits for its connection or is sent again after a deadlock, and each lent client goes back.
\<close>

section \<open>What is sent\<close>

text \<open>A statement that the gate admits: no claim statement, or the gate is open, or it only completes.\<close>

definition admitted :: "bool \<times> js_string \<times> sql_value list \<Rightarrow> bool" where
  "admitted q = (case q of (gate, text, values) \<Rightarrow>
     text \<in> set CLAIM_STATEMENTS \<longrightarrow> gate \<or>
       text = SQL_complete_many_and_claim_v1 \<and> array_get FUSED_LIMIT_PARAMETER values = Sql_Number 0 \<and>
       non_empty_array (array_get FUSED_TASKS_PARAMETER values))"

definition gate_kept :: "'w session \<Rightarrow> bool" where
  "gate_kept s \<longleftrightarrow> (\<forall>q \<in> set (sent s). admitted q) \<and> map fst (returned s) = lent s"

lemma array_get_put [simp]: "array_get i (array_put i v xs) = v"
  by (auto simp: array_get_def array_put_def nth_append)

lemma array_get_other:
  assumes "i \<noteq> j" "non_empty_array (array_get i xs)"
  shows "array_get i (array_put j v xs) = array_get i xs"
  using assms by (auto simp: array_get_def array_put_def nth_append nth_list_update split: if_splits)

lemma outside_fields:
  assumes "outside m s = (r, s')"
  shows "sent s' = sent s" "lent s' = lent s" "returned s' = returned s"
  using assms by (auto simp: outside_def split: prod.splits)

text \<open>What \<^verbatim>\<open>admitClaim\<close> lets through is admitted by the gate at that moment.\<close>

lemma admit_claim_cases:
  assumes "admit_claim d text values s = (r, s')"
  shows "s' = s" "r = Inr v \<Longrightarrow> admitted (gate_open d (world s), text, v)"
  using assms array_get_other [of FUSED_TASKS_PARAMETER FUSED_LIMIT_PARAMETER "values" "Sql_Number 0"]
  by (auto simp: admit_claim_def admitted_def FUSED_LIMIT_PARAMETER_def FUSED_TASKS_PARAMETER_def split: if_splits)

lemma send_on_database_fields:
  assumes "send_on_database d text values s = (r, s')"
  shows "sent s' = sent s @ [(gate_open d (world s), text, values)]" "lent s' = lent s" "returned s' = returned s"
  using assms outside_fields [of "database_query d text values" "log_sent d text values s" r s']
  by (simp_all add: send_on_database_def act_then_def act_bind_def log_sent_def)

lemma send_on_client_fields:
  assumes "send_on_client d c text values s = (r, s')"
  shows "sent s' = sent s @ [(gate_open d (world s), text, values)]" "lent s' = lent s" "returned s' = returned s"
  using assms outside_fields [of "client_query d c text values" "log_sent d text values s" r s']
  by (simp_all add: send_on_client_def act_then_def act_bind_def log_sent_def)

lemma connect_client_fields:
  assumes "connect_client d s = (r, s')"
  shows "sent s' = sent s" "returned s' = returned s"
    "lent s' = (case r of Inr c \<Rightarrow> lent s @ [c] | Inl _ \<Rightarrow> lent s)"
  using assms outside_fields [of "pool_connect d" s]
  by (fastforce simp: connect_client_def act_bind_def act_then_def split: prod.splits sum.splits if_splits)+

text \<open>One attempt on a client that was lent for it.\<close>

lemma client_attempt_keeps:
  assumes run: "act_bind (releasing_on_error c False (admit_claim d text values)) (\<lambda>adm.
      releasing_on_error c True
        (act_bind (send_on_client d c text adm) (\<lambda>rows.
           act_then (act_update (release_session c False)) (act_return rows)))) s = (r, s')"
    and sent: "\<forall>q \<in> set (sent s). admitted q" and lent: "lent s = map fst (returned s) @ [c]"
  shows "gate_kept s'"
proof (cases "admit_claim d text values s")
  case (Pair a t)
  note admit = admit_claim_cases [OF Pair]
  show ?thesis
  proof (cases a)
    case (Inl e)
    then show ?thesis using run Pair sent lent admit(1)
      by (auto simp: act_bind_def releasing_on_error_def release_session_def gate_kept_def)
  next
    case (Inr adm)
    obtain b u where send: "send_on_client d c text adm s = (b, u)" by (cases "send_on_client d c text adm s")
    have "s' = release_session c (\<exists>e. b = Inl e) u"
      using run Pair Inr admit(1) send
      by (auto simp: act_bind_def act_then_def releasing_on_error_def split: sum.splits)
    then show ?thesis using send_on_client_fields [OF send] sent lent admit(2) [OF Inr]
      by (simp add: gate_kept_def release_session_def)
  qed
qed

lemma gated_query_keeps: "act_keeps gate_kept (gated_query d text values)"
proof (rule act_keepsI)
  fix s :: "'a session" assume kept: "gate_kept s"
  obtain r s' where run: "gated_query d text values s = (r, s')" by (cases "gated_query d text values s")
  consider "text \<notin> set CLAIM_STATEMENTS" | "text \<in> set CLAIM_STATEMENTS" "pool d = None"
    | "text \<in> set CLAIM_STATEMENTS" "pool d \<noteq> None" by blast
  then have "gate_kept s'"
  proof cases
    case 1
    then have "send_on_database d text values s = (r, s')" using run by (simp add: gated_query_def)
    from send_on_database_fields [OF this] 1 kept show ?thesis by (simp add: gate_kept_def admitted_def)
  next
    case 2
    then have bind: "act_bind (admit_claim d text values) (send_on_database d text) s = (r, s')"
      using run by (simp add: gated_query_def)
    obtain a t where Pair: "admit_claim d text values s = (a, t)" by (cases "admit_claim d text values s")
    note admit = admit_claim_cases [OF Pair]
    show ?thesis
    proof (cases a)
      case (Inr adm)
      then have "send_on_database d text adm s = (r, s')" using bind Pair admit(1) by (simp add: act_bind_def)
      from send_on_database_fields [OF this] kept admit(2) [OF Inr] show ?thesis by (simp add: gate_kept_def)
    qed (use bind Pair admit(1) kept in \<open>simp add: act_bind_def\<close>)
  next
    case 3
    then obtain y where pool: "text \<in> set CLAIM_STATEMENTS" "pool d = Some y" by blast
    obtain a t where conn: "connect_client d s = (a, t)" by (cases "connect_client d s")
    note fields = connect_client_fields [OF conn]
    show ?thesis
    proof (cases a)
      case (Inl e)
      then have "s' = t" using run conn pool by (simp add: gated_query_def act_bind_def)
      then show ?thesis using fields kept Inl by (simp add: gate_kept_def)
    next
      case (Inr c)
      have "\<forall>q \<in> set (sent t). admitted q" "lent t = map fst (returned t) @ [c]"
        using fields kept Inr by (simp_all add: gate_kept_def)
      then show ?thesis
        using client_attempt_keeps [of c d "text" "values" t r s'] pool run conn Inr
        by (simp add: gated_query_def act_bind_def)
    qed
  qed
  then show "gate_kept (snd (gated_query d text values s))" using run by simp
qed

lemma fenced_loop_keeps: "act_keeps P query \<Longrightarrow> P db \<Longrightarrow> P (snd (fenced_loop heap query attempt deadlock db))"
proof (induction heap query attempt deadlock db rule: fenced_loop.induct)
  case (1 heap query attempt deadlock db)
  obtain r db' where q: "query db = (r, db')" by (cases "query db")
  then have "P db'" using act_keepsD [OF 1(2,3)] by simp
  then show ?case
    using 1 q by (subst fenced_loop.simps) (auto simp: Let_def split: sum.splits)
qed

text \<open>
  C38. A closed gate claims nothing: in every attempt of a statement through the gate, resends after
  deadlocks included, a claim statement is sent only while the gate is open, or as a fused completion
  with a claim limit of zero that completes at least one task; and each client that was lent goes back
  exactly once.\<close>

theorem closed_gate_claims_nothing:
  assumes "sent s = []" "lent s = []" "returned s = []"
    and "query_fenced_write heap (claim_query d True text values) s = (r, s')"
  shows "(\<forall>q \<in> set (sent s'). admitted q) \<and> map fst (returned s') = lent s'"
proof -
  have "gate_kept (snd (query_fenced_write heap (claim_query d True text values) s))"
    unfolding query_fenced_write_def claim_query_def if_True
    by (rule fenced_loop_keeps [OF gated_query_keeps]) (simp add: gate_kept_def assms(1-3))
  then show ?thesis using assms(4) by (simp add: gate_kept_def)
qed

text \<open>
  The gate closes while a claim waits for its connection: a fused completion runs with a claim limit of
  zero, and a pure claim does not run.\<close>

definition closing_driver :: "bool driver" where
  "closing_driver = \<lparr>pool = Some \<lparr>max_size = Some 3\<rparr>, pool_connect = (\<lambda>_. (Inr (7, True), False)),
     client_query = (\<lambda>_ _ _ w. (Inr [], w)), database_query = (\<lambda>_ _ w. (Inr [], w)), gate_open = id,
     gate_closed_error = Object_Value 0, client_type_error = Object_Value 1\<rparr>"

definition open_session :: "bool session" where
  "open_session = \<lparr>world = True, lent = [], returned = [], sent = []\<rparr>"

definition plain_heap :: js_heap where
  "plain_heap a = \<lparr>js_class = Error_Class, js_fields = Map.empty\<rparr>"

definition fused_parameters :: "sql_value list" where
  "fused_parameters = [Sql_Text (js ''w''), Sql_Array [Sql_Text (js ''t'')], Sql_Array [Sql_Text (js ''1'')],
     Sql_Array [Sql_Text (js ''null'')], Sql_Text (js ''q''), Sql_Number 10, Sql_Number 30000]"

definition closing_run :: "(js_value, sql_row list) result \<times> bool session" where
  "closing_run =
     query_fenced_write plain_heap (claim_query closing_driver True SQL_complete_many_and_claim_v1 fused_parameters)
       open_session"

lemma closing_run_sent:
  "sent (snd closing_run) = [(False, SQL_complete_many_and_claim_v1, fused_parameters[5 := Sql_Number 0])]"
  "lent (snd closing_run) = [7]" "returned (snd closing_run) = [(7, False)]"
  by code_simp+

theorem closed_gate_claims_nothing_witness:
  "admitted (False, SQL_complete_many_and_claim_v1, fused_parameters[5 := Sql_Number 0]) \<and>
   map fst (returned (snd closing_run)) = [7]"
proof -
  have "(\<forall>q \<in> set (sent (snd closing_run)). admitted q) \<and>
      map fst (returned (snd closing_run)) = lent (snd closing_run)"
    by (rule closed_gate_claims_nothing [of open_session plain_heap closing_driver
        SQL_complete_many_and_claim_v1 fused_parameters "fst closing_run"])
      (simp_all add: open_session_def closing_run_def)
  then show ?thesis by (simp add: closing_run_sent)
qed

end
