(* ===== verification/Claim_Lease_Fence.thy ===== *)
theory Claim_Lease_Fence
  imports Claim_Gate Canonical_Json
begin

text \<open>
  The module \<^verbatim>\<open>queue/claim-lease-fence.ts\<close>: claims, heartbeats, fenced settlements, the fused completions of
  the fast tier and the recovery of expired leases, each as an action on a session. The driver, the
  heap of error objects and the conversions of the standard library that read or write arbitrary values
  (\<^verbatim>\<open>new Date(text)\<close>, \<^verbatim>\<open>String(error)\<close>, \<^verbatim>\<open>JSON.stringify\<close> of an error envelope, \<^verbatim>\<open>JSON.parse\<close> of a \<^verbatim>\<open>DETAIL\<close>) are a
  parameter, the context. Spans, metrics and log lines are left out, except the attribution of
  recovered retries.

  A column is a value of the row, \<open>Sql_Undefined\<close> when the row has no such column.
\<close>

section \<open>Context\<close>

datatype claim_failure =
    Thrown js_value
  | Missing_Row string
  | Invalid_Timestamp string
  | Not_A_Bigint sql_value
  | Recorded_Partly string "int option" nat
  | Fast_Tier_Unsupported js_string js_string "int option"

text \<open>
  \<open>parsed_detail\<close> is what \<^verbatim>\<open>JSON.parse\<close> of a \<^verbatim>\<open>DETAIL\<close> gives for the fields \<^verbatim>\<open>queue\<close>, \<^verbatim>\<open>feature\<close> and \<^verbatim>\<open>ordinal\<close>, and
  \<open>None\<close> when the parse or the read throws.
\<close>

record 'w queue_context =
  driver_of :: "'w driver"
  error_heap :: js_heap
  default_queue :: js_string
  gated :: bool
  date_of :: "js_string \<Rightarrow> int option"
  string_of :: "js_value \<Rightarrow> js_string"
  envelope_text :: "(string \<times> js_value) list \<Rightarrow> js_string"
  parsed_detail :: "js_string \<Rightarrow> (sql_value \<times> sql_value \<times> sql_value) option"

type_synonym ('w, 'a) claim_action = "('w session, claim_failure, 'a) action"

definition act_failing :: "('e \<Rightarrow> 'f) \<Rightarrow> ('s, 'e, 'a) action \<Rightarrow> ('s, 'f, 'a) action" where
  "act_failing f m s = (case m s of (Inl e, s') \<Rightarrow> (Inl (f e), s') | (Inr a, s') \<Rightarrow> (Inr a, s'))"

definition column :: "sql_row \<Rightarrow> string \<Rightarrow> sql_value" where
  "column row name = (case row name of None \<Rightarrow> Sql_Undefined | Some v \<Rightarrow> v)"

text \<open>\<^verbatim>\<open>this.context.database.query\<close>, and the same through \<^verbatim>\<open>queryFencedWrite\<close>.\<close>

definition plain_query ::
  "'w queue_context \<Rightarrow> js_string \<Rightarrow> sql_value list \<Rightarrow> ('w, sql_row list) claim_action" where
  "plain_query x text parameters = act_failing Thrown (send_on_database (driver_of x) text parameters)"

definition fenced_query ::
  "'w queue_context \<Rightarrow> js_string \<Rightarrow> sql_value list \<Rightarrow> ('w, sql_row list) claim_action" where
  "fenced_query x text parameters =
     act_failing Thrown (query_fenced_write (error_heap x) (send_on_database (driver_of x) text parameters))"

definition expect_one_row :: "sql_row list \<Rightarrow> string \<Rightarrow> (claim_failure, sql_row) result" where
  "expect_one_row rows source = (case rows of [] \<Rightarrow> Inl (Missing_Row source) | row # _ \<Rightarrow> Inr row)"

section \<open>Texts\<close>

text \<open>\<^verbatim>\<open>BigInt\<close> or \<^verbatim>\<open>Number\<close> of the text of a \<^verbatim>\<open>bigint\<close> column.\<close>

definition bigint_of :: "sql_value \<Rightarrow> int option" where
  "bigint_of v =
     (case v of
        Sql_Text s \<Rightarrow>
          let negative = starts_with (js ''-'') s; ds = (if negative then tl s else s) in
          if ds \<noteq> [] \<and> list_all js_digit ds
          then Some (if negative then - digits_value ds else digits_value ds)
          else None
      | Sql_Number n \<Rightarrow> Some n
      | _ \<Rightarrow> None)"

text \<open>
  \<^verbatim>\<open>storableText\<close>: the text before the index, what was written so far when anything changed, and the text
  from the index on.
\<close>

definition refused_unit :: "16 word \<Rightarrow> bool" where
  "refused_unit c \<longleftrightarrow> c = 0 \<or> 0xD800 \<le> c \<and> c \<le> 0xDFFF"

fun storable_loop :: "js_string \<Rightarrow> js_string option \<Rightarrow> js_string \<Rightarrow> js_string option" where
  "storable_loop before output [] = output"
| "storable_loop before output [c] =
     (let output1 = (if refused_unit c \<and> output = None then Some before else output) in
      map_option (\<lambda>o1. o1 @ [if refused_unit c then 0xFFFD else c]) output1)"
| "storable_loop before output (c # d # rest) =
     (if lead_surrogate c \<and> trail_surrogate d
      then storable_loop (before @ [c, d]) (map_option (\<lambda>o1. o1 @ [c, d]) output) rest
      else
        let output1 = (if refused_unit c \<and> output = None then Some before else output) in
        storable_loop (before @ [c]) (map_option (\<lambda>o1. o1 @ [if refused_unit c then 0xFFFD else c]) output1) (d # rest))"

definition storable_text :: "js_string \<Rightarrow> js_string" where
  "storable_text s = (case storable_loop [] None s of None \<Rightarrow> s | Some output \<Rightarrow> output)"

definition storable_value :: "js_value \<Rightarrow> js_value" where
  "storable_value v = (case v of Text_Value s \<Rightarrow> Text_Value (storable_text s) | _ \<Rightarrow> v)"

section \<open>Error envelopes\<close>

definition REDACTED_ERROR_MESSAGE :: js_string where
  "REDACTED_ERROR_MESSAGE = js ''Task handler failed; details redacted''"

definition REDACTED_ERROR_NAME :: js_string where
  "REDACTED_ERROR_NAME = js ''RedactedTaskError''"

definition NON_ERROR_NAME :: js_string where
  "NON_ERROR_NAME = js ''NonErrorThrown''"

text \<open>\<^verbatim>\<open>a ?? b\<close>\<close>

definition nullish_or :: "js_value \<Rightarrow> js_value \<Rightarrow> js_value" where
  "nullish_or a b = (if a = Undefined_Value \<or> a = Null_Value then b else a)"

definition as_error :: "js_heap \<Rightarrow> js_value \<Rightarrow> js_object option" where
  "as_error heap error =
     (case error of
        Object_Value a \<Rightarrow> if js_class (heap a) \<noteq> Plain_Class then Some (heap a) else None
      | _ \<Rightarrow> None)"

definition error_envelope ::
  "'w queue_context \<Rightarrow> js_value \<Rightarrow> bool \<Rightarrow> (string \<times> js_value) list" where
  "error_envelope x error redact =
     (if redact
      then [(''name'', Text_Value REDACTED_ERROR_NAME), (''message'', Text_Value REDACTED_ERROR_MESSAGE)]
      else
        (case as_error (error_heap x) error of
           Some obj \<Rightarrow>
             let name = (case durable_replay_conflict (error_heap x) error of
                           Some a \<Rightarrow> nullish_or (property (error_heap x a) ''name'') (property obj ''name'')
                         | None \<Rightarrow> property obj ''name'') in
             [(''name'', storable_value name), (''message'', storable_value (property obj ''message'')),
              (''stack'', storable_value (nullish_or (property obj ''stack'') Null_Value))]
         | None \<Rightarrow>
             [(''name'', Text_Value NON_ERROR_NAME), (''message'', storable_value (Text_Value (string_of x error))),
              (''stack'', Null_Value)]))"

section \<open>Claimed tasks\<close>

record queue_task =
  task_id :: sql_value
  task_queue :: js_string
  task_type :: sql_value
  task_priority :: sql_value
  task_payload :: sql_value
  contract_version :: sql_value
  result_max_bytes :: sql_value
  redact_error_details :: bool
  trace_context :: sql_value
  task_attempt :: sql_value
  max_attempts :: sql_value
  retry_policy :: sql_value
  deadline_at :: "int option"
  execution_timeout_ms :: "int option option"
  attempt_timeout_at :: "int option"
  fence_token :: int
  lease_expires_at :: int

text \<open>\<^verbatim>\<open>rowTimestamp\<close> and \<^verbatim>\<open>nullableRowTimestamp\<close> of \<^verbatim>\<open>queue/row-mapping.ts\<close>.\<close>

definition row_timestamp :: "'w queue_context \<Rightarrow> sql_value \<Rightarrow> string \<Rightarrow> (claim_failure, int) result" where
  "row_timestamp x v field =
     (case (case v of Sql_Date t \<Rightarrow> t | Sql_Text s \<Rightarrow> date_of x s | Sql_Number n \<Rightarrow> Some n | Sql_Null \<Rightarrow> Some 0 | _ \<Rightarrow> None) of
        None \<Rightarrow> Inl (Invalid_Timestamp field)
      | Some t \<Rightarrow> Inr t)"

definition nullable_row_timestamp ::
  "'w queue_context \<Rightarrow> sql_value \<Rightarrow> string \<Rightarrow> (claim_failure, int option) result" where
  "nullable_row_timestamp x v field =
     (if v = Sql_Null then Inr None else bind_result (row_timestamp x v field) (\<lambda>t. Inr (Some t)))"

definition claimed_task_of ::
  "'w queue_context \<Rightarrow> sql_row \<Rightarrow> js_string \<Rightarrow> (claim_failure, queue_task) result" where
  "claimed_task_of x row queue_name =
     bind_result (nullable_row_timestamp x (column row ''deadline_at'') ''deadline_at'') (\<lambda>deadline.
     bind_result (nullable_row_timestamp x (column row ''attempt_timeout_at'') ''attempt_timeout_at'') (\<lambda>attempt_timeout.
     bind_result (case bigint_of (column row ''fence_token'') of
                    None \<Rightarrow> Inl (Not_A_Bigint (column row ''fence_token'')) | Some n \<Rightarrow> Inr n) (\<lambda>fence.
     bind_result (row_timestamp x (column row ''lease_expires_at'') ''lease_expires_at'') (\<lambda>expires.
       Inr \<lparr>task_id = column row ''task_id'', task_queue = queue_name, task_type = column row ''task_type'',
            task_priority = column row ''priority'', task_payload = column row ''payload'',
            contract_version = column row ''contract_version'', result_max_bytes = column row ''result_max_bytes'',
            redact_error_details = (column row ''redact_error_details'' = Sql_Bool True),
            trace_context = column row ''trace_context'', task_attempt = column row ''attempt'',
            max_attempts = column row ''max_attempts'', retry_policy = column row ''retry_policy'',
            deadline_at = deadline,
            execution_timeout_ms =
              (if column row ''execution_timeout_ms'' = Sql_Null then None
               else Some (bigint_of (column row ''execution_timeout_ms''))),
            attempt_timeout_at = attempt_timeout, fence_token = fence, lease_expires_at = expires\<rparr>))))"

definition or_default :: "'a option \<Rightarrow> 'a \<Rightarrow> 'a" where
  "or_default v d = (case v of None \<Rightarrow> d | Some a \<Rightarrow> a)"

definition nullable_text :: "js_string option \<Rightarrow> sql_value" where
  "nullable_text v = (case v of None \<Rightarrow> Sql_Null | Some s \<Rightarrow> Sql_Text s)"

definition nullable_number :: "int option \<Rightarrow> sql_value" where
  "nullable_number v = (case v of None \<Rightarrow> Sql_Null | Some n \<Rightarrow> Sql_Number n)"

definition DEFAULT_LEASE_MS :: int where
  "DEFAULT_LEASE_MS = 30000"

definition claim_statement ::
  "'w queue_context \<Rightarrow> js_string \<Rightarrow> sql_value list \<Rightarrow> ('w, sql_row list) claim_action" where
  "claim_statement x text parameters = act_failing Thrown (claim_query (driver_of x) (gated x) text parameters)"

definition claim ::
  "'w queue_context \<Rightarrow> js_string \<Rightarrow> js_string option \<Rightarrow> int option \<Rightarrow> ('w, queue_task option) claim_action" where
  "claim x worker queue_name lease_ms =
     (let q = or_default queue_name (default_queue x) in
      act_bind (claim_statement x SQL_claim_v1
                  [Sql_Text q, Sql_Text worker, Sql_Number (or_default lease_ms DEFAULT_LEASE_MS)]) (\<lambda>rows.
        case rows of
          [] \<Rightarrow> act_return None
        | row # _ \<Rightarrow> act_bind (act_result (claimed_task_of x row q)) (\<lambda>task. act_return (Some task))))"

definition claim_many ::
  "'w queue_context \<Rightarrow> js_string \<Rightarrow> int \<Rightarrow> js_string option \<Rightarrow> int option \<Rightarrow> ('w, queue_task list) claim_action" where
  "claim_many x worker limit queue_name lease_ms =
     (let q = or_default queue_name (default_queue x) in
      act_bind (claim_statement x SQL_claim_many_v1
                  [Sql_Text q, Sql_Text worker, Sql_Number limit, Sql_Number (or_default lease_ms DEFAULT_LEASE_MS)]) (\<lambda>rows.
        act_result (map_result (\<lambda>row. claimed_task_of x row q) rows)))"

section \<open>Cancellation\<close>

definition SQL_cancel_v1 :: js_string where
  "SQL_cancel_v1 =
     js (''SELECT status, state, current_attempt, requested_at, requested_by, reason, finished_at '' @
         ''FROM workhorse.cancel_v1($1::uuid, $2::text, $3::text)'')"

record cancel_result =
  cancel_status :: sql_value
  cancel_task_id :: sql_value
  cancel_state :: sql_value
  cancel_current_attempt :: sql_value
  cancel_requested_at :: sql_value
  cancel_requested_by :: sql_value
  cancel_reason :: sql_value
  cancel_finished_at :: sql_value

definition cancel ::
  "'w queue_context \<Rightarrow> sql_value \<Rightarrow> js_string option \<Rightarrow> js_string option \<Rightarrow> ('w, cancel_result) claim_action" where
  "cancel x task requested_by reason =
     act_bind (plain_query x SQL_cancel_v1 [task, nullable_text requested_by, nullable_text reason]) (\<lambda>rows.
     act_bind (act_result (expect_one_row rows ''workhorse.cancel_v1'')) (\<lambda>row.
       act_return \<lparr>cancel_status = column row ''status'', cancel_task_id = task, cancel_state = column row ''state'',
         cancel_current_attempt = column row ''current_attempt'', cancel_requested_at = column row ''requested_at'',
         cancel_requested_by = column row ''requested_by'', cancel_reason = column row ''reason'',
         cancel_finished_at = column row ''finished_at''\<rparr>))"

section \<open>Batch records\<close>

definition SQL_record_batch_dispatch_v1 :: js_string where
  "SQL_record_batch_dispatch_v1 =
     js (''SELECT workhorse.record_batch_dispatch_v1($1::uuid, $2::uuid[], $3::integer[], $4::bigint[], $5::text) '' @
         ''AS recorded'')"

definition SQL_record_batch_failure_v1 :: js_string where
  "SQL_record_batch_failure_v1 =
     js (''SELECT workhorse.record_batch_failure_v1($1::uuid, $2::uuid[], $3::integer[], $4::bigint[], $5::text) '' @
         ''AS recorded'')"

record batch_execution =
  batch_id :: js_string
  batch_tasks :: "queue_task list"
  batch_worker_id :: js_string

definition fence_text :: "queue_task \<Rightarrow> sql_value" where
  "fence_text task = Sql_Text (int_text (fence_token task))"

definition batch_event_parameters :: "batch_execution \<Rightarrow> sql_value list" where
  "batch_event_parameters b =
     [Sql_Text (batch_id b), Sql_Array (map task_id (batch_tasks b)), Sql_Array (map task_attempt (batch_tasks b)),
      Sql_Array (map fence_text (batch_tasks b)), Sql_Text (batch_worker_id b)]"

definition assert_batch_recorded :: "sql_row list \<Rightarrow> string \<Rightarrow> nat \<Rightarrow> (claim_failure, unit) result" where
  "assert_batch_recorded rows sql_function expected =
     bind_result (expect_one_row rows (''workhorse.'' @ sql_function)) (\<lambda>row.
       let recorded = bigint_of (column row ''recorded'') in
       guard_that (recorded = Some (int expected)) (Recorded_Partly sql_function recorded expected))"

definition record_batch_dispatch :: "'w queue_context \<Rightarrow> batch_execution \<Rightarrow> ('w, unit) claim_action" where
  "record_batch_dispatch x b =
     act_bind (fenced_query x SQL_record_batch_dispatch_v1 (batch_event_parameters b)) (\<lambda>rows.
       act_result (assert_batch_recorded rows ''record_batch_dispatch_v1'' (length (batch_tasks b))))"

definition record_batch_failure :: "'w queue_context \<Rightarrow> batch_execution \<Rightarrow> ('w, unit) claim_action" where
  "record_batch_failure x b =
     act_bind (fenced_query x SQL_record_batch_failure_v1 (batch_event_parameters b)) (\<lambda>rows.
       act_result (assert_batch_recorded rows ''record_batch_failure_v1'' (length (batch_tasks b))))"

section \<open>Fenced settlements\<close>

text \<open>\<^verbatim>\<open>FencedLease.from(task, workerId).sqlParameters\<close>\<close>

definition fenced_lease :: "queue_task \<Rightarrow> js_string \<Rightarrow> sql_value list" where
  "fenced_lease task worker = [task_id task, Sql_Text worker, fence_text task]"

text \<open>A fenced write that returns one row, and a column of it.\<close>

definition fenced_column ::
  "'w queue_context \<Rightarrow> js_string \<Rightarrow> sql_value list \<Rightarrow> string \<Rightarrow> string \<Rightarrow> ('w, sql_value) claim_action" where
  "fenced_column x text parameters source name =
     act_bind (fenced_query x text parameters) (\<lambda>rows.
     act_bind (act_result (expect_one_row rows source)) (\<lambda>row. act_return (column row name)))"

definition SQL_heartbeat_v1 :: js_string where
  "SQL_heartbeat_v1 = js ''SELECT workhorse.heartbeat_v1($1::uuid, $2::text, $3::bigint, $4::integer) AS status''"

definition SQL_heartbeat_v2 :: js_string where
  "SQL_heartbeat_v2 = js ''SELECT workhorse.heartbeat_v2($1::uuid, $2::text, $3::bigint, $4::integer) AS status''"

definition SQL_heartbeat_many_v2 :: js_string where
  "SQL_heartbeat_many_v2 =
     js (''SELECT task_id::text AS task_id, status FROM workhorse.heartbeat_many_v2($1::text, $2::jsonb) '' @
         ''ORDER BY ordinal'')"

definition SQL_expire_owned_telemetry_v1 :: js_string where
  "SQL_expire_owned_telemetry_v1 =
     js ''SELECT * FROM workhorse.expire_owned_telemetry_v1($1::uuid, $2::text, $3::bigint)''"

definition SQL_release_owned_v1 :: js_string where
  "SQL_release_owned_v1 = js ''SELECT workhorse.release_owned_v1($1::uuid, $2::text, $3::bigint) AS status''"

definition SQL_acknowledge_cancel_v1 :: js_string where
  "SQL_acknowledge_cancel_v1 =
     js ''SELECT workhorse.acknowledge_cancel_v1($1::uuid, $2::text, $3::bigint) AS accepted''"

definition SQL_complete_v1 :: js_string where
  "SQL_complete_v1 =
     js ''SELECT workhorse.complete_v1($1::uuid, $2::text, $3::bigint, $4::jsonb) AS accepted''"

definition SQL_fail_v1 :: js_string where
  "SQL_fail_v1 =
     js ''SELECT workhorse.fail_v1($1::uuid, $2::text, $3::bigint, $4::jsonb, $5::integer) AS state''"

definition SQL_recover_expired_telemetry_v1 :: js_string where
  "SQL_recover_expired_telemetry_v1 =
     js ''SELECT * FROM workhorse.recover_expired_telemetry_v1($1::integer, $2::integer)''"

definition heartbeat_one_lease ::
  "'w queue_context \<Rightarrow> js_string \<Rightarrow> string \<Rightarrow> queue_task \<Rightarrow> js_string \<Rightarrow> int \<Rightarrow> ('w, sql_value) claim_action" where
  "heartbeat_one_lease x statement source task worker lease_ms =
     fenced_column x statement (fenced_lease task worker @ [Sql_Number lease_ms]) source ''status''"

definition queue_heartbeat_status ::
  "'w queue_context \<Rightarrow> queue_task \<Rightarrow> js_string \<Rightarrow> int \<Rightarrow> ('w, sql_value) claim_action" where
  "queue_heartbeat_status x task worker lease_ms =
     heartbeat_one_lease x SQL_heartbeat_v1 ''workhorse.heartbeat_v1'' task worker lease_ms"

definition heartbeat ::
  "'w queue_context \<Rightarrow> queue_task \<Rightarrow> js_string \<Rightarrow> int \<Rightarrow> ('w, bool) claim_action" where
  "heartbeat x task worker lease_ms =
     act_bind (queue_heartbeat_status x task worker lease_ms) (\<lambda>status. act_return (status = Sql_Text (js ''accepted'')))"

definition try_heartbeat ::
  "'w queue_context \<Rightarrow> queue_task \<Rightarrow> js_string \<Rightarrow> int \<Rightarrow> ('w, sql_value) claim_action" where
  "try_heartbeat x task worker lease_ms =
     heartbeat_one_lease x SQL_heartbeat_v2 ''workhorse.heartbeat_v2'' task worker lease_ms"

definition expire_owned :: "'w queue_context \<Rightarrow> queue_task \<Rightarrow> js_string \<Rightarrow> ('w, sql_value) claim_action" where
  "expire_owned x task worker =
     fenced_column x SQL_expire_owned_telemetry_v1 (fenced_lease task worker)
       ''workhorse.expire_owned_telemetry_v1'' ''status''"

definition release_owned :: "'w queue_context \<Rightarrow> queue_task \<Rightarrow> js_string \<Rightarrow> ('w, sql_value) claim_action" where
  "release_owned x task worker =
     fenced_column x SQL_release_owned_v1 (fenced_lease task worker) ''workhorse.release_owned_v1'' ''status''"

definition acknowledge_cancel :: "'w queue_context \<Rightarrow> queue_task \<Rightarrow> js_string \<Rightarrow> ('w, sql_value) claim_action" where
  "acknowledge_cancel x task worker =
     fenced_column x SQL_acknowledge_cancel_v1 (fenced_lease task worker)
       ''workhorse.acknowledge_cancel_v1'' ''accepted''"

text \<open>\<open>validate\<close> is the caller's \<^verbatim>\<open>validateResult\<close>, which gives the serialized result or throws.\<close>

definition complete ::
  "'w queue_context \<Rightarrow> queue_task \<Rightarrow> js_string \<Rightarrow> ('w, js_string) claim_action \<Rightarrow> ('w, sql_value) claim_action" where
  "complete x task worker validate =
     act_bind validate (\<lambda>serialized.
       fenced_column x SQL_complete_v1 (fenced_lease task worker @ [Sql_Text serialized])
         ''workhorse.complete_v1'' ''accepted'')"

definition fail_task ::
  "'w queue_context \<Rightarrow> queue_task \<Rightarrow> js_string \<Rightarrow> js_value \<Rightarrow> int option \<Rightarrow> ('w, sql_value) claim_action" where
  "fail_task x task worker error retry_delay_ms =
     fenced_column x SQL_fail_v1
       (fenced_lease task worker @
        [Sql_Text (envelope_text x (error_envelope x error (redact_error_details task))), nullable_number retry_delay_ms])
       ''workhorse.fail_v1'' ''state''"

section \<open>Heartbeats of many leases\<close>

definition HEARTBEAT_STATEMENT_LEASE_LIMIT :: nat where
  "HEARTBEAT_STATEMENT_LEASE_LIMIT = 100"

record lease_payload =
  lease_task_id :: sql_value
  lease_fence_token :: js_string
  lease_ms :: int

text \<open>The loop over \<^verbatim>\<open>start\<close>, on the leases from \<^verbatim>\<open>start\<close> on.\<close>

function lease_slices :: "lease_payload list \<Rightarrow> lease_payload list list" where
  "lease_slices leases =
     (if leases = [] then []
      else take HEARTBEAT_STATEMENT_LEASE_LIMIT leases # lease_slices (drop HEARTBEAT_STATEMENT_LEASE_LIMIT leases))"
  by pat_completeness auto

termination
  by (relation "measure length") (auto simp: HEARTBEAT_STATEMENT_LEASE_LIMIT_def)

declare lease_slices.simps [simp del]

definition heartbeat_lease_batches :: "queue_task list \<Rightarrow> int \<Rightarrow> lease_payload list list" where
  "heartbeat_lease_batches tasks ms =
     lease_slices (map (\<lambda>task. \<lparr>lease_task_id = task_id task, lease_fence_token = int_text (fence_token task),
                                lease_ms = ms\<rparr>) tasks)"

text \<open>\<^verbatim>\<open>JSON.stringify\<close> of a batch. A task id is a text.\<close>

definition payload_json :: "lease_payload \<Rightarrow> int json" where
  "payload_json l =
     JObj [(js ''taskId'', case lease_task_id l of Sql_Text s \<Rightarrow> JStr s | Sql_Number n \<Rightarrow> JNum n | _ \<Rightarrow> JNull),
           (js ''fenceToken'', JStr (lease_fence_token l)), (js ''leaseMs'', JNum (lease_ms l))]"

definition leases_text :: "lease_payload list \<Rightarrow> js_string" where
  "leases_text batch = stringify int_text (JArr (map payload_json batch))"

text \<open>The statuses are the entries of a \<^verbatim>\<open>Map\<close>, set in the order of the rows.\<close>

fun heartbeat_statements ::
  "'w queue_context \<Rightarrow> js_string \<Rightarrow> lease_payload list list \<Rightarrow> (sql_value \<rightharpoonup> sql_value) \<Rightarrow>
     ('w, sql_value \<rightharpoonup> sql_value) claim_action" where
  "heartbeat_statements x worker [] statuses = act_return statuses"
| "heartbeat_statements x worker (batch # batches) statuses =
     act_bind (fenced_query x SQL_heartbeat_many_v2 [Sql_Text worker, Sql_Text (leases_text batch)]) (\<lambda>rows.
       heartbeat_statements x worker batches
         (fold (\<lambda>row m. m(column row ''task_id'' \<mapsto> column row ''status'')) rows statuses))"

definition heartbeat_many ::
  "'w queue_context \<Rightarrow> queue_task list \<Rightarrow> js_string \<Rightarrow> int \<Rightarrow> ('w, sql_value \<rightharpoonup> sql_value) claim_action" where
  "heartbeat_many x tasks worker ms =
     heartbeat_statements x worker (heartbeat_lease_batches tasks ms) Map.empty"

section \<open>Fused completions\<close>

definition COMPLETION_BATCH_LIMIT :: nat where
  "COMPLETION_BATCH_LIMIT = 100"

text \<open>\<open>promise\<close> names the caller that waits for the entry.\<close>

record pending_completion =
  entry_task :: queue_task
  serialized_result :: js_string
  entry_limit :: nat
  promise :: nat

record completion_batch =
  completion_worker :: js_string
  completion_queue :: js_string
  completion_lease_ms :: int
  completion_entries :: "pending_completion list"
  completion_watch :: "nat option"

record completion_claim =
  claim_queue :: js_string
  claim_limit :: rat
  claim_lease_ms :: "int option"
  claim_cohort :: "js_string option"
  claim_watch :: "nat option"

text \<open>The key is the text of \<^verbatim>\<open>JSON.stringify\<close> of these four values.\<close>

type_synonym completion_key = "js_string \<times> js_string \<times> int \<times> js_string option"

type_synonym pending_completions = "completion_key \<rightharpoonup> completion_batch"

definition completion_key :: "js_string \<Rightarrow> completion_claim \<Rightarrow> completion_key" where
  "completion_key worker c =
     (worker, claim_queue c, or_default (claim_lease_ms c) DEFAULT_LEASE_MS, claim_cohort c)"

definition claim_entry_limit :: "completion_claim \<Rightarrow> nat" where
  "claim_entry_limit c = nat (max 0 (min (int COMPLETION_BATCH_LIMIT) \<lfloor>claim_limit c\<rfloor>))"

text \<open>
  \<^verbatim>\<open>completeAndClaim\<close>: the pending batches after the call, and whether it scheduled the flush of its
  batch with \<^verbatim>\<open>setImmediate\<close>.
\<close>

definition complete_and_claim ::
  "queue_task \<Rightarrow> js_string \<Rightarrow> js_string \<Rightarrow> completion_claim \<Rightarrow> nat \<Rightarrow> pending_completions \<Rightarrow> bool \<times> pending_completions" where
  "complete_and_claim task worker serialized c caller pending =
     (let key = completion_key worker c;
          batch = or_default (pending key)
            \<lparr>completion_worker = worker, completion_queue = claim_queue c,
             completion_lease_ms = or_default (claim_lease_ms c) DEFAULT_LEASE_MS, completion_entries = [],
             completion_watch = None\<rparr>;
          watched = (if completion_watch batch = None then claim_watch c else completion_watch batch);
          entry = \<lparr>entry_task = task, serialized_result = serialized, entry_limit = claim_entry_limit c, promise = caller\<rparr> in
      (pending key = None,
       pending(key \<mapsto> batch\<lparr>completion_watch := watched, completion_entries := completion_entries batch @ [entry]\<rparr>)))"

text \<open>The callback of \<^verbatim>\<open>setImmediate\<close>: the batch that it flushes.\<close>

definition take_completions :: "completion_key \<Rightarrow> pending_completions \<Rightarrow> completion_batch option \<times> pending_completions" where
  "take_completions key pending = (pending key, pending(key := None))"

text \<open>The calls and the callbacks in their order.\<close>

datatype completion_event =
    Complete_And_Claim queue_task js_string js_string completion_claim nat
  | Flush_Due completion_key

fun completion_step :: "completion_event \<Rightarrow> pending_completions \<Rightarrow> pending_completions" where
  "completion_step (Complete_And_Claim task worker serialized c caller) pending =
     snd (complete_and_claim task worker serialized c caller pending)"
| "completion_step (Flush_Due key) pending = snd (take_completions key pending)"

definition completion_run :: "completion_event list \<Rightarrow> pending_completions" where
  "completion_run es = fold completion_step es Map.empty"

text \<open>The loop of \<^verbatim>\<open>flushCompletions\<close>, with \<^verbatim>\<open>chunks\<close>, \<^verbatim>\<open>chunk\<close> and \<^verbatim>\<open>chunkLimit\<close>.\<close>

fun chunk_loop ::
  "pending_completion list list \<Rightarrow> pending_completion list \<Rightarrow> nat \<Rightarrow> pending_completion list \<Rightarrow> pending_completion list list" where
  "chunk_loop chunks chunk chunk_limit [] = chunks @ [chunk]"
| "chunk_loop chunks chunk chunk_limit (entry # entries) =
     (if length chunk = COMPLETION_BATCH_LIMIT \<or> chunk_limit + entry_limit entry > COMPLETION_BATCH_LIMIT
      then chunk_loop (chunks @ [chunk]) [entry] (entry_limit entry) entries
      else chunk_loop chunks (chunk @ [entry]) (chunk_limit + entry_limit entry) entries)"

definition completion_chunks :: "pending_completion list \<Rightarrow> pending_completion list list" where
  "completion_chunks entries = chunk_loop [] [] 0 entries"

text \<open>\<^verbatim>\<open>fastTierRejection\<close> of \<^verbatim>\<open>errors.ts\<close>.\<close>

fun rejection_loop :: "'w queue_context \<Rightarrow> js_string list \<Rightarrow> claim_failure" where
  "rejection_loop x [] = Fast_Tier_Unsupported (js ''unknown'') (js ''unknown'') None"
| "rejection_loop x (detail # details) =
     (case parsed_detail x detail of
        Some (Sql_Text q, Sql_Text feature, ordinal) \<Rightarrow>
          Fast_Tier_Unsupported q feature (case ordinal of Sql_Number n \<Rightarrow> Some n | _ \<Rightarrow> None)
      | _ \<Rightarrow> rejection_loop x details)"

definition fast_tier_rejection :: "'w queue_context \<Rightarrow> js_value \<Rightarrow> claim_failure option" where
  "fast_tier_rejection x error =
     (if database_error_code (error_heap x) error \<noteq> Some (js ''P1007'') then None
      else Some (rejection_loop x (database_error_details (error_heap x) error)))"

definition accepted_ids :: "sql_value \<Rightarrow> sql_value list" where
  "accepted_ids v = (case v of Sql_Array ids \<Rightarrow> ids | _ \<Rightarrow> [])"

definition complete_many_and_claim ::
  "'w queue_context \<Rightarrow> js_string \<Rightarrow> js_string \<Rightarrow> int \<Rightarrow> pending_completion list \<Rightarrow> nat \<Rightarrow>
     ('w, sql_value list \<times> queue_task list) claim_action" where
  "complete_many_and_claim x worker queue_name ms entries limit =
     (let parameters =
        [Sql_Text worker, Sql_Array (map (\<lambda>e. task_id (entry_task e)) entries),
         Sql_Array (map (\<lambda>e. fence_text (entry_task e)) entries),
         Sql_Array (map (\<lambda>e. Sql_Text (serialized_result e)) entries), Sql_Text queue_name,
         Sql_Number (int limit), Sql_Number ms] in
      act_bind
        (act_failing (\<lambda>error. or_default (fast_tier_rejection x error) (Thrown error))
           (query_fenced_write (error_heap x)
              (claim_query (driver_of x) (gated x) SQL_complete_many_and_claim_v1 parameters))) (\<lambda>rows.
      act_bind (act_result (expect_one_row rows ''workhorse.complete_many_and_claim_v1'')) (\<lambda>first.
      act_bind (act_result (map_result (\<lambda>row. claimed_task_of x row queue_name)
                  (filter (\<lambda>row. column row ''task_id'' \<noteq> Sql_Null) rows))) (\<lambda>claimed.
        act_return (accepted_ids (column first ''accepted''), claimed)))))"

text \<open>The loop that hands the claimed tasks out, with \<^verbatim>\<open>next\<close>.\<close>

fun hand_out ::
  "sql_value list \<Rightarrow> queue_task list \<Rightarrow> nat \<Rightarrow> pending_completion list \<Rightarrow> (nat \<times> bool \<times> queue_task list) list" where
  "hand_out accepted claimed next [] = []"
| "hand_out accepted claimed next (entry # entries) =
     (let mine = take (entry_limit entry) (drop next claimed) in
      (promise entry, task_id (entry_task entry) \<in> set accepted, mine) #
      hand_out accepted claimed (next + length mine) entries)"

text \<open>What the callers of a chunk get: each one its own answer, or all of them the error.\<close>

definition flush_completion_chunk ::
  "'w queue_context \<Rightarrow> completion_batch \<Rightarrow> pending_completion list \<Rightarrow>
     'w session \<Rightarrow> (nat \<times> (claim_failure, bool \<times> queue_task list) result) list \<times> 'w session" where
  "flush_completion_chunk x batch entries s =
     (case complete_many_and_claim x (completion_worker batch) (completion_queue batch) (completion_lease_ms batch)
             entries (sum_list (map entry_limit entries)) s of
        (Inl error, s') \<Rightarrow> (map (\<lambda>e. (promise e, Inl error)) entries, s')
      | (Inr (accepted, claimed), s') \<Rightarrow>
          (map (\<lambda>(caller, ok, tasks). (caller, Inr (ok, tasks))) (hand_out accepted claimed 0 entries), s'))"

text \<open>The statements of the chunks start in the order of the chunks.\<close>

fun flush_chunks ::
  "'w queue_context \<Rightarrow> completion_batch \<Rightarrow> pending_completion list list \<Rightarrow>
     'w session \<Rightarrow> (nat \<times> (claim_failure, bool \<times> queue_task list) result) list \<times> 'w session" where
  "flush_chunks x batch [] s = ([], s)"
| "flush_chunks x batch (chunk # chunks) s =
     (let (answers, s1) = flush_completion_chunk x batch chunk s; (more, s2) = flush_chunks x batch chunks s1 in
      (answers @ more, s2))"

definition flush_completions ::
  "'w queue_context \<Rightarrow> completion_batch \<Rightarrow>
     'w session \<Rightarrow> (nat \<times> (claim_failure, bool \<times> queue_task list) result) list \<times> 'w session" where
  "flush_completions x batch s = flush_chunks x batch (completion_chunks (completion_entries batch)) s"

definition claim_fast ::
  "'w queue_context \<Rightarrow> js_string \<Rightarrow> nat \<Rightarrow> js_string option \<Rightarrow> int option \<Rightarrow> ('w, queue_task list) claim_action" where
  "claim_fast x worker limit queue_name ms =
     act_bind (complete_many_and_claim x worker (or_default queue_name (default_queue x))
                 (or_default ms DEFAULT_LEASE_MS) [] limit) (\<lambda>(accepted, claimed). act_return claimed)"

section \<open>Recovery\<close>

record recovery =
  rows_affected :: int
  expired_leases :: int
  retried :: int
  retry_dimensions :: "(js_string \<times> js_string) list"

text \<open>The entries of \<^verbatim>\<open>retriesByTask\<close> in their order: the key, the count, the queue and the type.\<close>

type_synonym retry_count = "js_string \<times> int \<times> js_string \<times> js_string"

fun count_retry :: "js_string \<Rightarrow> js_string \<Rightarrow> retry_count list \<Rightarrow> retry_count list" where
  "count_retry q t [] = [(q @ [0] @ t, 1, q, t)]"
| "count_retry q t ((key, n, q', t') # entries) =
     (if key = q @ [0] @ t then (key, n + 1, q', t') # entries else (key, n, q', t') # count_retry q t entries)"

definition retries_by_task :: "(js_string \<times> js_string) list \<Rightarrow> retry_count list" where
  "retries_by_task dimensions = fold (\<lambda>(q, t). count_retry q t) dimensions []"

text \<open>What \<^verbatim>\<open>recordRecoveryTelemetry\<close> adds to the counter of retries: the amount, the queue and the type.\<close>

definition record_recovery_telemetry :: "recovery \<Rightarrow> (int \<times> js_string \<times> js_string) list" where
  "record_recovery_telemetry r =
     (let entries = retries_by_task (retry_dimensions r);
          attributed = sum_list (map (\<lambda>(_, n, _, _). n) entries) in
      map (\<lambda>(_, n, q, t). (n, q, t)) entries @
      (if attributed < retried r then [(retried r - attributed, js ''unknown'', js ''unknown'')] else []))"

definition recover_expired ::
  "'w queue_context \<Rightarrow> int \<Rightarrow> int option \<Rightarrow> ('w, sql_value) claim_action" where
  "recover_expired x limit retry_delay_ms =
     act_bind (plain_query x SQL_recover_expired_telemetry_v1 [Sql_Number limit, nullable_number retry_delay_ms]) (\<lambda>rows.
     act_bind (act_result (expect_one_row rows ''workhorse.recover_expired_telemetry_v1'')) (\<lambda>row.
       act_return (column row ''rows_affected'')))"

end
