(* ===== verification/Claim_Lease_Fence_Properties.thy ===== *)
theory Claim_Lease_Fence_Properties
  imports Claim_Lease_Fence
begin

text \<open>
  Correctness of claims and settlements: the texts of an error envelope can be stored, heartbeat batches
  and completion chunks keep their limits and their order, every caller of a fused completion is
  answered, no claimed task is lost, and every recovered retry is counted.
\<close>

section \<open>Storable texts\<close>




lemma replacement [simp]:
  "\<not> lead_surrogate 0xFFFD" "\<not> trail_surrogate 0xFFFD" "\<not> refused_unit 0xFFFD"
  by (simp_all add: lead_surrogate_def trail_surrogate_def refused_unit_def)

lemma lead_not_trail: "lead_surrogate c \<Longrightarrow> \<not> trail_surrogate c"
  unfolding lead_surrogate_def trail_surrogate_def by (auto simp: word_le_nat_alt)








section \<open>Batches of leases\<close>

lemma lease_slices_concat: "concat (lease_slices ls) = ls"
proof (induction ls rule: lease_slices.induct)
  case (1 ls)
  then show ?case by (cases "ls = []") (simp_all add: lease_slices.simps [of ls] lease_slices.simps [of "[]"])
qed

lemma lease_slices_size:
  "b \<in> set (lease_slices ls) \<Longrightarrow> b \<noteq> [] \<and> length b \<le> HEARTBEAT_STATEMENT_LEASE_LIMIT"
proof (induction ls rule: lease_slices.induct)
  case (1 ls)
  then show ?case
    by (cases "ls = []") (auto simp: lease_slices.simps [of ls] lease_slices.simps [of "[]"] HEARTBEAT_STATEMENT_LEASE_LIMIT_def)
qed

section \<open>Fused completions\<close>

lemma chunk_loop_concat:
  "concat (chunk_loop chunks chunk k entries) = concat chunks @ chunk @ entries"
  by (induction chunks chunk k entries rule: chunk_loop.induct) simp_all

definition chunk_ok :: "pending_completion list \<Rightarrow> bool" where
  "chunk_ok c \<longleftrightarrow> length c \<le> COMPLETION_BATCH_LIMIT \<and> sum_list (map entry_limit c) \<le> COMPLETION_BATCH_LIMIT"

lemma chunk_loop_ok:
  assumes "\<forall>e \<in> set entries. entry_limit e \<le> COMPLETION_BATCH_LIMIT" "k = sum_list (map entry_limit chunk)"
    and "\<forall>c \<in> set chunks. chunk_ok c \<and> c \<noteq> []" "chunk_ok chunk" "entries = [] \<longrightarrow> chunk \<noteq> []"
  shows "\<forall>c \<in> set (chunk_loop chunks chunk k entries). chunk_ok c \<and> c \<noteq> []"
  using assms
proof (induction chunks chunk k entries rule: chunk_loop.induct)
  case (2 chunks chunk k entry entries)
  let ?full = "length chunk = COMPLETION_BATCH_LIMIT \<or> k + entry_limit entry > COMPLETION_BATCH_LIMIT"
  have e: "entry_limit entry \<le> COMPLETION_BATCH_LIMIT" using 2(3) by simp
  have rest: "\<forall>e \<in> set entries. entry_limit e \<le> COMPLETION_BATCH_LIMIT" using 2(3) by simp
  show ?case
  proof (cases ?full)
    case True
    have "chunk \<noteq> []" using True e 2(4) by (auto simp: COMPLETION_BATCH_LIMIT_def)
    then have "\<forall>c \<in> set (chunks @ [chunk]). chunk_ok c \<and> c \<noteq> []" using 2(5,6) by simp
    moreover have "chunk_ok [entry]" using e by (simp add: chunk_ok_def COMPLETION_BATCH_LIMIT_def)
    ultimately have "\<forall>c \<in> set (chunk_loop (chunks @ [chunk]) [entry] (entry_limit entry) entries). chunk_ok c \<and> c \<noteq> []"
      by (intro 2(1) [OF True rest]) simp_all
    then show ?thesis using True by simp
  next
    case False
    have "chunk_ok (chunk @ [entry])" using False 2(4,6) by (simp add: chunk_ok_def)
    then have "\<forall>c \<in> set (chunk_loop chunks (chunk @ [entry]) (k + entry_limit entry) entries). chunk_ok c \<and> c \<noteq> []"
      using 2(4,5) by (intro 2(2) [OF False rest]) simp_all
    then show ?thesis using False by simp
  qed
qed simp

lemma hand_out_callers: "map fst (hand_out accepted claimed n entries) = map promise entries"
  by (induction accepted claimed n entries rule: hand_out.induct) (simp_all add: Let_def)

lemma hand_out_own:
  "list_all2 (\<lambda>e (caller, ok, tasks). caller = promise e \<and> length tasks \<le> entry_limit e \<and>
     (ok \<longleftrightarrow> task_id (entry_task e) \<in> set accepted)) entries (hand_out accepted claimed n entries)"
  by (induction accepted claimed n entries rule: hand_out.induct) (simp_all add: Let_def)

text \<open>No claimed task is lost or handed out twice.\<close>

lemma hand_out_all:
  assumes "n \<le> length claimed" "length claimed \<le> n + sum_list (map entry_limit entries)"
  shows "concat (map (\<lambda>(_, _, tasks). tasks) (hand_out accepted claimed n entries)) = drop n claimed"
  using assms
proof (induction accepted claimed n entries rule: hand_out.induct)
  case (2 accepted claimed n entry entries)
  let ?mine = "take (entry_limit entry) (drop n claimed)"
  have "concat (map (\<lambda>(_, _, tasks). tasks) (hand_out accepted claimed (n + length ?mine) entries)) =
      drop (n + length ?mine) claimed"
    using 2(2,3) by (intro 2(1)) auto
  moreover have "drop n claimed = ?mine @ drop (n + length ?mine) claimed"
  proof -
    have "drop n claimed = ?mine @ drop (length ?mine) (drop n claimed)"
      by (cases "entry_limit entry \<le> length (drop n claimed)") (simp_all del: drop_drop add: min_def)
    then show ?thesis by (simp add: add.commute)
  qed
  ultimately show ?case by (simp add: Let_def)
qed simp

text \<open>Every pending batch has an entry, and its entries have clipped limits.\<close>

definition batch_ok :: "completion_batch \<Rightarrow> bool" where
  "batch_ok b \<longleftrightarrow> completion_entries b \<noteq> [] \<and>
     (\<forall>e \<in> set (completion_entries b). entry_limit e \<le> COMPLETION_BATCH_LIMIT)"

definition pending_ok :: "pending_completions \<Rightarrow> bool" where
  "pending_ok p \<longleftrightarrow> (\<forall>key b. p key = Some b \<longrightarrow> batch_ok b)"

lemma claim_entry_limit_bound: "claim_entry_limit c \<le> COMPLETION_BATCH_LIMIT"
  by (simp add: claim_entry_limit_def nat_le_iff)

lemma pending_okD: "pending_ok p \<Longrightarrow> p key = Some b \<Longrightarrow> batch_ok b"
  unfolding pending_ok_def by blast

lemma pending_ok_put: "pending_ok p \<Longrightarrow> batch_ok b \<Longrightarrow> pending_ok (p(key \<mapsto> b))"
  unfolding pending_ok_def by (metis fun_upd_apply option.inject)

lemma pending_ok_delete: "pending_ok p \<Longrightarrow> pending_ok (p(key := None))"
  unfolding pending_ok_def by (metis fun_upd_apply option.distinct(1))

lemma completion_step_ok: "pending_ok p \<Longrightarrow> pending_ok (completion_step e p)"
proof (cases e)
  case (Complete_And_Claim task worker serialized c caller)
  assume ok: "pending_ok p"
  have entries: "\<forall>e \<in> set (completion_entries b). entry_limit e \<le> COMPLETION_BATCH_LIMIT"
    if "p (completion_key worker c) = Some b" for b using pending_okD [OF ok that] by (simp add: batch_ok_def)
  show ?thesis
    unfolding Complete_And_Claim completion_step.simps complete_and_claim_def Let_def snd_conv
    using claim_entry_limit_bound [of c] entries
    by (intro pending_ok_put [OF ok]) (auto simp: batch_ok_def or_default_def split: option.splits)
qed (simp add: take_completions_def pending_ok_delete)

interpretation completions: machine_invariant completion_step "\<lambda>_. True" pending_ok
  by unfold_locales (simp add: completion_step_ok)

lemma completion_run_ok: "pending_ok (completion_run es)"
  unfolding completion_run_def by (rule completions.inv_run) (simp_all add: pending_ok_def list_all_iff)

lemma flush_chunk_callers: "map fst (fst (flush_completion_chunk x batch entries s)) = map promise entries"
proof -
  have same: "map fst (map (\<lambda>(caller, ok, tasks). (caller, Inr (ok, tasks))) as) = map fst as"
    for as :: "(nat \<times> bool \<times> queue_task list) list" by (induction as) auto
  show ?thesis
    unfolding flush_completion_chunk_def by (simp add: same hand_out_callers split: prod.split sum.split del: map_map)
      (simp add: comp_def)
qed

lemma flush_chunks_callers: "map fst (fst (flush_chunks x batch chunks s)) = map promise (concat chunks)"
proof (induction chunks arbitrary: s)
  case (Cons chunk chunks)
  obtain answers s1 where chunk: "flush_completion_chunk x batch chunk s = (answers, s1)"
    by (cases "flush_completion_chunk x batch chunk s")
  obtain more s2 where chunks: "flush_chunks x batch chunks s1 = (more, s2)" by (cases "flush_chunks x batch chunks s1")
  have "map fst answers = map promise chunk" using flush_chunk_callers [of x batch chunk s] chunk by simp
  then show ?case using Cons.IH [of s1] chunk chunks by simp
qed simp

text \<open>The tasks that the callers of a chunk get.\<close>

definition handed_tasks :: "(nat \<times> (claim_failure, bool \<times> queue_task list) result) list \<Rightarrow> queue_task list" where
  "handed_tasks answers = concat (map (\<lambda>(_, r). case r of Inr (_, tasks) \<Rightarrow> tasks | Inl _ \<Rightarrow> []) answers)"

lemma flush_chunk_hands_out:
  assumes "complete_many_and_claim x (completion_worker batch) (completion_queue batch) (completion_lease_ms batch)
      entries (sum_list (map entry_limit entries)) s = (Inr (accepted, claimed), s')"
    and "length claimed \<le> sum_list (map entry_limit entries)"
  shows "handed_tasks (fst (flush_completion_chunk x batch entries s)) = claimed"
proof -
  have "handed_tasks (map (\<lambda>(caller, ok, tasks). (caller, Inr (ok, tasks))) as) =
      concat (map (\<lambda>(_, _, tasks). tasks) as)" for as
    unfolding handed_tasks_def by (induction as) auto
  then show ?thesis
    using assms hand_out_all [of 0 claimed entries accepted] by (simp add: flush_completion_chunk_def)
qed

text \<open>
  C39. Fused completions keep their contract: in every batch that is flushed, the statements take the
  completions in their order, each at most a hundred of them and of claims; every caller is answered
  exactly once; and as long as PostgreSQL claims no more than a statement asked for, every task it
  claimed is handed to exactly one caller.\<close>

theorem fused_completions_answered:
  assumes "take_completions key (completion_run es) = (Some batch, pending)"
  shows "concat (completion_chunks (completion_entries batch)) = completion_entries batch \<and>
    (\<forall>c \<in> set (completion_chunks (completion_entries batch)). c \<noteq> [] \<and> length c \<le> COMPLETION_BATCH_LIMIT \<and>
       sum_list (map entry_limit c) \<le> COMPLETION_BATCH_LIMIT) \<and>
    map fst (fst (flush_completions x batch s)) = map promise (completion_entries batch) \<and>
    (complete_many_and_claim x (completion_worker batch) (completion_queue batch) (completion_lease_ms batch)
       c (sum_list (map entry_limit c)) s = (Inr (accepted, claimed), s') \<and>
     length claimed \<le> sum_list (map entry_limit c) \<longrightarrow>
     handed_tasks (fst (flush_completion_chunk x batch c s)) = claimed)"
proof -
  let ?es = "completion_entries batch"
  have ok: "batch_ok batch"
    using pending_okD [OF completion_run_ok [of es], of key batch] assms by (simp add: take_completions_def)
  have concat: "concat (completion_chunks ?es) = ?es"
    by (simp add: completion_chunks_def chunk_loop_concat)
  have "\<forall>c \<in> set (completion_chunks ?es). chunk_ok c \<and> c \<noteq> []"
    unfolding completion_chunks_def using ok
    by (intro chunk_loop_ok) (simp_all add: batch_ok_def chunk_ok_def)
  then show ?thesis
    using concat flush_chunks_callers [of x batch "completion_chunks ?es" s] flush_chunk_hands_out [of x batch c s]
    by (simp add: flush_completions_def chunk_ok_def)
qed

text \<open>A worker completes one task and asks for ten more, and the database gives no row.\<close>

definition quiet_driver :: "unit driver" where
  "quiet_driver = \<lparr>pool = None, pool_connect = (\<lambda>w. (Inr (0, True), w)), client_query = (\<lambda>_ _ _ w. (Inr [], w)),
     database_query = (\<lambda>_ _ w. (Inr [], w)), gate_open = (\<lambda>_. True), gate_closed_error = Null_Value,
     client_type_error = Null_Value\<rparr>"

definition quiet_session :: "unit session" where
  "quiet_session = \<lparr>world = (), lent = [], returned = [], sent = []\<rparr>"

definition sample_task :: queue_task where
  "sample_task = \<lparr>task_id = Sql_Text (js ''t''), task_queue = js ''q'', task_type = Sql_Text (js ''k''), task_priority = Sql_Number 0,
     task_payload = Sql_Null, contract_version = Sql_Null, result_max_bytes = Sql_Number 1024,
     redact_error_details = False, trace_context = Sql_Null, task_attempt = Sql_Number 1, max_attempts = Sql_Number 3,
     retry_policy = Sql_Null, deadline_at = None, execution_timeout_ms = None, attempt_timeout_at = None,
     fence_token = 1, lease_expires_at = 0\<rparr>"

definition sample_claim :: completion_claim where
  "sample_claim = \<lparr>claim_queue = js ''q'', claim_limit = 10, claim_lease_ms = None, claim_cohort = None, claim_watch = None\<rparr>"

definition sample_completion :: completion_event where
  "sample_completion = Complete_And_Claim sample_task (js ''w'') (js ''null'') sample_claim 5"

definition sample_batch :: completion_batch where
  "sample_batch = \<lparr>completion_worker = js ''w'', completion_queue = js ''q'', completion_lease_ms = 30000,
     completion_entries = [\<lparr>entry_task = sample_task, serialized_result = js ''null'', entry_limit = 10, promise = 5\<rparr>],
     completion_watch = None\<rparr>"

definition sample_context :: "unit queue_context" where
  "sample_context = \<lparr>driver_of = quiet_driver, error_heap = (\<lambda>_. \<lparr>js_class = Plain_Class, js_fields = Map.empty\<rparr>), default_queue = js ''q'', gated = True,
     date_of = (\<lambda>_. None), string_of = (\<lambda>_. []), envelope_text = (\<lambda>_. []), parsed_detail = (\<lambda>_. None)\<rparr>"

lemma sample_taken:
  "take_completions (completion_key (js ''w'') sample_claim) (completion_run [sample_completion]) =
     (Some sample_batch, (completion_run [sample_completion])(completion_key (js ''w'') sample_claim := None))"
  by (simp add: take_completions_def completion_run_def sample_completion_def complete_and_claim_def or_default_def
      sample_batch_def sample_claim_def DEFAULT_LEASE_MS_def claim_entry_limit_def COMPLETION_BATCH_LIMIT_def)

theorem fused_completions_answered_witness:
  "map fst (fst (flush_completions sample_context sample_batch quiet_session)) = [5] \<and>
   concat (completion_chunks (completion_entries sample_batch)) = completion_entries sample_batch"
  using fused_completions_answered [OF sample_taken, of sample_context quiet_session] by (simp add: sample_batch_def)

section \<open>Error envelopes\<close>





section \<open>Recovered retries\<close>

definition counted :: "retry_count list \<Rightarrow> int" where
  "counted entries = sum_list (map (\<lambda>(_, n, _, _). n) entries)"

lemma count_retry_counted: "counted (count_retry q t entries) = counted entries + 1"
  by (induction q t entries rule: count_retry.induct) (auto simp: counted_def)

lemma retries_by_task_counted: "counted (retries_by_task dimensions) = int (length dimensions)"
proof -
  have "counted (fold (\<lambda>(q, t). count_retry q t) dimensions entries) = counted entries + int (length dimensions)" for entries
    by (induction dimensions arbitrary: entries) (auto simp: count_retry_counted)
  then show ?thesis by (simp add: retries_by_task_def counted_def)
qed

text \<open>Every retry of a recovery is counted, with its queue and type or as unknown.\<close>

lemma recovery_counts_all_retries:
  "sum_list (map fst (record_recovery_telemetry r)) = max (retried r) (int (length (retry_dimensions r)))"
proof -
  have "sum_list (map fst (map (\<lambda>(_, n, q, t). (n, q, t)) es)) = counted es" for es :: "retry_count list"
    unfolding counted_def by (induction es) auto
  then show ?thesis
    using retries_by_task_counted [of "retry_dimensions r"]
    by (simp add: record_recovery_telemetry_def Let_def counted_def del: map_map)
qed

end
