(* ===== verification/Filter_Cursor.thy ===== *)
theory Filter_Cursor
  imports Canonical_Json
begin

text \<open>
  The checks of operator queries in \<^verbatim>\<open>queue/filter-cursor.ts\<close>, and the cursors that \<^verbatim>\<open>listTasks\<close> and
  \<^verbatim>\<open>getTaskTimeline\<close> of \<^verbatim>\<open>queue/operator-reads.ts\<close> give with a page.

  A query comes from a caller that TypeScript cannot hold to its types, so the code checks every value it
  reads. \<open>input\<close> is such a value: what \<^verbatim>\<open>typeof\<close>, \<^verbatim>\<open>Array.isArray\<close>, \<^verbatim>\<open>instanceof Date\<close> and the reads of fields
  tell apart. A number is exact, or one of the values that are not finite. An error is its class and
  the part of its message that does not depend on the query.
\<close>

section \<open>Values\<close>

datatype number_input = Finite rat | Infinity_Number bool | Not_A_Number

datatype input =
    In_Undefined
  | In_Null
  | In_Bool bool
  | In_Number number_input
  | In_Text js_string
  | In_Date number_input
  | In_Array "input list"
  | In_Object "(js_string \<times> input) list"
  | In_Other

definition input_field :: "string \<Rightarrow> input \<Rightarrow> input" where
  "input_field name v =
     (case v of
        In_Object fs \<Rightarrow> (case map_of fs (js name) of None \<Rightarrow> In_Undefined | Some x \<Rightarrow> x)
      | _ \<Rightarrow> In_Undefined)"

definition object_keys :: "input \<Rightarrow> js_string list" where
  "object_keys v =
     (case v of
        In_Object fs \<Rightarrow> map fst fs
      | In_Array xs \<Rightarrow> map decimal_text [0..<length xs]
      | _ \<Rightarrow> [])"

text \<open>\<^verbatim>\<open>typeof value === "object" && value !== null\<close>\<close>

fun is_object_input :: "input \<Rightarrow> bool" where
  "is_object_input (In_Object _) = True"
| "is_object_input (In_Array _) = True"
| "is_object_input (In_Date _) = True"
| "is_object_input _ = False"

fun is_array_input :: "input \<Rightarrow> bool" where
  "is_array_input (In_Array _) = True"
| "is_array_input _ = False"

definition nullish :: "input \<Rightarrow> bool" where
  "nullish v \<longleftrightarrow> v = In_Undefined \<or> v = In_Null"

text \<open>\<^verbatim>\<open>Number.isSafeInteger\<close>, with the integer.\<close>

definition safe_integer :: "input \<Rightarrow> int option" where
  "safe_integer v =
     (case v of
        In_Number (Finite r) \<Rightarrow> if r = of_int \<lfloor>r\<rfloor> \<and> \<bar>\<lfloor>r\<rfloor>\<bar> \<le> 2 ^ 53 - 1 then Some \<lfloor>r\<rfloor> else None
      | _ \<Rightarrow> None)"

text \<open>\<^verbatim>\<open>[...text].length\<close>: a surrogate pair is one character.\<close>

fun character_count :: "js_string \<Rightarrow> nat" where
  "character_count [] = 0"
| "character_count [c] = 1"
| "character_count (c # d # rest) =
     (if lead_surrogate c \<and> trail_surrogate d then Suc (character_count rest)
      else Suc (character_count (d # rest)))"

datatype query_error = Type_Error string | Range_Error string

section \<open>Checks\<close>

definition MAX_TASK_QUERY_PAGE_SIZE :: int where
  "MAX_TASK_QUERY_PAGE_SIZE = 1000"

definition DEFAULT_TASK_QUERY_PAYLOAD_BYTES :: int where
  "DEFAULT_TASK_QUERY_PAYLOAD_BYTES = 16384"

definition MAX_TASK_QUERY_PAYLOAD_BYTES :: int where
  "MAX_TASK_QUERY_PAYLOAD_BYTES = 1048576"

definition MAX_TASK_QUERY_REDACT_KEYS :: nat where
  "MAX_TASK_QUERY_REDACT_KEYS = 50"

definition TASK_LIST_FIELDS :: "js_string list" where
  "TASK_LIST_FIELDS = map js [''queue'', ''type'', ''states'', ''createdAfter'', ''createdBefore'', ''limit'', ''cursor'', ''payload'']"

definition TASK_LIST_CURSOR_FIELDS :: "js_string list" where
  "TASK_LIST_CURSOR_FIELDS = map js [''createdAt'', ''taskId'', ''signature'']"

definition PAYLOAD_PROJECTION_FIELDS :: "js_string list" where
  "PAYLOAD_PROJECTION_FIELDS = map js [''include'', ''maxBytes'', ''redactKeys'']"

definition TASK_STATES :: "js_string list" where
  "TASK_STATES = map js [''blocked'', ''scheduled'', ''ready'', ''active'', ''succeeded'', ''failed'', ''canceled'']"

definition validate_finite_date :: "input \<Rightarrow> string \<Rightarrow> (query_error, unit) result" where
  "validate_finite_date v field =
     (case v of
        In_Undefined \<Rightarrow> Inr ()
      | In_Date (Finite _) \<Rightarrow> Inr ()
      | _ \<Rightarrow> Inl (Type_Error (field @ '' must be a finite Date'')))"

definition validate_known_fields :: "input \<Rightarrow> js_string list \<Rightarrow> string \<Rightarrow> (query_error, unit) result" where
  "validate_known_fields v allowed label =
     for_each (\<lambda>field. guard_that (field \<in> set allowed) (Type_Error (label @ '' contains unknown field'')))
       (object_keys v)"

fun non_empty_text :: "input \<Rightarrow> bool" where
  "non_empty_text (In_Text s) = (s \<noteq> [])"
| "non_empty_text _ = False"

definition validate_required_strings :: "(string \<times> input) list \<Rightarrow> string \<Rightarrow> (query_error, unit) result" where
  "validate_required_strings fs label =
     for_each (\<lambda>(field, v).
       guard_that (non_empty_text v) (Type_Error (label @ '' '' @ field @ '' must be a non-empty string''))) fs"

definition validate_page_limit :: "input \<Rightarrow> int \<Rightarrow> int \<Rightarrow> string \<Rightarrow> (query_error, int) result" where
  "validate_page_limit v default_value maximum label =
     (let limit = (if nullish v then In_Number (Finite (of_int default_value)) else v) in
      case safe_integer limit of
        Some n \<Rightarrow> if n < 1 \<or> n > maximum then Inl (Range_Error label) else Inr n
      | None \<Rightarrow> Inl (Range_Error label))"

text \<open>The loop over the states, with \<^verbatim>\<open>uniqueStates\<close>.\<close>

fun validate_states :: "js_string list \<Rightarrow> input list \<Rightarrow> (query_error, unit) result" where
  "validate_states unique [] = Inr ()"
| "validate_states unique (state # states) =
     (case state of
        In_Text s \<Rightarrow>
          if s \<notin> set TASK_STATES then Inl (Type_Error ''listTasks state is invalid'')
          else if s \<in> set unique then Inl (Range_Error ''listTasks states must be unique'')
          else validate_states (s # unique) states
      | _ \<Rightarrow> Inl (Type_Error ''listTasks state is invalid''))"

text \<open>The loop over the keys to redact, with \<^verbatim>\<open>uniqueRedactKeys\<close>: the keys as texts.\<close>

fun validate_redact_keys :: "js_string list \<Rightarrow> input list \<Rightarrow> (query_error, js_string list) result" where
  "validate_redact_keys unique [] = Inr []"
| "validate_redact_keys unique (key # keys) =
     (case key of
        In_Text s \<Rightarrow>
          if character_count s < 1 \<or> character_count s > 200
          then Inl (Range_Error ''listTasks payload redactKeys must contain 1 to 200 characters'')
          else if s \<in> set unique then Inl (Range_Error ''listTasks payload redactKeys must be unique'')
          else bind_result (validate_redact_keys (s # unique) keys) (\<lambda>rest. Inr (s # rest))
      | _ \<Rightarrow> Inl (Type_Error ''listTasks payload redactKeys must contain only strings''))"

section \<open>validateTaskListQuery\<close>

record validated_query =
  query_limit :: int
  query_cursor :: input
  payload_include :: bool
  payload_max_bytes :: int
  payload_redact_keys :: "js_string list"

definition validate_created_range :: "input \<Rightarrow> (query_error, unit) result" where
  "validate_created_range query =
     bind_result (validate_finite_date (input_field ''createdAfter'' query) ''listTasks createdAfter'') (\<lambda>_.
     bind_result (validate_finite_date (input_field ''createdBefore'' query) ''listTasks createdBefore'') (\<lambda>_.
       case (input_field ''createdAfter'' query, input_field ''createdBefore'' query) of
         (In_Date (Finite a), In_Date (Finite b)) \<Rightarrow>
           guard_that (a < b) (Range_Error ''listTasks createdAfter must be earlier than createdBefore'')
       | _ \<Rightarrow> Inr ()))"

definition validate_state_filter :: "input \<Rightarrow> (query_error, unit) result" where
  "validate_state_filter states =
     (case states of
        In_Undefined \<Rightarrow> Inr ()
      | In_Array (s # ss) \<Rightarrow> validate_states [] (s # ss)
      | _ \<Rightarrow> Inl (Range_Error ''listTasks states must be a non-empty array when supplied''))"

definition validate_list_cursor :: "input \<Rightarrow> (query_error, unit) result" where
  "validate_list_cursor cursor =
     (if cursor = In_Undefined then Inr ()
      else if \<not> is_object_input cursor then Inl (Type_Error ''listTasks cursor must be an object'')
      else
        bind_result (validate_known_fields cursor TASK_LIST_CURSOR_FIELDS ''listTasks cursor'') (\<lambda>_.
          validate_required_strings
            [(''createdAt'', input_field ''createdAt'' cursor), (''taskId'', input_field ''taskId'' cursor),
             (''signature'', input_field ''signature'' cursor)] ''listTasks cursor''))"

definition validate_include :: "input \<Rightarrow> (query_error, bool) result" where
  "validate_include v =
     (case v of
        In_Undefined \<Rightarrow> Inr False
      | In_Bool b \<Rightarrow> Inr b
      | _ \<Rightarrow> Inl (Type_Error ''listTasks payload include must be a boolean''))"

definition validate_max_bytes :: "input \<Rightarrow> (query_error, int) result" where
  "validate_max_bytes v =
     (if v = In_Undefined then Inr DEFAULT_TASK_QUERY_PAYLOAD_BYTES
      else
        (case safe_integer v of
           Some n \<Rightarrow>
             if n < 1 \<or> n > MAX_TASK_QUERY_PAYLOAD_BYTES then Inl (Range_Error ''listTasks payload maxBytes'')
             else Inr n
         | None \<Rightarrow> Inl (Range_Error ''listTasks payload maxBytes'')))"

definition validate_redaction :: "input \<Rightarrow> (query_error, js_string list) result" where
  "validate_redaction v =
     (case if nullish v then In_Array [] else v of
        In_Array keys \<Rightarrow>
          if length keys > MAX_TASK_QUERY_REDACT_KEYS then Inl (Range_Error ''listTasks payload redactKeys'')
          else validate_redact_keys [] keys
      | _ \<Rightarrow> Inl (Type_Error ''listTasks payload redactKeys must be an array''))"

text \<open>The checks in the order of the source, each on what the ones before it let through.\<close>

definition validate_task_list_query :: "input \<Rightarrow> (query_error, validated_query) result" where
  "validate_task_list_query query =
     (if \<not> is_object_input query \<or> is_array_input query then Inl (Type_Error ''listTasks query must be an object'')
      else
        bind_result (validate_known_fields query TASK_LIST_FIELDS ''listTasks query'') (\<lambda>_.
        bind_result (validate_page_limit (input_field ''limit'' query) 100 MAX_TASK_QUERY_PAGE_SIZE ''listTasks limit'') (\<lambda>limit.
        bind_result (validate_created_range query) (\<lambda>_.
        bind_result (validate_state_filter (input_field ''states'' query)) (\<lambda>_.
        let cursor = input_field ''cursor'' query; payload = input_field ''payload'' query in
        bind_result (validate_list_cursor cursor) (\<lambda>_.
        if payload \<noteq> In_Undefined \<and> (\<not> is_object_input payload \<or> is_array_input payload)
        then Inl (Type_Error ''listTasks payload must be an object'')
        else
          let projection = (if nullish payload then In_Object [] else payload) in
          bind_result (validate_known_fields projection PAYLOAD_PROJECTION_FIELDS ''listTasks payload'') (\<lambda>_.
          bind_result (validate_include (input_field ''include'' projection)) (\<lambda>include.
          bind_result (validate_max_bytes (input_field ''maxBytes'' projection)) (\<lambda>max_bytes.
          bind_result (validate_redaction (input_field ''redactKeys'' projection)) (\<lambda>keys.
            Inr \<lparr>query_limit = limit, query_cursor = cursor, payload_include = include,
                 payload_max_bytes = max_bytes, payload_redact_keys = keys\<rparr>))))))))))"

section \<open>validateTaskTimelineCursor\<close>

definition validate_task_timeline_cursor :: "js_string \<Rightarrow> input \<Rightarrow> (query_error, input) result" where
  "validate_task_timeline_cursor task cursor =
     (if cursor = In_Undefined then Inr In_Undefined
      else if \<not> is_object_input cursor then Inl (Type_Error ''getTaskTimeline cursor must be an object'')
      else
        bind_result (validate_required_strings
          [(''taskId'', input_field ''taskId'' cursor), (''occurredAt'', input_field ''occurredAt'' cursor),
           (''recordId'', input_field ''recordId'' cursor)] ''getTaskTimeline cursor'') (\<lambda>_.
        bind_result (guard_that
          (input_field ''kind'' cursor = In_Text (js ''event'') \<or> input_field ''kind'' cursor = In_Text (js ''attempt''))
          (Type_Error ''getTaskTimeline cursor kind must be event or attempt'')) (\<lambda>_.
        bind_result (guard_that (input_field ''taskId'' cursor = In_Text task)
          (Range_Error ''getTaskTimeline cursor taskId must match the requested taskId'')) (\<lambda>_. Inr cursor))))"

definition validate_task_timeline_query ::
  "js_string \<Rightarrow> input \<Rightarrow> input \<Rightarrow> (query_error, int \<times> input) result" where
  "validate_task_timeline_query task limit cursor =
     bind_result (validate_page_limit limit 100 MAX_TASK_QUERY_PAGE_SIZE ''getTaskTimeline limit'') (\<lambda>n.
     bind_result (validate_task_timeline_cursor task cursor) (\<lambda>c. Inr (n, c)))"

section \<open>The cursor of the next page\<close>

text \<open>What \<^verbatim>\<open>listTasks\<close> and \<^verbatim>\<open>getTaskTimeline\<close> read of their rows for the next cursor.\<close>

record list_row =
  list_has_more :: bool
  cursor_created_at :: js_string
  list_task_id :: js_string
  cursor_signature :: js_string

record timeline_row =
  timeline_has_more :: bool
  cursor_occurred_at :: js_string
  timeline_kind :: js_string
  record_id :: js_string

text \<open>\<open>In_Undefined\<close> is \<^verbatim>\<open>null\<close>: a caller passes no cursor for the page after the last one.\<close>

definition next_list_cursor :: "list_row list \<Rightarrow> input" where
  "next_list_cursor rows =
     (if rows \<noteq> [] \<and> list_has_more (last rows)
      then In_Object [(js ''createdAt'', In_Text (cursor_created_at (last rows))),
                      (js ''taskId'', In_Text (list_task_id (last rows))),
                      (js ''signature'', In_Text (cursor_signature (last rows)))]
      else In_Undefined)"

definition next_timeline_cursor :: "js_string \<Rightarrow> timeline_row list \<Rightarrow> input" where
  "next_timeline_cursor task rows =
     (if rows \<noteq> [] \<and> timeline_has_more (last rows)
      then In_Object [(js ''taskId'', In_Text task), (js ''occurredAt'', In_Text (cursor_occurred_at (last rows))),
                      (js ''kind'', In_Text (timeline_kind (last rows))),
                      (js ''recordId'', In_Text (record_id (last rows)))]
      else In_Undefined)"

end
