(* ===== verification/Filter_Cursor_Properties.thy ===== *)
theory Filter_Cursor_Properties
  imports Filter_Cursor
begin

text \<open>
  Correctness of the query checks: what they let through is in its bounds, and the cursor of a page is
  accepted for the next page.
\<close>

section \<open>What the checks let through\<close>

lemma safe_integer_some: "safe_integer v = Some n \<Longrightarrow> v = In_Number (Finite (of_int n))"
  by (auto simp: safe_integer_def split: input.splits number_input.splits if_splits)






text \<open>A cursor that can continue a page of tasks.\<close>

definition list_cursor_ok :: "input \<Rightarrow> bool" where
  "list_cursor_ok c \<longleftrightarrow> c = In_Undefined \<or>
     (\<exists>fs. c = In_Object fs \<and> set (map fst fs) \<subseteq> set TASK_LIST_CURSOR_FIELDS) \<and>
     non_empty_text (input_field ''createdAt'' c) \<and> non_empty_text (input_field ''taskId'' c) \<and>
     non_empty_text (input_field ''signature'' c)"








section \<open>The next page\<close>

text \<open>A cursor that a page gives is accepted for the next page: PostgreSQL gives texts that are not empty.\<close>

lemma next_list_cursor_accepted:
  assumes "\<forall>row \<in> set rows. cursor_created_at row \<noteq> [] \<and> list_task_id row \<noteq> [] \<and> cursor_signature row \<noteq> []"
  shows "list_cursor_ok (next_list_cursor rows)"
proof -
  have keys: "js ''createdAt'' \<noteq> js ''taskId''" "js ''createdAt'' \<noteq> js ''signature''" "js ''taskId'' \<noteq> js ''signature''"
    by code_simp+
  have "rows \<noteq> [] \<Longrightarrow> last rows \<in> set rows" by simp
  then show ?thesis
    using assms keys by (auto simp: next_list_cursor_def list_cursor_ok_def input_field_def TASK_LIST_CURSOR_FIELDS_def)
qed

lemma next_timeline_cursor_accepted:
  assumes "task \<noteq> []" "\<forall>row \<in> set rows. cursor_occurred_at row \<noteq> [] \<and> record_id row \<noteq> [] \<and>
    timeline_kind row \<in> {js ''event'', js ''attempt''}"
  shows "validate_task_timeline_cursor task (next_timeline_cursor task rows) = Inr (next_timeline_cursor task rows)"
proof -
  have keys: "js ''taskId'' \<noteq> js ''occurredAt''" "js ''taskId'' \<noteq> js ''kind''" "js ''taskId'' \<noteq> js ''recordId''"
    "js ''occurredAt'' \<noteq> js ''kind''" "js ''occurredAt'' \<noteq> js ''recordId''" "js ''kind'' \<noteq> js ''recordId''"
    by code_simp+
  have "rows \<noteq> [] \<Longrightarrow> last rows \<in> set rows" by simp
  then show ?thesis
    using assms keys keys [symmetric]
    by (auto simp: next_timeline_cursor_def validate_task_timeline_cursor_def validate_required_strings_def input_field_def)
qed

end
