(* ===== verification/Notification_Hub.thy ===== *)
theory Notification_Hub
  imports Claim_Gate
begin

text \<open>
  The notification hub of \<^verbatim>\<open>notifications.ts\<close>: one \<^verbatim>\<open>LISTEN\<close> connection per pool that wakes the subscribers of
  all workers. The loop of \<^verbatim>\<open>run\<close> is a record of where it awaits, and each event is a callback that
  settles what it awaits or that the client, the database or a subscriber makes. An abort settles the
  race of an await, so the loop resumes with the abort at an event of its own; until then other callbacks
  can come first.

  The logs are the wakes and the reported errors, each for a subscriber, and the clients that were lent and
  released. A client is a number, and a run of the loop too.
\<close>

section \<open>Data\<close>

definition RECONNECT_INITIAL_MS :: int where
  "RECONNECT_INITIAL_MS = 100"

definition RECONNECT_MAX_MS :: int where
  "RECONNECT_MAX_MS = 5000"

definition CHANNEL :: js_string where
  "CHANNEL = js ''workhorse_tasks''"

text \<open>Where the loop awaits: a connect, \<^verbatim>\<open>LISTEN\<close>, the end of the connection, \<^verbatim>\<open>UNLISTEN\<close>, and the pause before a new connect.\<close>

datatype hub_phase =
    Connecting
  | Setting_Up nat
  | Listening nat
  | Unlistening nat
  | Pausing

record hub_loop =
  loop_phase :: hub_phase
  reconnect_ms :: int
  loop_aborted :: bool

text \<open>
  \<open>closing\<close> is the last subscriber, which waits for the loop to end before it is removed. \<open>late\<close> counts
  the connects whose wait was aborted.
\<close>

record hub =
  subscribers :: "(nat \<times> js_string) list"
  next_subscriber :: nat
  hub_loop :: "hub_loop option"
  hub_listening :: bool
  closed :: "nat list"
  closing :: "nat list"
  late :: nat
  hub_lent :: "nat list"
  hub_released :: "(nat \<times> bool) list"
  wakes :: "nat list"
  hub_errors :: nat

definition new_hub :: hub where
  "new_hub = \<lparr>subscribers = [], next_subscriber = 0, hub_loop = None, hub_listening = False, closed = [], closing = [],
     late = 0, hub_lent = [], hub_released = [], wakes = [], hub_errors = 0\<rparr>"

section \<open>Subscribers\<close>

definition start_loop :: "hub \<Rightarrow> hub" where
  "start_loop h =
     h\<lparr>hub_loop := Some \<lparr>loop_phase = Connecting, reconnect_ms = RECONNECT_INITIAL_MS, loop_aborted = False\<rparr>\<rparr>"

definition stopping :: "hub \<Rightarrow> bool" where
  "stopping h \<longleftrightarrow> (case hub_loop h of Some l \<Rightarrow> loop_aborted l | None \<Rightarrow> False)"

text \<open>
  \<^verbatim>\<open>subscribe\<close>: a call while the loop is ending waits for the end, so it takes no effect as long as the loop
  is there.
\<close>

definition subscribe :: "js_string \<Rightarrow> hub \<Rightarrow> hub" where
  "subscribe q h =
     (if stopping h then h
      else
        let h1 = h\<lparr>next_subscriber := Suc (next_subscriber h), subscribers := subscribers h @ [(next_subscriber h, q)]\<rparr> in
        if hub_loop h1 = None then start_loop h1 else h1)"

definition abort_loop :: "hub \<Rightarrow> hub" where
  "abort_loop h = h\<lparr>hub_loop := map_option (\<lambda>l. l\<lparr>loop_aborted := True\<rparr>) (hub_loop h)\<rparr>"

definition remove_subscriber :: "nat \<Rightarrow> hub \<Rightarrow> hub" where
  "remove_subscriber i h = h\<lparr>subscribers := filter (\<lambda>s. fst s \<noteq> i) (subscribers h)\<rparr>"

text \<open>\<^verbatim>\<open>close\<close> of a subscription. The last subscriber stays until the loop has ended.\<close>

definition close_subscription :: "nat \<Rightarrow> hub \<Rightarrow> hub" where
  "close_subscription i h =
     (if i \<in> set (closed h) \<or> i \<notin> fst ` set (subscribers h) then h
      else
        let h1 = h\<lparr>closed := i # closed h\<rparr> in
        if length (subscribers h1) > 1 then remove_subscriber i h1
        else if hub_loop h1 = None then remove_subscriber i h1
        else abort_loop (h1\<lparr>closing := i # closing h1\<rparr>))"

definition wake_matching :: "js_string \<Rightarrow> js_string \<Rightarrow> hub \<Rightarrow> hub" where
  "wake_matching channel payload h =
     (if channel \<noteq> CHANNEL then h
      else h\<lparr>wakes := wakes h @ map fst (filter (\<lambda>(_, q). payload = q \<or> payload = js ''*'') (subscribers h))\<rparr>)"

definition wake_all :: "hub \<Rightarrow> hub" where
  "wake_all h = h\<lparr>wakes := wakes h @ map fst (subscribers h)\<rparr>"

definition report :: "hub \<Rightarrow> hub" where
  "report h = h\<lparr>hub_errors := hub_errors h + length (subscribers h)\<rparr>"

section \<open>The loop\<close>

definition put_phase :: "hub_phase \<Rightarrow> hub \<Rightarrow> hub" where
  "put_phase p h = h\<lparr>hub_loop := map_option (\<lambda>l. l\<lparr>loop_phase := p\<rparr>) (hub_loop h)\<rparr>"

definition release_hub :: "nat \<Rightarrow> bool \<Rightarrow> hub \<Rightarrow> hub" where
  "release_hub c failed h = h\<lparr>hub_released := hub_released h @ [(c, failed)]\<rparr>"

text \<open>The loop returns: the \<^verbatim>\<open>finally\<close> of \<^verbatim>\<open>start\<close>, and the subscription that waited for it.\<close>

definition end_loop :: "hub \<Rightarrow> hub" where
  "end_loop h = fold remove_subscriber (closing h) (h\<lparr>hub_loop := None, closing := []\<rparr>)"

text \<open>What follows the \<^verbatim>\<open>try\<close> of one round: the loop returns, or pauses.\<close>

definition after_round :: "hub \<Rightarrow> hub" where
  "after_round h = (if stopping h then end_loop h else put_phase Pausing h)"

text \<open>The \<^verbatim>\<open>finally\<close> of one round, with the client and whether the connection has an error.\<close>

definition end_round :: "nat \<Rightarrow> bool \<Rightarrow> hub \<Rightarrow> hub" where
  "end_round c failed h =
     (let h1 = h\<lparr>hub_listening := False\<rparr> in
      if failed then after_round (release_hub c True h1) else put_phase (Unlistening c) h1)"

definition connect_resumes :: "(nat option) option \<Rightarrow> hub \<Rightarrow> hub" where
  "connect_resumes outcome h =
     (case outcome of
        Some (Some c) \<Rightarrow>
          let h1 = h\<lparr>hub_lent := hub_lent h @ [c]\<rparr> in
          if stopping h then end_loop (release_hub c False (h1\<lparr>hub_listening := False\<rparr>))
          else put_phase (Setting_Up c) h1
      | Some None \<Rightarrow> after_round (report (h\<lparr>hub_listening := False\<rparr>))
      | None \<Rightarrow> if stopping h then end_loop (h\<lparr>late := Suc (late h), hub_listening := False\<rparr>) else h)"

text \<open>A connect that arrives after its wait was aborted goes back to the pool.\<close>

definition late_connect :: "nat option \<Rightarrow> hub \<Rightarrow> hub" where
  "late_connect arrived h =
     (if late h = 0 then h
      else
        let h1 = h\<lparr>late := late h - 1\<rparr> in
        case arrived of None \<Rightarrow> h1 | Some c \<Rightarrow> release_hub c False (h1\<lparr>hub_lent := hub_lent h1 @ [c]\<rparr>))"

datatype listen_outcome = Listen_Done | Listen_Failed | Listen_Aborted

definition listen_resumes :: "nat \<Rightarrow> listen_outcome \<Rightarrow> hub \<Rightarrow> hub" where
  "listen_resumes c outcome h =
     (case outcome of
        Listen_Done \<Rightarrow>
          wake_all (put_phase (Listening c)
            (h\<lparr>hub_listening := True,
               hub_loop := map_option (\<lambda>l. l\<lparr>reconnect_ms := RECONNECT_INITIAL_MS\<rparr>) (hub_loop h)\<rparr>))
      | Listen_Failed \<Rightarrow> end_round c True (report h)
      | Listen_Aborted \<Rightarrow> if stopping h then end_loop (release_hub c True (h\<lparr>hub_listening := False\<rparr>)) else h)"

definition connection_ends :: "nat \<Rightarrow> bool \<Rightarrow> hub \<Rightarrow> hub" where
  "connection_ends c lost h =
     (if lost then end_round c True (wake_all (report h))
      else if stopping h then end_round c False h else h)"

definition unlisten_resumes :: "nat \<Rightarrow> bool \<Rightarrow> hub \<Rightarrow> hub" where
  "unlisten_resumes c failed h = after_round (release_hub c failed (if failed then report h else h))"

definition pause_resumes :: "hub \<Rightarrow> hub" where
  "pause_resumes h =
     (if stopping h then end_loop h
      else h\<lparr>hub_loop := map_option (\<lambda>l. l\<lparr>loop_phase := Connecting,
             reconnect_ms := min RECONNECT_MAX_MS (reconnect_ms l * 2)\<rparr>) (hub_loop h)\<rparr>)"

section \<open>Runs\<close>

datatype hub_event =
    Subscribe js_string
  | Close_Subscription nat
  | Notification js_string js_string
  | Connect_Resumes "nat option option"
  | Late_Connect "nat option"
  | Listen_Resumes listen_outcome
  | Connection_Ends bool
  | Unlisten_Resumes bool
  | Pause_Resumes

text \<open>A callback of the loop only comes where the loop awaits it; a client has its listener from \<^verbatim>\<open>LISTEN\<close> on.\<close>

definition hub_step :: "hub_event \<Rightarrow> hub \<Rightarrow> hub" where
  "hub_step e h =
     (case e of
        Subscribe q \<Rightarrow> subscribe q h
      | Close_Subscription i \<Rightarrow> close_subscription i h
      | Late_Connect arrived \<Rightarrow> late_connect arrived h
      | _ \<Rightarrow>
          (case (e, map_option loop_phase (hub_loop h)) of
             (Connect_Resumes outcome, Some Connecting) \<Rightarrow> connect_resumes outcome h
           | (Notification channel payload, Some (Setting_Up _)) \<Rightarrow> wake_matching channel payload h
           | (Notification channel payload, Some (Listening _)) \<Rightarrow> wake_matching channel payload h
           | (Listen_Resumes outcome, Some (Setting_Up c)) \<Rightarrow> listen_resumes c outcome h
           | (Connection_Ends lost, Some (Listening c)) \<Rightarrow> connection_ends c lost h
           | (Unlisten_Resumes failed, Some (Unlistening c)) \<Rightarrow> unlisten_resumes c failed h
           | (Pause_Resumes, Some Pausing) \<Rightarrow> pause_resumes h
           | _ \<Rightarrow> h))"

definition hub_run :: "hub_event list \<Rightarrow> hub" where
  "hub_run es = fold hub_step es new_hub"

section \<open>Hubs of pools\<close>

text \<open>\<^verbatim>\<open>listeningPool\<close>: the listener holds one connection, so the pool must report at least two.\<close>

definition listening_pool :: "connection_pool option \<Rightarrow> bool" where
  "listening_pool p \<longleftrightarrow> (case Option.bind p max_size of Some capacity \<Rightarrow> capacity > 1 | None \<Rightarrow> False)"

definition jitter_duration :: "real \<Rightarrow> real \<Rightarrow> int" where
  "jitter_duration random duration = max 1 \<lfloor>duration * (0.9 + random * 0.2) + 1 / 2\<rfloor>"

end
