(* ===== verification/Notification_Hub_Properties.thy ===== *)
theory Notification_Hub_Properties
  imports Notification_Hub "HOL-Library.Multiset"
begin

text \<open>
  Correctness of the notification hub: each lent client goes back once and at most one is held, the
  hub listens exactly while \<^verbatim>\<open>LISTEN\<close> is in effect, the pause before a new connect stays in its bounds, and a
  hub with subscribers always has a loop.
\<close>

section \<open>The invariant\<close>







definition closing_ok :: "nat list \<Rightarrow> nat list \<Rightarrow> bool" where
  "closing_ok waiting done \<longleftrightarrow> set waiting \<subseteq> set done"


lemma closing_ok_simps [simp]: "closing_ok [] done" "closing_ok (i # is) (i # done) = closing_ok is (i # done)"
  by (auto simp: closing_ok_def)


lemma remove_all: "filter (\<lambda>s. fst s \<notin> set is) xs = [] \<longleftrightarrow> fst ` set xs \<subseteq> set is"
  by (auto simp: filter_empty_conv)














lemma same_loop [simp]: "hub_loop (report h) = hub_loop h" "hub_loop (wake_all h) = hub_loop h"
  by (simp_all add: report_def wake_all_def)









section \<open>The property\<close>





section \<open>Pauses and pools\<close>

text \<open>The jitter moves a pause by at most a tenth, and a pause is at least a millisecond.\<close>

lemma jitter_bounds:
  assumes "0 \<le> random" "random < 1" "5 \<le> duration"
  shows "1 \<le> jitter_duration random duration \<and> \<bar>real_of_int (jitter_duration random duration) - duration\<bar> \<le> duration / 10 + 1 / 2"
proof -
  let ?x = "duration * (0.9 + random * 0.2)"
  have lo: "9 / 10 * duration \<le> ?x" using assms by (simp add: algebra_simps)
  have "duration * random \<le> duration" using assms by (simp add: mult_left_le)
  then have hi: "?x \<le> 11 / 10 * duration" by (simp add: algebra_simps)
  have "1 \<le> ?x + 1 / 2" using lo assms(3) by linarith
  then have "1 \<le> \<lfloor>?x + 1 / 2\<rfloor>" by (simp only: one_le_floor)
  moreover from this have jitter: "jitter_duration random duration = \<lfloor>?x + 1 / 2\<rfloor>" by (simp add: jitter_duration_def)
  moreover have "\<bar>real_of_int \<lfloor>?x + 1 / 2\<rfloor> - duration\<bar> \<le> duration / 10 + 1 / 2" using lo hi by linarith
  ultimately show ?thesis by (simp only:)
qed

lemma listening_pool_reserves: "can_reserve_heartbeat_connection p \<Longrightarrow> listening_pool p"
  by (auto simp: can_reserve_heartbeat_connection_def heartbeat_reservation_problem_def listening_pool_def
      MINIMUM_RESERVING_CAPACITY_def split: option.splits if_splits)

end
