(* ===== verification/Worker_Settlement.thy ===== *)
theory Worker_Settlement
  imports Task_Attempt_Safety Database_Errors
begin

text \<open>
  One execution of a claimed task by a worker, \<^verbatim>\<open>executeTaskWithinSpan\<close> of \<^verbatim>\<open>worker.ts\<close> and the methods it
  calls: the handler runs on a \<^verbatim>\<open>TaskAttempt\<close>, and the worker settles the task through its queue.

  Each \<^verbatim>\<open>await\<close> gives the event loop the time to run callbacks of the attempt. The environment says
  which ones, and what the awaited call answers or throws. The answers of the requests can depend on
  how many requests were answered before. A callback of the environment is one that the worker does
  not call itself: heartbeats, timers, answers of the expiration request, the shutdown abort and what
  the handler does through its context.
\<close>

section \<open>Data\<close>

datatype failpoint = After_Claim | Before_Handler | After_Handler | Before_Complete | After_Complete

text \<open>
  What an execution catches or throws. The reason of an abort is thrown by the lease checks, and a
  handler can throw a reason, a crash or an error of its own.
\<close>

datatype execution_error =
    Injected_Crash failpoint
  | Abort_Thrown abort_reason
  | Thrown_Value js_value
  | Completion_Refused
  | Invalid_Retry_Delay
  | Service_Failure string

text \<open>The delay of a retry: \<^verbatim>\<open>undefined\<close>, a safe integer, or another number.\<close>

datatype retry_delay = Delay_Undefined | Delay_Ms int | Delay_Not_Safe

datatype failure_answer = Failure_Verdict failure_state | Failure_Cancel_Requested | Failure_Stale

datatype release_answer = Release_Verdict release_status | Release_Cancel_Requested | Release_Stale

text \<open>A request of the worker that settles the task, with its answer or what it threw.\<close>

datatype settlement =
    Completed_With "(execution_error, bool) result"
  | Failed_With retry_delay "(execution_error, failure_answer) result"
  | Released_With "(execution_error, release_answer) result"
  | Acknowledged_With "(execution_error, bool) result"

type_synonym 'a awaited = "attempt_event list \<times> (execution_error, 'a) result"

record worker_env =
  error_heap :: js_heap
  shutdown_aborted :: bool
  handler_registered :: bool
  failpoint_hit :: "failpoint \<Rightarrow> bool awaited"
  lease_checked_at :: real
  handler_call :: "unit awaited"
  settlement_checked_at :: real
  preparation :: "unit awaited"
  fast_task :: bool
  slots_available :: bool
  completion_sent_at :: real
  completion_answer :: "(bool \<times> claimed_task list) awaited"
  failure_answer_at :: "nat \<Rightarrow> failure_answer awaited"
  release_answer_at :: "nat \<Rightarrow> release_answer awaited"
  acknowledge_answer_at :: "nat \<Rightarrow> bool awaited"
  expiration_wait_at :: "nat \<Rightarrow> real \<times> attempt_event list"
  reconcile_at :: "nat \<Rightarrow> reconcile_env"
  retry_delay_answer :: "(execution_error, retry_delay) result"

text \<open>
  The state of an execution: the attempt, the answers to its requests in their order, the outcome of
  the span, whether the worker lists the attempt as active, and what a fused completion did: the tasks
  it claimed with the time its request left, the slots it reserved and how it gave them back.
\<close>

record execution =
  own_attempt :: attempt
  answers :: "settlement list"
  span_outcome_set :: "string option"
  active :: bool
  fused_claims :: "(claimed_task \<times> real) list"
  reservations :: nat
  reservations_settled :: "claimed_task list option list"

type_synonym 'a execution_action = "(execution, execution_error, 'a) action"

definition MAX_RETRY_DELAY_MS :: int where
  "MAX_RETRY_DELAY_MS = 2147483647"

section \<open>Waiting\<close>

fun callback_of_environment :: "attempt_event \<Rightarrow> bool" where
  "callback_of_environment (Heartbeat _ _ _) = True"
| "callback_of_environment (Expiration_Timer _) = True"
| "callback_of_environment (Lease_Watchdog _) = True"
| "callback_of_environment (Expire_Answer _ _) = True"
| "callback_of_environment (Expiration_Sleep _) = True"
| "callback_of_environment (Require_Lease _) = True"
| "callback_of_environment Abort_For_Shutdown = True"
| "callback_of_environment (Suspend _) = True"
| "callback_of_environment Suspend_For_Scheduled_Wait = True"
| "callback_of_environment _ = False"

abbreviation callbacks :: "attempt_event list \<Rightarrow> attempt_event list" where
  "callbacks \<equiv> filter callback_of_environment"

definition on_attempt :: "(attempt \<Rightarrow> attempt) \<Rightarrow> unit execution_action" where
  "on_attempt f = act_update (\<lambda>x. x\<lparr>own_attempt := f (own_attempt x)\<rparr>)"

definition await :: "'a awaited \<Rightarrow> 'a execution_action" where
  "await a = act_then (on_attempt (attempt_run (callbacks (fst a)))) (act_result (snd a))"

text \<open>A request of the worker: wait for its answer and keep it.\<close>

definition request :: "((execution_error, 'a) result \<Rightarrow> settlement) \<Rightarrow> 'a awaited \<Rightarrow> 'a execution_action" where
  "request entry a =
     act_then (on_attempt (attempt_run (callbacks (fst a))))
       (act_then (act_update (\<lambda>x. x\<lparr>answers := answers x @ [entry (snd a)]\<rparr>)) (act_result (snd a)))"

definition answered :: "(nat \<Rightarrow> 'b) \<Rightarrow> execution \<Rightarrow> 'b" where
  "answered f x = f (length (answers x))"

definition set_span :: "string \<Rightarrow> unit execution_action" where
  "set_span out = act_update (\<lambda>x. x\<lparr>span_outcome_set := Some out\<rparr>)"

definition lease_check :: "(attempt \<Rightarrow> (abort_reason, unit) result \<times> attempt) \<Rightarrow> unit execution_action" where
  "lease_check f =
     act_read (\<lambda>x. act_then (on_attempt (snd \<circ> f)) (act_result (map_sum Abort_Thrown id (fst (f (own_attempt x))))))"

definition inject :: "worker_env \<Rightarrow> failpoint \<Rightarrow> unit execution_action" where
  "inject env point =
     act_bind (await (failpoint_hit env point))
       (\<lambda>should_crash. if should_crash then act_throw (Injected_Crash point) else act_return ())"

section \<open>The requests of the attempt\<close>

definition acknowledge_request :: "worker_env \<Rightarrow> bool execution_action" where
  "acknowledge_request env =
     act_read (\<lambda>x. request Acknowledged_With (answered (acknowledge_answer_at env) x))"

definition acknowledge :: "worker_env \<Rightarrow> bool execution_action" where
  "acknowledge env =
     act_bind (acknowledge_request env)
       (\<lambda>took. act_then (on_attempt (snd \<circ> acknowledge_cancellation took)) (act_return took))"

definition acknowledge_requested :: "worker_env \<Rightarrow> bool execution_action" where
  "acknowledge_requested env =
     act_then (on_attempt acknowledge_requested_begin)
       (act_bind (acknowledge_request env)
         (\<lambda>took. act_then (on_attempt (snd \<circ> acknowledge_requested_end took)) (act_return took)))"

fun span_text :: "span_outcome \<Rightarrow> string" where
  "span_text Span_Canceled = ''canceled''"
| "span_text Span_Deadline_Exceeded = ''deadline_exceeded''"
| "span_text Span_Timeout_Exceeded = ''timeout_exceeded''"
| "span_text Span_Stale = ''stale''"

definition reconcile_env_of :: "worker_env \<Rightarrow> execution \<Rightarrow> reconcile_env" where
  "reconcile_env_of env x =
     (let r = answered (reconcile_at env) x in
      r\<lparr>first_wait := callbacks (first_wait r), own_wait := callbacks (own_wait r),
        second_wait := callbacks (second_wait r), ack_wait := callbacks (ack_wait r)\<rparr>)"

text \<open>The reconciliation acknowledges a cancellation itself when the expiry says that one is requested.\<close>

definition reconcile :: "worker_env \<Rightarrow> span_outcome execution_action" where
  "reconcile env x =
     (let r = reconcile_env_of env x;
          asked = fst (reconcile_status r (own_attempt x)) = Inr Expire_Cancel_Requested;
          (verdict, s) = reconcile_stale r (own_attempt x)
      in (map_sum Service_Failure id verdict,
          x\<lparr>own_attempt := s,
            answers := answers x @ (if asked then [Acknowledged_With (map_sum Service_Failure id (ack_answer r))] else [])\<rparr>))"

section \<open>Releases\<close>

fun release_text :: "release_answer \<Rightarrow> string" where
  "release_text (Release_Verdict Release_Released) = ''released''"
| "release_text (Release_Verdict Release_Deadline_Exceeded) = ''deadline_exceeded''"
| "release_text (Release_Verdict Release_Timeout_Exceeded) = ''timeout_exceeded''"
| "release_text (Release_Verdict Release_Not_Due) = ''not_due''"
| "release_text Release_Cancel_Requested = ''cancel_requested''"
| "release_text Release_Stale = ''stale''"

text \<open>The two answers that a failure and a release treat alike.\<close>

definition settle_cancel_requested :: "worker_env \<Rightarrow> unit execution_action" where
  "settle_cancel_requested env =
     act_bind (acknowledge_requested env)
       (\<lambda>took. if took then act_return () else set_span ''stale'')"

definition settle_stale :: "worker_env \<Rightarrow> unit execution_action" where
  "settle_stale env = act_bind (reconcile env) (\<lambda>out. set_span (span_text out))"

definition settle_release :: "worker_env \<Rightarrow> release_answer \<Rightarrow> unit execution_action" where
  "settle_release env released =
     act_then (set_span (release_text released))
       (case released of
          Release_Cancel_Requested \<Rightarrow> settle_cancel_requested env
        | Release_Stale \<Rightarrow> settle_stale env
        | Release_Verdict st \<Rightarrow> on_attempt (record_release st))"

definition release_owned_task :: "worker_env \<Rightarrow> unit execution_action" where
  "release_owned_task env =
     act_bind (act_read (\<lambda>x. request Released_With (answered (release_answer_at env) x))) (settle_release env)"

text \<open>A release after the shutdown abort only logs its failure.\<close>

definition release_after_shutdown :: "worker_env \<Rightarrow> unit execution_action" where
  "release_after_shutdown env = act_catch (release_owned_task env) (\<lambda>_. act_return ())"

section \<open>Failures\<close>

fun failure_text :: "failure_answer \<Rightarrow> string" where
  "failure_text (Failure_Verdict Failure_Ready) = ''ready''"
| "failure_text (Failure_Verdict Failure_Scheduled) = ''scheduled''"
| "failure_text (Failure_Verdict Failure_Failed) = ''failed''"
| "failure_text (Failure_Verdict Failure_Deadline_Exceeded) = ''deadline_exceeded''"
| "failure_text (Failure_Verdict Failure_Timeout_Exceeded) = ''timeout_exceeded''"
| "failure_text Failure_Cancel_Requested = ''cancel_requested''"
| "failure_text Failure_Stale = ''stale''"

fun terminal_conflict :: "js_heap \<Rightarrow> execution_error \<Rightarrow> bool" where
  "terminal_conflict heap (Thrown_Value v) = (durable_replay_conflict heap v \<noteq> None)"
| "terminal_conflict heap _ = False"

fun valid_retry_delay :: "retry_delay \<Rightarrow> bool" where
  "valid_retry_delay Delay_Undefined = True"
| "valid_retry_delay (Delay_Ms ms) = (0 \<le> ms \<and> ms \<le> MAX_RETRY_DELAY_MS)"
| "valid_retry_delay Delay_Not_Safe = False"

definition failure_delay :: "worker_env \<Rightarrow> execution_error \<Rightarrow> (execution_error, retry_delay) result" where
  "failure_delay env error =
     (if terminal_conflict (error_heap env) error then Inr (Delay_Ms (-1))
      else bind_result (retry_delay_answer env)
             (\<lambda>delay. bind_result (guard_that (valid_retry_delay delay) Invalid_Retry_Delay) (\<lambda>_. Inr delay)))"

definition settle_failed :: "worker_env \<Rightarrow> failure_answer \<Rightarrow> unit execution_action" where
  "settle_failed env failed =
     act_then (set_span (failure_text failed))
       (case failed of
          Failure_Cancel_Requested \<Rightarrow> settle_cancel_requested env
        | Failure_Stale \<Rightarrow> settle_stale env
        | Failure_Verdict st \<Rightarrow> on_attempt (record_failure st))"

definition report_failure :: "worker_env \<Rightarrow> execution_error \<Rightarrow> unit execution_action" where
  "report_failure env error =
     act_bind (act_result (failure_delay env error))
       (\<lambda>delay. act_bind (act_read (\<lambda>x. request (Failed_With delay) (answered (failure_answer_at env) x)))
          (settle_failed env))"

fun cancellation_error :: "execution_error \<Rightarrow> bool" where
  "cancellation_error (Abort_Thrown (CancellationRequestedError _)) = True"
| "cancellation_error _ = False"

text \<open>The cancellation that the handler threw itself, the shutdown, and the failure of the task.\<close>

definition record_cancellation :: "unit execution_action" where
  "record_cancellation =
     act_then (on_attempt (record_execution Exec_Canceled \<circ> submitted Cancelled)) (set_span ''canceled'')"

definition release_or_fail :: "worker_env \<Rightarrow> execution_error \<Rightarrow> unit execution_action" where
  "release_or_fail env error =
     act_read (\<lambda>x. if stopped_for_shutdown (own_attempt x) then release_after_shutdown env
                    else report_failure env error)"

definition settle_error :: "worker_env \<Rightarrow> execution_error \<Rightarrow> unit execution_action" where
  "settle_error env error =
     act_bind (if cancellation_error error then acknowledge env else act_return False)
       (\<lambda>took. if took then record_cancellation else release_or_fail env error)"

definition abort_for_cancellation :: "attempt \<Rightarrow> bool" where
  "abort_for_cancellation s \<longleftrightarrow> (\<exists>t. signal_reason s = Some (CancellationRequestedError t))"

definition abort_for_expiry :: "attempt \<Rightarrow> bool" where
  "abort_for_expiry s \<longleftrightarrow>
     (\<exists>t. signal_reason s = Some (DeadlineExceededError t)) \<or>
     (\<exists>t n. signal_reason s = Some (ExecutionTimeoutError t n))"

definition settle_lost_lease :: "unit execution_action" where
  "settle_lost_lease =
     act_then (on_attempt (record_execution Exec_Lease_Lost)) (set_span ''stale'')"

definition settle_cancelled :: "worker_env \<Rightarrow> unit execution_action" where
  "settle_cancelled env = act_bind (acknowledge env) (\<lambda>_. set_span ''canceled'')"

text \<open>Whether the expiration request settled the attempt.\<close>

definition record_expiry :: "execution_outcome \<Rightarrow> string \<Rightarrow> unit execution_action" where
  "record_expiry ex out = act_then (on_attempt (record_execution ex)) (set_span out)"

definition settle_expired_as :: "worker_env \<Rightarrow> attempt_outcome option \<Rightarrow> bool execution_action" where
  "settle_expired_as env out =
     (if out = Some Cancelled then act_then (settle_cancelled env) (act_return True)
      else if out = Some Lease_Expired then act_then settle_lost_lease (act_return True)
      else if out = Some Attempt_Timeout
      then act_then (record_expiry Exec_Timeout ''timeout_exceeded'') (act_return True)
      else if out = Some Deadline_Exceeded
      then act_then (record_expiry Exec_Deadline_Exceeded ''deadline_exceeded'') (act_return True)
      else act_return False)"

definition await_expiration :: "worker_env \<Rightarrow> unit execution_action" where
  "await_expiration env =
     act_read (\<lambda>x. let (now, es) = answered (expiration_wait_at env) x in
                    on_attempt (settle_expiration now (callbacks es)))"

definition settle_expired :: "worker_env \<Rightarrow> bool execution_action" where
  "settle_expired env =
     act_then (await_expiration env) (act_read (\<lambda>x. settle_expired_as env (accepted (own_attempt x))))"

definition expiry_may_settle :: "attempt \<Rightarrow> bool" where
  "expiry_may_settle s \<longleftrightarrow>
     accepted s = Some Deadline_Exceeded \<or> accepted s = Some Attempt_Timeout \<or> abort_for_expiry s \<or>
     expiration_requested s"

definition settle_suspended :: "unit execution_action" where
  "settle_suspended = act_then (set_span ''suspended'') (on_attempt (record_execution Exec_Suspended))"

fun is_crash :: "execution_error \<Rightarrow> bool" where
  "is_crash (Injected_Crash _) = True"
| "is_crash _ = False"

definition settle_failure :: "worker_env \<Rightarrow> execution_error \<Rightarrow> unit execution_action" where
  "settle_failure env error =
     act_read (\<lambda>x. let s = own_attempt x in
       if is_suspended s then settle_suspended
       else if is_crash error then act_throw error
       else if accepted s = Some Lease_Expired then settle_lost_lease
       else if accepted s = Some Cancelled \<or> abort_for_cancellation s
       then act_then (on_attempt (submitted Cancelled)) (settle_cancelled env)
       else act_bind (if expiry_may_settle s then settle_expired env else act_return False)
              (\<lambda>settled. if settled then act_return () else settle_error env error))"

section \<open>Completions\<close>

definition completion_request :: "worker_env \<Rightarrow> (bool \<times> claimed_task list) execution_action" where
  "completion_request env = request (\<lambda>r. Completed_With (map_sum id fst r)) (completion_answer env)"

definition take_claims :: "worker_env \<Rightarrow> claimed_task list \<Rightarrow> execution \<Rightarrow> execution" where
  "take_claims env tasks x =
     x\<lparr>fused_claims := fused_claims x @ map (\<lambda>t. (t, completion_sent_at env)) tasks\<rparr>"

definition settle_reservation :: "worker_env \<Rightarrow> claimed_task list option \<Rightarrow> execution \<Rightarrow> execution" where
  "settle_reservation env tasks x =
     (if slots_available env then x\<lparr>reservations_settled := reservations_settled x @ [tasks]\<rparr> else x)"

definition reserve_slots :: "worker_env \<Rightarrow> execution \<Rightarrow> execution" where
  "reserve_slots env x = (if slots_available env then x\<lparr>reservations := reservations x + 1\<rparr> else x)"

text \<open>The fused completion: the \<^verbatim>\<open>finally\<close> block gives the reserved slots back in every case.\<close>

definition write_fused :: "worker_env \<Rightarrow> bool execution_action" where
  "write_fused env =
     act_catch
       (act_bind (completion_request env)
         (\<lambda>answer.
            act_then (act_update (take_claims env (snd answer)))
              (act_then (act_update (settle_reservation env (Some (snd answer)))) (act_return (fst answer)))))
       (\<lambda>error. act_then (act_update (settle_reservation env None)) (act_throw error))"

definition write_completion :: "worker_env \<Rightarrow> bool execution_action" where
  "write_completion env =
     (if \<not> fast_task env then act_bind (completion_request env) (\<lambda>answer. act_return (fst answer))
      else act_then (act_update (reserve_slots env)) (write_fused env))"

definition record_completion :: "worker_env \<Rightarrow> unit execution_action" where
  "record_completion env =
     act_read (\<lambda>x.
       act_then (on_attempt (submitted Completed))
         (if \<not> fst (submit Completed (own_attempt x)) then act_return ()
          else act_then (set_span ''succeeded'')
                 (act_then (on_attempt (record_execution Exec_Succeeded)) (inject env After_Complete))))"

definition after_completion :: "worker_env \<Rightarrow> bool \<Rightarrow> unit execution_action" where
  "after_completion env took =
     (if \<not> took
      then act_bind (acknowledge env)
             (\<lambda>acknowledged. if acknowledged then record_cancellation else settle_failure env Completion_Refused)
      else record_completion env)"

text \<open>After the shutdown abort the completion goes alone, and a failure of it is only logged.\<close>

definition complete_alone :: "worker_env \<Rightarrow> bool option execution_action" where
  "complete_alone env =
     act_catch (act_bind (completion_request env) (\<lambda>answer. act_return (Some (fst answer))))
       (\<lambda>_. act_return None)"

definition complete_task :: "worker_env \<Rightarrow> unit execution_action" where
  "complete_task env =
     act_read (\<lambda>x.
       if stopped_for_shutdown (own_attempt x)
       then act_bind (complete_alone env)
              (\<lambda>answer. case answer of None \<Rightarrow> act_return () | Some took \<Rightarrow> after_completion env took)
       else act_bind (write_completion env) (after_completion env))"

section \<open>The execution\<close>

text \<open>The handler and what follows it up to the completion; true when the completion is to be written.\<close>

definition after_handler :: "worker_env \<Rightarrow> bool execution_action" where
  "after_handler env =
     act_read (\<lambda>x. let s = own_attempt x in
       if is_suspended s then act_then settle_suspended (act_return False)
       else if accepted s = Some Cancelled then act_then (settle_cancelled env) (act_return False)
       else if accepted s = Some Lease_Expired then act_then settle_lost_lease (act_return False)
       else act_then (lease_check (require_settlement_lease (settlement_checked_at env)))
              (act_then (inject env Before_Complete)
                (act_then (await (preparation env)) (act_return True))))"

definition run_handler :: "worker_env \<Rightarrow> bool execution_action" where
  "run_handler env =
     act_then (inject env After_Claim)
       (if \<not> handler_registered env then act_then (release_owned_task env) (act_return False)
        else act_then (inject env Before_Handler)
               (act_then (lease_check (require_lease (lease_checked_at env)))
                 (act_then (await (handler_call env))
                   (act_then (inject env After_Handler) (after_handler env)))))"

definition leave :: "execution \<Rightarrow> execution" where
  "leave x = x\<lparr>own_attempt := stop (own_attempt x), active := False\<rparr>"

definition execute_task :: "worker_env \<Rightarrow> unit execution_action" where
  "execute_task env =
     act_finally
       (act_bind (act_catch (run_handler env) (\<lambda>error. act_then (settle_failure env error) (act_return False)))
         (\<lambda>write. if write then complete_task env else act_return ()))
       leave"

definition start_execution :: "worker_env \<Rightarrow> claimed_task \<Rightarrow> real \<Rightarrow> real \<Rightarrow> real \<Rightarrow> execution" where
  "start_execution env task lease claim_sent now =
     \<lparr>own_attempt = (let s = new_attempt task lease claim_sent now in
                     if shutdown_aborted env then abort_for_shutdown s else s),
      answers = [], span_outcome_set = None, active = True, fused_claims = [], reservations = 0,
      reservations_settled = []\<rparr>"

definition execution_result ::
  "worker_env \<Rightarrow> claimed_task \<Rightarrow> real \<Rightarrow> real \<Rightarrow> real \<Rightarrow> (execution_error, unit) result \<times> execution" where
  "execution_result env task lease claim_sent now = execute_task env (start_execution env task lease claim_sent now)"

end
