(* ===== verification/Worker_Settlement_Properties.thy ===== *)
theory Worker_Settlement_Properties
  imports Worker_Settlement
begin

text \<open>
  What an execution guarantees, whatever the environment answers and throws: nothing is sent for the
  task once PostgreSQL settled it, the counted outcome is one that PostgreSQL answered, and every path
  leaves the attempt stopped and the reserved slots given back.
\<close>

section \<open>What PostgreSQL settled\<close>

text \<open>An answer after which the task is no longer this worker's: the transition was made.\<close>

fun settles :: "settlement \<Rightarrow> bool" where
  "settles (Completed_With r) = (r = Inr True)"
| "settles (Failed_With d r) = (\<exists>st. r = Inr (Failure_Verdict st))"
| "settles (Released_With r) = (\<exists>st. r = Inr (Release_Verdict st))"
| "settles (Acknowledged_With r) = (r = Inr True)"

definition none_settles :: "settlement list \<Rightarrow> bool" where
  "none_settles as = list_all (\<lambda>a. \<not> settles a) as"

definition last_may_settle :: "settlement list \<Rightarrow> bool" where
  "last_may_settle as = none_settles (butlast as)"

lemma none_settles_last: "none_settles as \<Longrightarrow> last_may_settle as"
  by (auto simp: none_settles_def last_may_settle_def list_all_iff dest: in_set_butlastD)

lemma settles_append [simp]:
  "none_settles (as @ [a]) = (none_settles as \<and> \<not> settles a)"
  "last_may_settle (as @ [a]) = none_settles as"
  by (simp_all add: none_settles_def last_may_settle_def)

text \<open>The answer that an outcome of the activation rests on.\<close>

fun evidence :: "execution_outcome \<Rightarrow> settlement \<Rightarrow> bool" where
  "evidence Exec_Succeeded a = (a = Completed_With (Inr True))"
| "evidence Exec_Canceled a = (a = Acknowledged_With (Inr True))"
| "evidence Exec_Released a = (a = Released_With (Inr (Release_Verdict Release_Released)))"
| "evidence Exec_Retry a =
     (\<exists>d. a = Failed_With d (Inr (Failure_Verdict Failure_Ready)) \<or>
          a = Failed_With d (Inr (Failure_Verdict Failure_Scheduled)))"
| "evidence Exec_Failed a = (\<exists>d. a = Failed_With d (Inr (Failure_Verdict Failure_Failed)))"
| "evidence _ a = True"

definition rests_on_answer :: "execution_outcome \<Rightarrow> bool" where
  "rests_on_answer out \<longleftrightarrow>
     out \<in> {Exec_Succeeded, Exec_Canceled, Exec_Released, Exec_Retry, Exec_Failed}"

definition truthful :: "attempt \<Rightarrow> settlement list \<Rightarrow> bool" where
  "truthful s as \<longleftrightarrow>
     (rests_on_answer (activation_outcome s) \<longrightarrow> list_ex (evidence (activation_outcome s)) as) \<and>
     (activation_outcome s = Exec_Suspended \<longrightarrow> is_suspended s)"

section \<open>Callbacks of the environment count nothing\<close>

lemma activation_react [simp]: "activation_outcome (react now res r s) = activation_outcome s"
  by (induction now res r s rule: react.induct)
    (auto simp: attempt_defs Let_def split: attempt_splits)

lemma activation_fold_react [simp]: "activation_outcome (fold (react now res) rs s) = activation_outcome s"
  by (rule fold_field_eq) simp

lemma activation_settle_promise [simp]: "activation_outcome (settle_promise now res rs s) = activation_outcome s"
  by (auto simp: settle_promise_def attempt_defs split: attempt_splits)

lemma activation_attach [simp]: "activation_outcome (attach now r s) = activation_outcome s"
  by (auto simp: attach_def split: attempt_splits)

lemma activation_sleep_ends [simp]: "activation_outcome (expiration_sleep_ends now s) = activation_outcome s"
  by (auto simp: expiration_sleep_ends_def split: attempt_splits)

lemma activation_callback:
  "callback_of_environment e \<Longrightarrow> activation_outcome (attempt_step e s) = activation_outcome s"
  by (cases e)
    (auto simp: attempt_defs Let_def refresh_ownership_def expiration_timer_fires_def
      expire_on_confirmation_def lease_watchdog_fires_def expire_answer_def
      expiration_sleep_timer_def submit_def split: attempt_splits)

lemma activation_callbacks [simp]:
  "activation_outcome (attempt_run (callbacks es) s) = activation_outcome s"
  by (rule fold_field_eq) (simp add: activation_callback)

lemma suspended_step: "is_suspended s \<Longrightarrow> is_suspended (attempt_step e s)"
  by (auto simp: is_suspended_def accepted_step)

lemma suspended_run: "is_suspended s \<Longrightarrow> is_suspended (attempt_run es s)"
  by (rule fold_invariant_list) (simp_all add: suspended_step)

section \<open>The counted outcome stays truthful\<close>

named_theorems stays_truthful

lemma truthful_more [stays_truthful]: "truthful s as \<Longrightarrow> truthful s (as @ bs)"
  by (auto simp: truthful_def list_ex_iff)

lemma truthful_callbacks [stays_truthful]: "truthful s as \<Longrightarrow> truthful (attempt_run (callbacks es) s) as"
  by (auto simp: truthful_def suspended_run)

lemma truthful_record:
  "truthful s as \<Longrightarrow> (rests_on_answer out \<Longrightarrow> list_ex (evidence out) as) \<Longrightarrow>
     (out = Exec_Suspended \<Longrightarrow> is_suspended s) \<Longrightarrow> truthful (record_execution out s) as"
  by (auto simp: truthful_def record_execution_def is_suspended_def)

lemma truthful_same:
  "truthful s as \<Longrightarrow> activation_outcome s' = activation_outcome s \<Longrightarrow>
     (is_suspended s \<Longrightarrow> is_suspended s') \<Longrightarrow> truthful s' as"
  by (auto simp: truthful_def)

lemma truthful_submitted [stays_truthful]: "truthful s as \<Longrightarrow> truthful (submitted out s) as"
  by (erule truthful_same) (auto simp: is_suspended_def)

lemma truthful_stop [stays_truthful]: "truthful s as \<Longrightarrow> truthful (stop s) as"
  by (erule truthful_same) (auto simp: is_suspended_def)

lemma truthful_abort [stays_truthful]: "truthful s as \<Longrightarrow> truthful (abort r s) as"
  by (erule truthful_same) (auto simp: is_suspended_def)

lemma rests_simps [simp]:
  "\<not> rests_on_answer Exec_Lease_Lost" "\<not> rests_on_answer Exec_Timeout"
  "\<not> rests_on_answer Exec_Deadline_Exceeded" "\<not> rests_on_answer Exec_Suspended"
  by (simp_all add: rests_on_answer_def)

lemma truthful_submit_and_record:
  "truthful s as \<Longrightarrow> (rests_on_answer ex \<Longrightarrow> list_ex (evidence ex) as) \<Longrightarrow> ex \<noteq> Exec_Suspended \<Longrightarrow>
     truthful (submit_and_record out ex s) as"
  using truthful_submitted [of s as out]
  by (auto simp: submit_and_record_def intro!: truthful_record split: prod.split)

lemma truthful_settled:
  "truthful s as \<Longrightarrow> (out = Settled_Cancelled \<Longrightarrow> Acknowledged_With (Inr True) \<in> set as) \<Longrightarrow>
     truthful (snd (record_settled out s)) as"
  by (cases out) (auto simp: record_settled_def list_ex_iff intro!: truthful_record truthful_submitted)

lemma truthful_record_release:
  "truthful s as \<Longrightarrow> Released_With (Inr (Release_Verdict st)) \<in> set as \<Longrightarrow> truthful (record_release st s) as"
  by (cases st) (auto simp: record_release_def list_ex_iff intro!: truthful_submit_and_record)

lemma truthful_record_failure:
  "truthful s as \<Longrightarrow> Failed_With d (Inr (Failure_Verdict st)) \<in> set as \<Longrightarrow> truthful (record_failure st s) as"
  by (cases st) (simp add: record_failure_def list_ex_iff, rule truthful_submit_and_record, auto simp: list_ex_iff)+

lemma truthful_acknowledge:
  "truthful s as \<Longrightarrow> (took \<Longrightarrow> Acknowledged_With (Inr True) \<in> set as) \<Longrightarrow>
     truthful (snd (acknowledge_cancellation took s)) as"
  by (auto simp: acknowledge_cancellation_def list_ex_iff intro!: truthful_record)

lemma truthful_requested_begin [stays_truthful]:
  "truthful s as \<Longrightarrow> truthful (acknowledge_requested_begin s) as"
  by (simp add: acknowledge_requested_begin_def stays_truthful)

lemma truthful_check [stays_truthful]: "truthful s as \<Longrightarrow> truthful (check_window now s) as"
  by (erule truthful_same) (auto simp: check_window_def end_lease_window_def is_suspended_def)

lemma truthful_require [stays_truthful]:
  "truthful s as \<Longrightarrow> truthful (snd (require_lease now s)) as"
  "truthful s as \<Longrightarrow> truthful (snd (require_settlement_lease now s)) as"
  by (simp_all add: require_lease_def require_settlement_lease_def Let_def truthful_check split: option.split)

lemma truthful_shared [stays_truthful]:
  "truthful s as \<Longrightarrow> truthful (snd (shared_expiration (callbacks es) s)) as"
proof (induction es arbitrary: s)
  case (Cons e es)
  then show ?case
    using truthful_callbacks [of s as "[e]"] by (cases "callback_of_environment e") simp_all
qed simp

lemma truthful_settle_expiration [stays_truthful]:
  assumes "truthful s as" shows "truthful (settle_expiration now (callbacks es) s) as"
proof -
  have "truthful (settle_expiration_begin now s) as"
    using accepted_sleep_ends [of "s\<lparr>settling := True\<rparr>"]
    by (intro truthful_same [OF assms]) (auto simp: settle_expiration_begin_def is_suspended_def)
  then show ?thesis by (simp add: settle_expiration_def truthful_shared)
qed

section \<open>The steps of an execution\<close>

text \<open>
  \<open>pending\<close>: the task is not settled. \<open>over\<close>: the last answer may have settled it. A step that sends
  starts pending, a throw leaves it pending, and what it returns says whether it is still pending and
  which answer there is.
\<close>

abbreviation pending :: "execution \<Rightarrow> bool" where
  "pending x \<equiv> none_settles (answers x) \<and> truthful (own_attempt x) (answers x)"

abbreviation over :: "execution \<Rightarrow> bool" where
  "over x \<equiv> last_may_settle (answers x) \<and> truthful (own_attempt x) (answers x)"

definition sends :: "'a execution_action \<Rightarrow> ('a \<Rightarrow> bool) \<Rightarrow> ('a \<Rightarrow> settlement option) \<Rightarrow> bool" where
  "sends m goes_on shows_answer \<longleftrightarrow>
     act_triple pending m
       (\<lambda>a x. over x \<and> (goes_on a \<longrightarrow> pending x) \<and> set_option (shows_answer a) \<subseteq> set (answers x))
       (\<lambda>_. pending)"

abbreviation ends :: "'a execution_action \<Rightarrow> bool" where
  "ends m \<equiv> act_triple pending m (\<lambda>_. over) (\<lambda>_. pending)"

abbreviation passes :: "'a execution_action \<Rightarrow> bool" where
  "passes m \<equiv> act_triple pending m (\<lambda>_. pending) (\<lambda>_. pending)"

lemma pending_over: "pending x \<Longrightarrow> over x"
  by (simp add: none_settles_last)

lemma passes_ends: "passes m \<Longrightarrow> ends m"
  by (erule triple_post) (simp_all add: none_settles_last)

lemma on_attempt_triple [triple]:
  "act_triple (\<lambda>x. Q () (x\<lparr>own_attempt := f (own_attempt x)\<rparr>)) (on_attempt f) Q E"
  unfolding on_attempt_def by (rule triple_update)

lemma set_span_triple [triple]:
  "act_triple (\<lambda>x. Q () (x\<lparr>span_outcome_set := Some out\<rparr>)) (set_span out) Q E"
  unfolding set_span_def by (rule triple_update)

lemma on_attempt_passes:
  "(\<And>s as. truthful s as \<Longrightarrow> truthful (f s) as) \<Longrightarrow> passes (on_attempt f)"
  by (rule triple_pre, rule triple) simp

lemma passes_then: "passes m \<Longrightarrow> passes k \<Longrightarrow> passes (act_then m k)"
  by (rule triple_then)

lemma passes_ends_then: "passes m \<Longrightarrow> ends k \<Longrightarrow> ends (act_then m k)"
  by (rule triple_then)

lemma ends_return: "ends m \<Longrightarrow> ends (act_then m (act_return b))"
  by (rule triple_then [OF triple_return])

lemma await_passes: "passes (await a)"
  unfolding await_def
  by (rule passes_then [OF on_attempt_passes], simp add: stays_truthful, rule triple_pre, rule triple)
    (simp split: sum.split)

lemma inject_passes: "passes (inject env p)"
  unfolding inject_def
  by (rule triple_bind [OF _ await_passes], rule triple_pre, (rule triple)+) simp

lemma set_span_passes: "passes (set_span out)"
  by (rule triple_pre, rule triple) simp

lemma lease_check_passes:
  "(\<And>s as. truthful s as \<Longrightarrow> truthful (snd (f s)) as) \<Longrightarrow> passes (lease_check f)"
  unfolding lease_check_def
  by (rule triple_pre, (rule triple)+) (simp split: sum.split)

lemma request_sends:
  assumes "\<And>e. \<not> settles (entry (Inl e))"
  shows "sends (act_read (\<lambda>x. request entry (answered f x))) (\<lambda>a. \<not> settles (entry (Inr a)))
           (\<lambda>a. Some (entry (Inr a)))"
  unfolding sends_def request_def
  by (rule triple_pre, (rule triple)+) (auto simp: assms stays_truthful split: sum.split)

lemmas sendsD = sends_def [THEN iffD1]

lemma sends_bind:
  assumes "sends m goes_on ans"
    and "\<And>a. act_triple (\<lambda>x. over x \<and> (goes_on a \<longrightarrow> pending x) \<and> set_option (ans a) \<subseteq> set (answers x)) (f a) Q (\<lambda>_. pending)"
  shows "act_triple pending (act_bind m f) Q (\<lambda>_. pending)"
  by (rule triple_bind [OF assms(2) sendsD [OF assms(1)]])

definition acknowledgement :: "bool \<Rightarrow> settlement option" where
  "acknowledgement took = (if took then Some (Acknowledged_With (Inr True)) else None)"

lemma acknowledge_request_sends: "sends (acknowledge_request env) Not acknowledgement"
  using request_sends [of Acknowledged_With "acknowledge_answer_at env"]
  by (auto simp: acknowledge_request_def sends_def acknowledgement_def elim!: triple_post split: if_splits)

lemma acknowledge_sends: "sends (acknowledge env) Not acknowledgement"
  unfolding acknowledge_def sends_def
  by (rule sends_bind [OF acknowledge_request_sends], rule triple_pre, (rule triple)+)
    (auto simp: acknowledgement_def intro!: truthful_acknowledge)

lemma acknowledge_requested_ends: "ends (acknowledge_requested env)"
  unfolding acknowledge_requested_def
  by (rule passes_ends_then [OF on_attempt_passes], simp add: stays_truthful,
      rule sends_bind [OF acknowledge_request_sends], rule triple_pre, (rule triple)+)
    (auto simp: acknowledgement_def acknowledge_requested_end_def intro!: truthful_settled split: if_splits)

lemma settled_as_result:
  "settled_as out s = (Inr (fst (record_settled out s)), snd (record_settled out s))"
  by (simp add: settled_as_def map_prod_def case_prod_beta)

lemma truthful_reconcile_status:
  assumes "truthful s as"
  shows "truthful (snd (reconcile_status (reconcile_env_of env x) s)) as"
proof -
  let ?r = "answered (reconcile_at env) x"
  have s1: "truthful (snd (shared_expiration (callbacks (first_wait ?r)) s)) as"
    using assms by (rule truthful_shared)
  show ?thesis
    using s1 truthful_shared truthful_callbacks
    by (auto simp: reconcile_status_def reconcile_env_of_def Let_def split: prod.splits option.splits)
      (metis snd_conv)+
qed

lemma reconcile_ends: "ends (reconcile env)"
proof (simp only: act_triple_def, intro allI impI)
  fix x assume x: "pending x"
  obtain r s where status: "reconcile_status (reconcile_env_of env x) (own_attempt x) = (r, s)"
    by fastforce
  then have s: "truthful s (answers x)"
    using x truthful_reconcile_status [of "own_attempt x" "answers x" env x] by simp
  have s': "truthful (attempt_run (ack_wait (reconcile_env_of env x)) s) (answers x @ as)" for as
    using truthful_callbacks [OF s] by (simp add: reconcile_env_of_def Let_def truthful_more)
  show "case reconcile env x of (Inr a, x') \<Rightarrow> over x' | (Inl e, x') \<Rightarrow> pending x'"
    using x s s' none_settles_last
    by (auto simp: reconcile_def reconcile_stale_def status settled_as_result Let_def
        intro!: truthful_settled split: sum.splits expire_owned_status.splits)
qed

lemma settle_cancel_requested_ends: "ends (settle_cancel_requested env)"
  unfolding settle_cancel_requested_def
  by (rule triple_bind [OF _ acknowledge_requested_ends], rule triple_pre, (rule triple)+) simp

lemma settle_stale_ends: "ends (settle_stale env)"
  unfolding settle_stale_def
  by (rule triple_bind [OF _ reconcile_ends], rule triple_pre, (rule triple)+) simp

lemma settle_cancelled_ends: "ends (settle_cancelled env)"
  unfolding settle_cancelled_def
  by (rule sends_bind [OF acknowledge_sends], rule triple_pre, (rule triple)+) simp

lemma release_owned_ends: "ends (release_owned_task env)"
  unfolding release_owned_task_def
proof (rule sends_bind [OF request_sends])
  fix a
  show "act_triple
     (\<lambda>x. over x \<and> (\<not> settles (Released_With (Inr a)) \<longrightarrow> pending x) \<and>
          set_option (Some (Released_With (Inr a))) \<subseteq> set (answers x))
     (settle_release env a) (\<lambda>_. over) (\<lambda>_. pending)"
    unfolding settle_release_def
    by (cases a; simp; rule triple_then;
        (rule settle_cancel_requested_ends settle_stale_ends on_attempt_triple)?;
        (rule triple_pre, rule triple, simp add: truthful_record_release))
qed simp

lemma report_failure_ends: "ends (report_failure env error)"
  unfolding report_failure_def
proof (rule triple_bind)
  fix d
  show "ends (act_bind (act_read (\<lambda>x. request (Failed_With d) (answered (failure_answer_at env) x))) (settle_failed env))"
  proof (rule sends_bind [OF request_sends])
    fix a
    show "act_triple
       (\<lambda>x. over x \<and> (\<not> settles (Failed_With d (Inr a)) \<longrightarrow> pending x) \<and>
            set_option (Some (Failed_With d (Inr a))) \<subseteq> set (answers x))
       (settle_failed env a) (\<lambda>_. over) (\<lambda>_. pending)"
      unfolding settle_failed_def
      by (cases a; simp; rule triple_then;
          (rule settle_cancel_requested_ends settle_stale_ends on_attempt_triple)?;
          (rule triple_pre, rule triple, auto intro: truthful_record_failure))
  qed simp
next
  show "passes (act_result (failure_delay env error))"
    by (rule triple_pre, rule triple) (simp split: sum.split)
qed

lemma release_after_shutdown_ends: "ends (release_after_shutdown env)"
  unfolding release_after_shutdown_def
  by (rule triple_catch [OF _ release_owned_ends], rule triple_pre, rule triple) (rule pending_over)

lemma record_cancellation_over:
  "act_triple (\<lambda>x. over x \<and> Acknowledged_With (Inr True) \<in> set (answers x)) record_cancellation (\<lambda>_. over) E"
  unfolding record_cancellation_def
  by (rule triple_pre, (rule triple)+) (auto simp: list_ex_iff intro!: truthful_record truthful_submitted)

lemma release_or_fail_ends: "ends (release_or_fail env error)"
  unfolding release_or_fail_def
  by (rule triple_pre, rule triple_read, rule triple_if, rule release_after_shutdown_ends,
      rule report_failure_ends) simp

text \<open>A step that acknowledges, records the cancellation when it was accepted and goes on when not.\<close>

lemma acknowledge_or_ends:
  assumes "sends m Not acknowledgement" and "ends k"
  shows "ends (act_bind m (\<lambda>took. if took then record_cancellation else k))"
proof (rule sends_bind [OF assms(1)])
  show "act_triple
     (\<lambda>x. over x \<and> (\<not> took \<longrightarrow> pending x) \<and> set_option (acknowledgement took) \<subseteq> set (answers x))
     (if took then record_cancellation else k) (\<lambda>_. over) (\<lambda>_. pending)" for took
    by (cases took) (simp add: acknowledgement_def triple_pre [OF record_cancellation_over],
        simp, rule triple_pre [OF assms(2)], simp)
qed

lemma settle_error_ends: "ends (settle_error env error)"
  unfolding settle_error_def
proof (rule acknowledge_or_ends [OF _ release_or_fail_ends])
  show "sends (if cancellation_error error then acknowledge env else act_return False) Not acknowledgement"
    using acknowledge_sends [of env]
    by (simp add: sends_def act_triple_def acknowledgement_def none_settles_last)
qed

lemma settle_lost_lease_ends: "ends settle_lost_lease"
  unfolding settle_lost_lease_def
  by (rule triple_pre, (rule triple)+) (auto simp: none_settles_last intro!: truthful_record)

lemma record_expiry_ends: "ex \<in> {Exec_Timeout, Exec_Deadline_Exceeded} \<Longrightarrow> ends (record_expiry ex out)"
  unfolding record_expiry_def
  by (rule triple_pre, (rule triple)+) (auto simp: none_settles_last intro!: truthful_record)

lemma settle_suspended_ends:
  "act_triple (\<lambda>x. pending x \<and> is_suspended (own_attempt x)) settle_suspended (\<lambda>_. over) (\<lambda>_. pending)"
  unfolding settle_suspended_def
  by (rule triple_pre, (rule triple)+) (auto simp: none_settles_last intro!: truthful_record)

text \<open>A step that returns whether it ended the execution, or whether the execution goes on.\<close>

lemma ends_True: "ends m \<Longrightarrow> act_triple pending (act_then m (act_return True)) (\<lambda>b x. over x \<and> (\<not> b \<longrightarrow> pending x)) (\<lambda>_. pending)"
  by (rule triple_then [OF triple_return]) simp

lemma ends_False: "ends m \<Longrightarrow> act_triple pending (act_then m (act_return False)) (\<lambda>b x. over x \<and> (b \<longrightarrow> pending x)) (\<lambda>_. pending)"
  by (rule triple_then [OF triple_return]) simp

lemma triple_if_same:
  "act_triple P m Q E \<Longrightarrow> act_triple P k Q E \<Longrightarrow> act_triple P (if b then m else k) Q E"
  by simp

lemma settle_expired_as_sends:
  "act_triple pending (settle_expired_as env out) (\<lambda>b x. over x \<and> (\<not> b \<longrightarrow> pending x)) (\<lambda>_. pending)"
  unfolding settle_expired_as_def
  by (intro triple_if_same ends_True settle_cancelled_ends settle_lost_lease_ends record_expiry_ends)
    (simp_all add: act_triple_def none_settles_last)

lemma settle_expired_sends:
  "act_triple pending (settle_expired env) (\<lambda>b x. over x \<and> (\<not> b \<longrightarrow> pending x)) (\<lambda>_. pending)"
  unfolding settle_expired_def
proof (rule triple_then)
  show "passes (await_expiration env)"
    by (simp add: await_expiration_def act_triple_def on_attempt_def truthful_settle_expiration Let_def split: prod.split)
qed (rule triple_pre, rule triple_read, rule settle_expired_as_sends, simp)

lemma settle_failure_ends: "ends (settle_failure env error)"
proof -
  have expiry: "ends (act_bind (if b then settle_expired env else act_return False)
      (\<lambda>settled. if settled then act_return () else settle_error env error))" for b
  proof (rule triple_bind)
    show "act_triple pending (if b then settle_expired env else act_return False)
        (\<lambda>b x. over x \<and> (\<not> b \<longrightarrow> pending x)) (\<lambda>_. pending)"
      using settle_expired_sends [of env] by (simp add: act_triple_def none_settles_last)
    show "act_triple (\<lambda>x. over x \<and> (\<not> settled \<longrightarrow> pending x))
        (if settled then act_return () else settle_error env error) (\<lambda>_. over) (\<lambda>_. pending)" for settled
      by (cases settled) (simp add: act_triple_def, simp, rule triple_pre [OF settle_error_ends], simp)
  qed
  have cancel: "ends (act_then (on_attempt (submitted Cancelled)) (settle_cancelled env))"
    by (rule passes_ends_then [OF on_attempt_passes settle_cancelled_ends]) (rule truthful_submitted)
  have crash: "ends (act_throw error)" by (rule triple_pre, rule triple) simp
  show ?thesis
    unfolding settle_failure_def Let_def
    by (rule triple_pre, rule triple_read, rule triple_if, rule settle_suspended_ends, rule triple_if, rule crash,
        rule triple_if, rule settle_lost_lease_ends, rule triple_if, rule cancel, rule expiry) simp
qed

lemma act_read_same: "act_read (\<lambda>_. m) = m"
  by (simp add: fun_eq_iff)

lemma completion_request_sends:
  "sends (completion_request env) (\<lambda>a. \<not> fst a) (\<lambda>a. Some (Completed_With (Inr (fst a))))"
  using request_sends [of "\<lambda>r. Completed_With (map_sum id fst r)" "\<lambda>_. completion_answer env"]
  by (simp add: completion_request_def answered_def act_read_same)

lemma reservation_frame [simp]:
  "answers (settle_reservation env ts x) = answers x" "own_attempt (settle_reservation env ts x) = own_attempt x"
  "answers (take_claims env cs x) = answers x" "own_attempt (take_claims env cs x) = own_attempt x"
  "answers (reserve_slots env x) = answers x" "own_attempt (reserve_slots env x) = own_attempt x"
  by (simp_all add: settle_reservation_def take_claims_def reserve_slots_def)

lemma write_fused_sends: "sends (write_fused env) Not (\<lambda>took. Some (Completed_With (Inr took)))"
  unfolding sends_def write_fused_def
  by (rule triple_catch [where R = "\<lambda>_. pending"], rule triple_pre, (rule triple)+, simp,
      rule sends_bind [OF completion_request_sends], rule triple_pre, (rule triple)+) simp

lemma write_completion_sends: "sends (write_completion env) Not (\<lambda>took. Some (Completed_With (Inr took)))"
proof -
  have "sends (act_bind (completion_request env) (\<lambda>answer. act_return (fst answer))) Not
      (\<lambda>took. Some (Completed_With (Inr took)))"
    unfolding sends_def
    by (rule sends_bind [OF completion_request_sends], rule triple_pre, (rule triple)+) simp
  moreover have "sends (act_then (act_update (reserve_slots env)) (write_fused env)) Not
      (\<lambda>took. Some (Completed_With (Inr took)))"
    unfolding sends_def
    by (rule triple_then [OF sendsD [OF write_fused_sends]], rule triple_pre, rule triple) simp
  ultimately show ?thesis by (simp add: write_completion_def)
qed

lemma inject_over: "act_triple over (inject env p) (\<lambda>_. over) (\<lambda>_. over)"
  unfolding inject_def await_def
  by (rule triple_pre, (rule triple)+) (simp add: stays_truthful split: sum.split)

lemma record_completion_over:
  "act_triple (\<lambda>x. over x \<and> Completed_With (Inr True) \<in> set (answers x)) (record_completion env) (\<lambda>_. over) (\<lambda>_. over)"
  unfolding record_completion_def
  by (rule triple_pre, rule triple_read, rule triple_then, rule triple_if, rule triple, rule triple_then,
      rule triple_then, rule inject_over, rule triple, rule triple, rule triple)
    (auto simp: list_ex_iff intro!: truthful_record truthful_submitted)

lemma after_completion_over:
  "act_triple (\<lambda>x. over x \<and> (\<not> took \<longrightarrow> pending x) \<and> Completed_With (Inr took) \<in> set (answers x))
     (after_completion env took) (\<lambda>_. over) (\<lambda>_. over)"
proof (cases took)
  case True
  then show ?thesis
    unfolding after_completion_def by simp (rule triple_pre [OF record_completion_over], simp)
next
  case False
  have "ends (act_bind (acknowledge env)
      (\<lambda>acknowledged. if acknowledged then record_cancellation else settle_failure env Completion_Refused))"
    by (rule acknowledge_or_ends [OF acknowledge_sends settle_failure_ends])
  then have "act_triple pending (act_bind (acknowledge env)
      (\<lambda>acknowledged. if acknowledged then record_cancellation else settle_failure env Completion_Refused))
      (\<lambda>_. over) (\<lambda>_. over)"
    by (rule triple_post) (simp_all add: none_settles_last)
  then show ?thesis
    unfolding after_completion_def using False by simp (erule triple_pre, simp)
qed

lemma complete_alone_over:
  "act_triple pending (complete_alone env)
     (\<lambda>answer x. over x \<and> (\<forall>took. answer = Some took \<longrightarrow> (\<not> took \<longrightarrow> pending x) \<and>
        Completed_With (Inr took) \<in> set (answers x))) E"
  unfolding complete_alone_def
  by (rule triple_catch [where R = "\<lambda>_. pending"], rule triple_pre, rule triple, simp add: none_settles_last,
      rule sends_bind [OF completion_request_sends], rule triple_pre, rule triple) simp

lemma complete_task_over: "act_triple pending (complete_task env) (\<lambda>_. over) (\<lambda>_. over)"
proof -
  have alone: "act_triple pending (act_bind (complete_alone env)
      (\<lambda>answer. case answer of None \<Rightarrow> act_return () | Some took \<Rightarrow> after_completion env took)) (\<lambda>_. over) (\<lambda>_. over)"
  proof (rule triple_bind [OF _ complete_alone_over])
    fix answer
    show "act_triple
       (\<lambda>x. over x \<and> (\<forall>took. answer = Some took \<longrightarrow> (\<not> took \<longrightarrow> pending x) \<and> Completed_With (Inr took) \<in> set (answers x)))
       (case answer of None \<Rightarrow> act_return () | Some took \<Rightarrow> after_completion env took) (\<lambda>_. over) (\<lambda>_. over)"
      by (cases answer) (simp add: act_triple_def, simp, rule triple_pre [OF after_completion_over], simp)
  qed
  have together: "act_triple pending (act_bind (write_completion env) (after_completion env)) (\<lambda>_. over) (\<lambda>_. over)"
    by (rule triple_bind [OF after_completion_over triple_post [OF sendsD [OF write_completion_sends]]])
      (auto simp: none_settles_last)
  show ?thesis
    unfolding complete_task_def
    by (rule triple_pre, rule triple_read, rule triple_if, rule alone, rule together) simp
qed

abbreviation goes_on :: "bool execution_action \<Rightarrow> bool" where
  "goes_on m \<equiv> act_triple pending m (\<lambda>b x. over x \<and> (b \<longrightarrow> pending x)) (\<lambda>_. pending)"

lemma after_handler_goes_on: "goes_on (after_handler env)"
proof -
  have suspend: "act_triple (\<lambda>x. pending x \<and> is_suspended (own_attempt x)) (act_then settle_suspended (act_return False))
      (\<lambda>b x. over x \<and> (b \<longrightarrow> pending x)) (\<lambda>_. pending)"
    by (rule triple_then [OF triple_return], rule triple_post [OF settle_suspended_ends]) simp_all
  have prepare: "goes_on (act_then (lease_check (require_settlement_lease (settlement_checked_at env)))
      (act_then (inject env Before_Complete) (act_then (await (preparation env)) (act_return True))))"
    by (rule triple_then, rule triple_then, rule triple_then, rule triple_pre, rule triple, rule pending_over
        [THEN conjI], assumption, simp, rule await_passes, rule inject_passes, rule lease_check_passes)
      (rule stays_truthful)
  show ?thesis
    unfolding after_handler_def Let_def
    by (rule triple_pre, rule triple_read, rule triple_if, rule suspend, rule triple_if,
        rule ends_False [OF settle_cancelled_ends], rule triple_if, rule ends_False [OF settle_lost_lease_ends],
        rule prepare) simp
qed

lemma run_handler_goes_on: "goes_on (run_handler env)"
  unfolding run_handler_def
  by (intro triple_then [OF triple_if_same inject_passes] ends_False release_owned_ends
      triple_then [OF _ inject_passes] triple_then [OF _ lease_check_passes] triple_then [OF _ await_passes]
      after_handler_goes_on) (rule stays_truthful)

lemma execute_over: "act_triple pending (execute_task env) (\<lambda>_. over) (\<lambda>_. over)"
  unfolding execute_task_def
proof (rule triple_finally, rule triple_post)
  show "act_triple pending
     (act_bind (act_catch (run_handler env) (\<lambda>error. act_then (settle_failure env error) (act_return False)))
       (\<lambda>writes. if writes then complete_task env else act_return ())) (\<lambda>_. over) (\<lambda>_. over)"
  proof (rule triple_bind)
    show "act_triple pending (act_catch (run_handler env) (\<lambda>error. act_then (settle_failure env error) (act_return False)))
        (\<lambda>b x. over x \<and> (b \<longrightarrow> pending x)) (\<lambda>_. over)"
      by (rule triple_catch [OF _ run_handler_goes_on], rule triple_post [OF ends_False [OF settle_failure_ends]])
        (simp_all add: none_settles_last)
    show "act_triple (\<lambda>x. over x \<and> (writes \<longrightarrow> pending x)) (if writes then complete_task env else act_return ())
        (\<lambda>_. over) (\<lambda>_. over)" for writes
      by (cases writes) (simp, rule triple_pre [OF complete_task_over], simp, simp add: act_triple_def)
  qed
qed (simp_all add: leave_def stays_truthful)

section \<open>Reserved slots are given back\<close>

definition balanced :: "execution \<Rightarrow> bool" where
  "balanced x \<longleftrightarrow> length (reservations_settled x) = reservations x"

lemma balanced_frame [simp]:
  "balanced (x\<lparr>own_attempt := s\<rparr>) = balanced x" "balanced (x\<lparr>answers := as\<rparr>) = balanced x"
  "balanced (x\<lparr>span_outcome_set := out\<rparr>) = balanced x" "balanced (x\<lparr>active := b\<rparr>) = balanced x"
  by (simp_all add: balanced_def)

lemma balanced_leaves [keeps]:
  "act_keeps balanced (on_attempt f)" "act_keeps balanced (set_span out)"
  by (simp_all add: act_keeps_def on_attempt_def set_span_def)

lemma balanced_waits [keeps]:
  "act_keeps balanced (await a)" "act_keeps balanced (request entry a')" "act_keeps balanced (lease_check f)"
  by (auto simp: act_keeps_def act_then_def act_bind_def on_attempt_def await_def request_def lease_check_def
      split: sum.split)

lemma balanced_reconcile [keeps]: "act_keeps balanced (reconcile env)"
  by (auto simp: act_keeps_def reconcile_def balanced_def Let_def split: prod.split)

lemma balanced_acknowledge [keeps]:
  "act_keeps balanced (acknowledge env)" "act_keeps balanced (settle_cancel_requested env)"
  "act_keeps balanced (settle_stale env)" "act_keeps balanced (settle_cancelled env)"
  unfolding acknowledge_def acknowledge_request_def settle_cancel_requested_def acknowledge_requested_def
    settle_stale_def settle_cancelled_def
  by (intro keeps keeps_read)+

lemma balanced_answers [keeps]:
  "act_keeps balanced (settle_release env released)" "act_keeps balanced (settle_failed env failed)"
  unfolding settle_release_def settle_failed_def
  by (cases released; cases failed; simp; intro keeps)+

lemma balanced_release [keeps]:
  "act_keeps balanced (release_owned_task env)" "act_keeps balanced (release_or_fail env error)"
  unfolding release_owned_task_def release_or_fail_def release_after_shutdown_def report_failure_def
  by (intro keeps keeps_read)+

lemma balanced_inject [keeps]: "act_keeps balanced (inject env p)"
  unfolding inject_def by (intro keeps)

lemma balanced_settle [keeps]: "act_keeps balanced (settle_failure env error)"
  unfolding settle_failure_def settle_error_def settle_expired_def settle_expired_as_def await_expiration_def
    settle_lost_lease_def settle_suspended_def record_expiry_def record_cancellation_def Let_def case_prod_beta
  by (intro keeps keeps_read)

lemma balanced_run_handler [keeps]: "act_keeps balanced (run_handler env)"
  unfolding run_handler_def after_handler_def settle_lost_lease_def settle_suspended_def Let_def
  by (intro keeps keeps_read)

lemma balanced_write [keeps]: "act_keeps balanced (write_completion env)"
proof (rule act_keepsI)
  fix x assume "balanced x"
  then show "balanced (snd (write_completion env x))"
    by (cases "snd (completion_answer env)")
      (auto simp: write_completion_def write_fused_def completion_request_def request_def on_attempt_def act_then_def
        act_bind_def act_catch_def settle_reservation_def reserve_slots_def take_claims_def balanced_def)
qed

lemma balanced_complete [keeps]: "act_keeps balanced (complete_task env)"
  unfolding complete_task_def after_completion_def record_completion_def record_cancellation_def complete_alone_def
    completion_request_def
  by (intro keeps keeps_read)

lemma balanced_execute: "act_keeps balanced (execute_task env)"
  unfolding execute_task_def by (intro keeps) (simp add: leave_def)

section \<open>Executions\<close>

lemma new_attempt_uncounted: "activation_outcome (new_attempt task lease sent now) = Exec_Unknown"
  by (auto simp: new_attempt_def blank_attempt_def renew_lease_def end_lease_window_def arm_expiration_timer_def
      Let_def split: option.split)

lemma start_pending: "pending (start_execution env task lease sent now)"
  by (simp add: start_execution_def none_settles_def truthful_def new_attempt_uncounted abort_for_shutdown_def
      rests_on_answer_def Let_def)

lemma execution_over: "over (snd (execution_result env task lease sent now))"
  unfolding execution_result_def by (rule act_triple_always [OF execute_over start_pending])


text \<open>
  C10. What the worker counts is what PostgreSQL answered: an execution is counted as succeeded,
  canceled, released, failed or to be retried only if PostgreSQL gave exactly that answer, and as
  suspended only if the attempt is suspended.
\<close>

theorem execution_counted_truthfully:
  "let x = snd (execution_result env task lease sent now); out = activation_outcome (own_attempt x) in
   (out \<in> {Exec_Succeeded, Exec_Canceled, Exec_Released, Exec_Retry, Exec_Failed} \<longrightarrow>
      list_ex (evidence out) (answers x)) \<and>
   (out = Exec_Suspended \<longrightarrow> is_suspended (own_attempt x))"
  using execution_over [of env task lease sent now]
  by (simp add: truthful_def rests_on_answer_def Let_def)

text \<open>A handler that returns, and a completion that PostgreSQL accepts.\<close>

definition sample_claim :: claimed_task where
  "sample_claim = \<lparr>task_id = ''task'', task_attempt = 1, deadline_at = None, attempt_timeout_at = None,
     lease_expires_at = 30000\<rparr>"

definition sample_env :: worker_env where
  "sample_env =
     \<lparr>error_heap = (\<lambda>_. \<lparr>js_class = Plain_Class, js_fields = (\<lambda>_. None)\<rparr>), shutdown_aborted = False,
      handler_registered = True, failpoint_hit = (\<lambda>_. ([], Inr False)), lease_checked_at = 2,
      handler_call = ([Heartbeat 10000 Hb_Accepted 9990], Inr ()), settlement_checked_at = 20000,
      preparation = ([], Inr ()), fast_task = True, slots_available = True, completion_sent_at = 20001,
      completion_answer = ([], Inr (True, [sample_claim])),
      failure_answer_at = (\<lambda>_. ([], Inr Failure_Stale)), release_answer_at = (\<lambda>_. ([], Inr Release_Stale)),
      acknowledge_answer_at = (\<lambda>_. ([], Inr False)), expiration_wait_at = (\<lambda>_. (0, [])),
      reconcile_at = (\<lambda>_. \<lparr>first_wait = [], own_answer = Inr Expire_Stale, own_wait = [], second_wait = [],
        ack_answer = Inr False, ack_wait = []\<rparr>),
      retry_delay_answer = Inr Delay_Undefined\<rparr>"

lemmas execution_eval =
  execution_result_def start_execution_def execute_task_def run_handler_def after_handler_def complete_task_def
  write_completion_def write_fused_def completion_request_def after_completion_def record_completion_def
  inject_def await_def request_def on_attempt_def set_span_def lease_check_def act_then_def act_bind_def
  act_catch_def act_finally_def leave_def take_claims_def settle_reservation_def reserve_slots_def
  new_attempt_def blank_attempt_def expiration_at_def earliest_def renew_lease_def window_over_def
  check_window_def require_lease_def require_settlement_lease_def stopped_for_shutdown_def refresh_ownership_def
  submit_def record_execution_def is_suspended_def stop_def stop_heartbeat_def

theorem execution_counted_truthfully_witness:
  "let x = snd (execution_result sample_env sample_claim 30000 0 1) in
   activation_outcome (own_attempt x) = Exec_Succeeded \<and> list_ex (evidence Exec_Succeeded) (answers x)"
proof -
  have "activation_outcome (own_attempt (snd (execution_result sample_env sample_claim 30000 0 1))) = Exec_Succeeded"
    by (simp add: execution_eval sample_env_def sample_claim_def Let_def)
  then show ?thesis
    using execution_counted_truthfully [of sample_env sample_claim 30000 0 1] by (simp add: Let_def)
qed

text \<open>
  C34. Every execution cleans up, also when it throws: the heartbeat of the attempt and its timers are
  stopped, the attempt is no longer listed as active, and each slot reserved for the tasks of a fused
  completion is given back once.
\<close>

theorem execution_cleans_up:
  "let x = snd (execution_result env task lease sent now) in
         \<not> active x \<and> heartbeat_stopped (own_attempt x) \<and> \<not> heartbeat_registered (own_attempt x) \<and>
         lease_watchdog (own_attempt x) = None \<and> expiration_timer (own_attempt x) = None \<and>
         length (reservations_settled x) = reservations x"
proof -
  have "balanced (snd (execution_result env task lease sent now))"
    unfolding execution_result_def
    by (rule act_keepsD [OF balanced_execute]) (simp add: start_execution_def balanced_def)
  moreover obtain y where "snd (execution_result env task lease sent now) = leave y"
    by (simp add: execution_result_def execute_task_def act_finally_def)
  ultimately show ?thesis by (simp add: leave_def balanced_def)
qed

end
