(* ===== verification/Batch_Handler.thy ===== *)
theory Batch_Handler
  imports Workhorse_Prelude
begin

text \<open>
  The batch handlers of a worker, \<^verbatim>\<open>handleBatch\<close> of \<^verbatim>\<open>worker.ts\<close>. The adapter holds the tasks of one type in a
  queue for each queue name until a batch is full or its linger time is over, calls the handler with
  the batch and answers each task with the outcome at its place.

  A call of the adapter is a member, named by its arrival order. The promise of a member settles once.
  The record of a dispatch is written before the handler runs, one batch after the other; the promise
  that orders the records is the phase of the batches. Each callback is one event.
\<close>

section \<open>Data\<close>

record member =
  arrival_order :: nat
  arrived_at :: real
  member_priority :: int
  member_queue :: string

text \<open>
  What a handler returns for a member: the status with the field that belongs to it, which can be
  missing, or a value of another shape.
\<close>

datatype ('r, 'e) raw_outcome = Raw_Succeeded "'r option" | Raw_Failed "'e option" | Raw_Other

datatype 'e batch_error = Wrong_Outcome_Count | Invalid_Outcome nat | Handler_Threw 'e

datatype ('r, 'e) member_result =
    Resolved 'r
  | Rejected_Outcome 'e
  | Rejected_Batch "'e batch_error"
  | Rejected_Abort string

datatype 'e batch_phase = Recording | Running | Recording_Failure "'e batch_error" | Batch_Done

record 'e batch =
  members :: "member list"
  phase :: "'e batch_phase"

record batch_options =
  max_size :: nat
  linger_ms :: real

text \<open>
  \<open>waiting\<close> and \<open>linger_timer\<close> are the map of pending queues; a queue that is not in the map has no
  member and no timer. \<open>refused\<close> holds the reasons of the calls whose signal had aborted before.
\<close>

record ('r, 'e) batch_state =
  waiting :: "string \<Rightarrow> member list"
  linger_timer :: "string \<Rightarrow> real option"
  next_arrival :: nat
  batches :: "'e batch list"
  results :: "nat \<rightharpoonup> ('r, 'e) member_result"
  refused :: "string list"

definition new_batches :: "('r, 'e) batch_state" where
  "new_batches = \<lparr>waiting = (\<lambda>_. []), linger_timer = (\<lambda>_. None), next_arrival = 0, batches = [],
     results = (\<lambda>_. None), refused = []\<rparr>"

section \<open>Options\<close>

datatype option_error = Max_Size_Range | Max_Size_Concurrency | Linger_Range

text \<open>A number of the options: a safe integer or another number.\<close>

datatype option_number = Safe_Integer int | Other_Number

fun in_range :: "int \<Rightarrow> int \<Rightarrow> option_number \<Rightarrow> bool" where
  "in_range lo hi (Safe_Integer n) = (lo \<le> n \<and> n \<le> hi)"
| "in_range lo hi Other_Number = False"

fun integer_of :: "option_number \<Rightarrow> int" where
  "integer_of (Safe_Integer n) = n"
| "integer_of Other_Number = 0"

definition handle_batch_options ::
  "int \<Rightarrow> option_number \<Rightarrow> option_number \<Rightarrow> (option_error, batch_options) result" where
  "handle_batch_options concurrency most linger =
     bind_result (guard_that (in_range 1 100 most) Max_Size_Range)
       (\<lambda>_. bind_result (guard_that (integer_of most \<le> concurrency) Max_Size_Concurrency)
          (\<lambda>_. bind_result (guard_that (in_range 0 60000 linger) Linger_Range)
             (\<lambda>_. Inr \<lparr>max_size = nat (integer_of most), linger_ms = of_int (integer_of linger)\<rparr>)))"

section \<open>Dispatch\<close>

definition goes_after :: "member \<Rightarrow> member \<Rightarrow> bool" where
  "goes_after m candidate \<longleftrightarrow>
     member_priority candidate < member_priority m \<or>
     member_priority candidate = member_priority m \<and> arrival_order m < arrival_order candidate"

text \<open>The insertion in front of the first candidate that goes after the member, or at the end.\<close>

fun insert_member :: "member \<Rightarrow> member list \<Rightarrow> member list" where
  "insert_member m [] = [m]"
| "insert_member m (c # cs) = (if goes_after m c then m # c # cs else c # insert_member m cs)"

definition dispatch :: "batch_options \<Rightarrow> string \<Rightarrow> ('r, 'e) batch_state \<Rightarrow> ('r, 'e) batch_state" where
  "dispatch opts q s =
     (if waiting s q = [] then s
      else s\<lparr>linger_timer := (linger_timer s)(q := None),
             waiting := (waiting s)(q := drop (max_size opts) (waiting s q)),
             batches := batches s @
               [\<lparr>members = fold insert_member (take (max_size opts) (waiting s q)) [], phase = Recording\<rparr>]\<rparr>)"

section \<open>Members\<close>

text \<open>The resolve and reject functions of a promise: only the first call counts.\<close>

definition settle_member ::
  "nat \<Rightarrow> ('r, 'e) member_result \<Rightarrow> ('r, 'e) batch_state \<Rightarrow> ('r, 'e) batch_state" where
  "settle_member i r s = (if results s i = None then s\<lparr>results := (results s)(i \<mapsto> r)\<rparr> else s)"

definition adapter_call ::
  "batch_options \<Rightarrow> real \<Rightarrow> string \<Rightarrow> int \<Rightarrow> ('r, 'e) batch_state \<Rightarrow> ('r, 'e) batch_state" where
  "adapter_call opts now q prio s =
     (let m = \<lparr>arrival_order = next_arrival s, arrived_at = now, member_priority = prio, member_queue = q\<rparr>;
          s1 = s\<lparr>waiting := (waiting s)(q := waiting s q @ [m]), next_arrival := next_arrival s + 1\<rparr>
      in if max_size opts \<le> length (waiting s1 q) \<or> linger_ms opts = 0 then dispatch opts q s1
         else if linger_timer s1 q = None
         then s1\<lparr>linger_timer := (linger_timer s1)(q := Some (now + linger_ms opts))\<rparr>
         else s1)"

text \<open>
  The abort listener of a member, which \<^verbatim>\<open>detach\<close> removes at the dispatch: it is attached as long as the
  member waits.
\<close>

definition remove :: "string \<Rightarrow> nat \<Rightarrow> ('r, 'e) batch_state \<Rightarrow> ('r, 'e) batch_state" where
  "remove q i s =
     (let rest = filter (\<lambda>m. arrival_order m \<noteq> i) (waiting s q) in
      s\<lparr>waiting := (waiting s)(q := rest),
        linger_timer := (if rest = [] then (linger_timer s)(q := None) else linger_timer s)\<rparr>)"

definition on_abort :: "string \<Rightarrow> nat \<Rightarrow> string \<Rightarrow> ('r, 'e) batch_state \<Rightarrow> ('r, 'e) batch_state" where
  "on_abort q i reason s =
     (if i \<in> arrival_order ` set (waiting s q) then settle_member i (Rejected_Abort reason) (remove q i s) else s)"

definition linger_timer_fires :: "batch_options \<Rightarrow> real \<Rightarrow> string \<Rightarrow> ('r, 'e) batch_state \<Rightarrow> ('r, 'e) batch_state" where
  "linger_timer_fires opts now q s =
     (case linger_timer s q of
        None \<Rightarrow> s
      | Some due \<Rightarrow> if now < due then s else dispatch opts q s)"

section \<open>The run of a batch\<close>

definition set_phase :: "nat \<Rightarrow> 'e batch_phase \<Rightarrow> ('r, 'e) batch_state \<Rightarrow> ('r, 'e) batch_state" where
  "set_phase b p s = s\<lparr>batches := (batches s)[b := (batches s ! b)\<lparr>phase := p\<rparr>]\<rparr>"

definition in_phase :: "nat \<Rightarrow> 'e batch_phase \<Rightarrow> ('r, 'e) batch_state \<Rightarrow> bool" where
  "in_phase b p s \<longleftrightarrow> b < length (batches s) \<and> phase (batches s ! b) = p"

text \<open>The dispatch of a batch is recorded after those of the batches before it; then the handler runs.\<close>

definition dispatch_recorded :: "nat \<Rightarrow> ('r, 'e) batch_state \<Rightarrow> ('r, 'e) batch_state" where
  "dispatch_recorded b s =
     (if in_phase b Recording s \<and> list_all (\<lambda>batch. phase batch \<noteq> Recording) (take b (batches s))
      then set_phase b Running s else s)"

fun valid_outcome :: "('r, 'e) raw_outcome \<Rightarrow> bool" where
  "valid_outcome (Raw_Succeeded r) = (r \<noteq> None)"
| "valid_outcome (Raw_Failed e) = (e \<noteq> None)"
| "valid_outcome Raw_Other = False"

fun outcome_result :: "('r, 'e) raw_outcome \<Rightarrow> ('r, 'e) member_result" where
  "outcome_result (Raw_Succeeded (Some r)) = Resolved r"
| "outcome_result (Raw_Failed (Some e)) = Rejected_Outcome e"
| "outcome_result _ = Rejected_Batch Wrong_Outcome_Count"

text \<open>What the handler returns: a value that is not an array, or an array of outcomes.\<close>

definition check_outcomes ::
  "nat \<Rightarrow> ('r, 'e) raw_outcome list option \<Rightarrow> ('e batch_error, ('r, 'e) raw_outcome list) result" where
  "check_outcomes expected returned =
     (case returned of
        None \<Rightarrow> Inl Wrong_Outcome_Count
      | Some outcomes \<Rightarrow>
          if length outcomes \<noteq> expected then Inl Wrong_Outcome_Count
          else (case List.find (\<lambda>i. \<not> valid_outcome (outcomes ! i)) [0..<length outcomes] of
                  Some i \<Rightarrow> Inl (Invalid_Outcome i)
                | None \<Rightarrow> Inr outcomes))"

definition settle_members ::
  "(nat \<times> ('r, 'e) member_result) list \<Rightarrow> ('r, 'e) batch_state \<Rightarrow> ('r, 'e) batch_state" where
  "settle_members = fold (\<lambda>(i, r). settle_member i r)"

definition handler_ends ::
  "nat \<Rightarrow> ('e, ('r, 'e) raw_outcome list option) result \<Rightarrow> ('r, 'e) batch_state \<Rightarrow> ('r, 'e) batch_state" where
  "handler_ends b ended s =
     (if \<not> in_phase b Running s then s
      else
        let ms = map arrival_order (members (batches s ! b)) in
        case bind_result (map_sum Handler_Threw id ended) (check_outcomes (length ms)) of
          Inl err \<Rightarrow> set_phase b (Recording_Failure err) s
        | Inr outcomes \<Rightarrow> set_phase b Batch_Done (settle_members (zip ms (map outcome_result outcomes)) s))"

definition failure_recorded :: "nat \<Rightarrow> ('r, 'e) batch_state \<Rightarrow> ('r, 'e) batch_state" where
  "failure_recorded b s =
     (if b < length (batches s)
      then (case phase (batches s ! b) of
              Recording_Failure err \<Rightarrow>
                set_phase b Batch_Done
                  (settle_members (map (\<lambda>m. (arrival_order m, Rejected_Batch err)) (members (batches s ! b))) s)
            | _ \<Rightarrow> s)
      else s)"

section \<open>Events\<close>

datatype ('r, 'e) batch_event =
    Adapter_Call real string int
  | Adapter_Refused string
  | Member_Aborted string nat string
  | Linger_Timer real string
  | Dispatch_Recorded nat
  | Handler_Ends nat "('e, ('r, 'e) raw_outcome list option) result"
  | Failure_Recorded nat

fun batch_step :: "batch_options \<Rightarrow> ('r, 'e) batch_event \<Rightarrow> ('r, 'e) batch_state \<Rightarrow> ('r, 'e) batch_state" where
  "batch_step opts (Adapter_Call now q prio) s = adapter_call opts now q prio s"
| "batch_step opts (Adapter_Refused reason) s = s\<lparr>refused := refused s @ [reason]\<rparr>"
| "batch_step opts (Member_Aborted q i reason) s = on_abort q i reason s"
| "batch_step opts (Linger_Timer now q) s = linger_timer_fires opts now q s"
| "batch_step opts (Dispatch_Recorded b) s = dispatch_recorded b s"
| "batch_step opts (Handler_Ends b ended) s = handler_ends b ended s"
| "batch_step opts (Failure_Recorded b) s = failure_recorded b s"

abbreviation batch_run ::
  "batch_options \<Rightarrow> ('r, 'e) batch_event list \<Rightarrow> ('r, 'e) batch_state" where
  "batch_run opts es \<equiv> fold (batch_step opts) es new_batches"

end
