(* ===== verification/Batch_Handler_Properties.thy ===== *)
theory Batch_Handler_Properties
  imports Batch_Handler
begin

text \<open>
  Correctness of batch handlers: every call of the adapter is at one place, it is answered once, a
  waiting call has its timer, and a batch is in the order of priority and arrival and answers each
  call with the outcome at its own place.
\<close>

section \<open>The order of a batch\<close>

lemma set_insert_member [simp]: "set (insert_member m cs) = insert m (set cs)"
  by (induction cs) auto

lemma length_insert_member [simp]: "length (insert_member m cs) = Suc (length cs)"
  by (induction cs) auto

lemma set_fold_insert [simp]: "set (fold insert_member ms cs) = set ms \<union> set cs"
  by (induction ms arbitrary: cs) auto

lemma length_fold_insert [simp]: "length (fold insert_member ms cs) = length ms + length cs"
  by (induction ms arbitrary: cs) auto

lemma goes_after_trans: "goes_after a b \<Longrightarrow> goes_after b c \<Longrightarrow> goes_after a c"
  by (auto simp: goes_after_def)

lemma goes_after_total: "arrival_order a \<noteq> arrival_order b \<Longrightarrow> goes_after a b \<or> goes_after b a"
  by (auto simp: goes_after_def)

lemma sorted_insert_member:
  "sorted_wrt goes_after cs \<Longrightarrow> arrival_order m \<notin> arrival_order ` set cs \<Longrightarrow>
     sorted_wrt goes_after (insert_member m cs)"
proof (induction cs)
  case (Cons c cs)
  then show ?case
    using goes_after_total [of m c] goes_after_trans [of m c] by auto
qed simp

lemma sorted_fold_insert:
  "sorted_wrt goes_after cs \<Longrightarrow> distinct (map arrival_order ms) \<Longrightarrow>
     arrival_order ` set ms \<inter> arrival_order ` set cs = {} \<Longrightarrow>
     sorted_wrt goes_after (fold insert_member ms cs)"
proof (induction ms arbitrary: cs)
  case (Cons m ms)
  then have "sorted_wrt goes_after (insert_member m cs)" by (intro sorted_insert_member) auto
  moreover have "arrival_order ` set ms \<inter> arrival_order ` set (insert_member m cs) = {}"
    using Cons.prems by auto
  ultimately show ?case using Cons.IH Cons.prems(2) by simp
qed simp

lemma distinct_fold_insert:
  "distinct (map arrival_order ms) \<Longrightarrow> distinct (map arrival_order (fold insert_member ms []))"
  by (metis (no_types, lifting) card_distinct distinct_card length_map length_fold_insert list.set_map
      set_fold_insert sup_bot.right_neutral list.set(1) list.size(3) add.right_neutral)

section \<open>Places\<close>

datatype place = In_Queue string | In_Batch nat

fun held :: "('r, 'e) batch_state \<Rightarrow> place \<Rightarrow> nat set" where
  "held s (In_Queue q) = arrival_order ` set (waiting s q)"
| "held s (In_Batch b) =
     (if b < length (batches s) then arrival_order ` set (members (batches s ! b)) else {})"

fun unanswered_at :: "('r, 'e) batch_state \<Rightarrow> place \<Rightarrow> bool" where
  "unanswered_at s (In_Queue q) = True"
| "unanswered_at s (In_Batch b) = (phase (batches s ! b) \<noteq> Batch_Done)"

text \<open>
  Every call so far is at one place at most; a call at a place is unanswered exactly while the place
  says so; a call without a place was rejected with the reason of its abort.
\<close>

definition accounted ::
  "(place \<Rightarrow> nat set) \<Rightarrow> (place \<Rightarrow> bool) \<Rightarrow> nat \<Rightarrow> (nat \<rightharpoonup> ('r, 'e) member_result) \<Rightarrow> bool" where
  "accounted h open_at n r \<longleftrightarrow>
     (\<forall>i p p'. i \<in> h p \<longrightarrow> i \<in> h p' \<longrightarrow> p = p') \<and>
     (\<forall>i p. i \<in> h p \<longrightarrow> i < n \<and> (r i = None \<longleftrightarrow> open_at p)) \<and>
     (\<forall>i < n. (\<forall>p. i \<notin> h p) \<longrightarrow> (\<exists>reason. r i = Some (Rejected_Abort reason))) \<and>
     (\<forall>i \<ge> n. r i = None)"

lemma accountedD:
  assumes "accounted h u n r"
  shows "i \<in> h p \<Longrightarrow> i \<in> h p' \<Longrightarrow> p = p'" "i \<in> h p \<Longrightarrow> i < n" "i \<in> h p \<Longrightarrow> r i = None \<longleftrightarrow> u p"
    "i < n \<Longrightarrow> (\<And>p. i \<notin> h p) \<Longrightarrow> \<exists>reason. r i = Some (Rejected_Abort reason)" "n \<le> i \<Longrightarrow> r i = None"
  using assms unfolding accounted_def by blast+

lemma accounted_arrival:
  assumes "accounted h u n r" and "u p0"
  shows "accounted (h(p0 := insert n (h p0))) u (Suc n) r"
proof -
  have "n \<notin> h p" for p using accountedD(2) [OF assms(1), of n p] by blast
  then show ?thesis
    using assms unfolding accounted_def by (auto simp: less_Suc_eq)
qed

lemma accounted_abort:
  assumes "accounted h u n r" and "i \<in> h p0"
  shows "accounted (h(p0 := h p0 - {i})) u n (r(i \<mapsto> Rejected_Abort reason))"
proof -
  have "i \<notin> h p" if "p \<noteq> p0" for p using accountedD(1) [OF assms] that by blast
  then have moved: "j \<in> (h(p0 := h p0 - {i})) p \<longleftrightarrow> j \<in> h p \<and> j \<noteq> i" for j p
    by (cases "p = p0") auto
  show ?thesis
    unfolding accounted_def moved
    using accountedD [OF assms(1)] assms(2) by (auto simp: not_less; metis not_less)
qed

lemma accounted_moved:
  assumes a: "accounted h u n r" and f: "bij f" and h: "\<And>p. h' p = h (f p)"
    and u: "\<And>i p. i \<in> h' p \<Longrightarrow> u' p = u (f p)"
  shows "accounted h' u' n r"
proof -
  have "p = p'" if "i \<in> h' p" "i \<in> h' p'" for i p p'
    using that accountedD(1) [OF a, of i "f p" "f p'"] h injD [OF bij_is_inj [OF f]] by simp
  moreover have "(\<forall>p. i \<notin> h' p) \<longleftrightarrow> (\<forall>p. i \<notin> h p)" for i
    using f h by (metis bij_pointE)
  ultimately show ?thesis
    using a u h unfolding accounted_def by (auto; metis)
qed

lemma accounted_answer:
  assumes "accounted h u n r" and "\<And>i. i \<in> h p0 \<Longrightarrow> r' i \<noteq> None" and "\<And>i. i \<notin> h p0 \<Longrightarrow> r' i = r i"
    and "\<not> u' p0" and "\<And>p. p \<noteq> p0 \<Longrightarrow> u' p = u p"
  shows "accounted h u' n r'"
  unfolding accounted_def
proof (intro conjI allI impI)
  fix i p assume "i \<in> h p"
  then show "i < n" "r' i = None \<longleftrightarrow> u' p"
    using accountedD(1-3) [OF assms(1)] assms(2-) by (metis, metis)
next
  fix i assume "i < n" "\<forall>p. i \<notin> h p"
  then show "\<exists>reason. r' i = Some (Rejected_Abort reason)"
    using accountedD(4) [OF assms(1)] assms(3) by metis
next
  fix i assume "n \<le> i"
  then show "r' i = None"
    using accountedD(2,5) [OF assms(1)] assms(3) by (metis not_le)
qed (use accountedD(1) [OF assms(1)] in blast)

definition places_ok :: "('r, 'e) batch_state \<Rightarrow> bool" where
  "places_ok s \<longleftrightarrow> accounted (held s) (unanswered_at s) (next_arrival s) (results s)"

definition queue_ok :: "batch_options \<Rightarrow> ('r, 'e) batch_state \<Rightarrow> string \<Rightarrow> bool" where
  "queue_ok opts s q \<longleftrightarrow>
     distinct (map arrival_order (waiting s q)) \<and> length (waiting s q) < max_size opts \<and>
     (waiting s q = [] \<longleftrightarrow> linger_timer s q = None)"

definition queues_ok :: "batch_options \<Rightarrow> ('r, 'e) batch_state \<Rightarrow> bool" where
  "queues_ok opts s \<longleftrightarrow> (\<forall>q. queue_ok opts s q)"

definition batch_ok :: "batch_options \<Rightarrow> 'e batch \<Rightarrow> bool" where
  "batch_ok opts batch \<longleftrightarrow>
     members batch \<noteq> [] \<and> length (members batch) \<le> max_size opts \<and> distinct (map arrival_order (members batch)) \<and>
     sorted_wrt goes_after (members batch)"

definition batches_ok :: "batch_options \<Rightarrow> ('r, 'e) batch_state \<Rightarrow> bool" where
  "batches_ok opts s \<longleftrightarrow> places_ok s \<and> queues_ok opts s \<and> list_all (batch_ok opts) (batches s)"

lemma batches_okD:
  "batches_ok opts s \<Longrightarrow> places_ok s" "batches_ok opts s \<Longrightarrow> queues_ok opts s"
  "batches_ok opts s \<Longrightarrow> b < length (batches s) \<Longrightarrow> batch_ok opts (batches s ! b)"
  by (simp_all add: batches_ok_def list_all_length)

lemma held_new: "held new_batches p = {}"
  by (cases p) (simp_all add: new_batches_def)

lemma new_batches_ok: "0 < max_size opts \<Longrightarrow> batches_ok opts new_batches"
  by (auto simp: batches_ok_def places_ok_def accounted_def queues_ok_def queue_ok_def held_new)
    (simp_all add: new_batches_def)

section \<open>A batch leaves its queue\<close>

text \<open>
  A queue that may be full: what \<open>dispatch\<close> finds. It takes all of it, and every member only changes
  its place.
\<close>

definition queue_full :: "batch_options \<Rightarrow> string \<Rightarrow> ('r, 'e) batch_state \<Rightarrow> bool" where
  "queue_full opts q s \<longleftrightarrow>
     waiting s q \<noteq> [] \<and> distinct (map arrival_order (waiting s q)) \<and> length (waiting s q) \<le> max_size opts"

definition swap_places :: "string \<Rightarrow> nat \<Rightarrow> place \<Rightarrow> place" where
  "swap_places q b p = (if p = In_Queue q then In_Batch b else if p = In_Batch b then In_Queue q else p)"

lemma bij_swap_places: "bij (swap_places q b)"
  by (rule o_bij [where g = "swap_places q b"]) (auto simp: swap_places_def)

lemma dispatch_places:
  assumes full: "queue_full opts q s" and s: "places_ok s"
  shows "places_ok (dispatch opts q s)"
proof -
  let ?s = "dispatch opts q s"
  have "next_arrival ?s = next_arrival s" "results ?s = results s" by (simp_all add: dispatch_def)
  moreover have "accounted (held ?s) (unanswered_at ?s) (next_arrival s) (results s)"
  proof (rule accounted_moved [OF s [unfolded places_ok_def] bij_swap_places])
  show "held ?s p = held s (swap_places q (length (batches s)) p)" for p
    using full by (cases p) (auto simp: dispatch_def queue_full_def swap_places_def nth_append)
  show "unanswered_at ?s p = unanswered_at s (swap_places q (length (batches s)) p)" if "i \<in> held ?s p" for i p
    using that full by (cases p) (auto simp: dispatch_def queue_full_def swap_places_def nth_append split: if_splits)
  qed
  ultimately show ?thesis by (simp add: places_ok_def)
qed

lemma dispatch_ok:
  assumes full: "queue_full opts q s" and s: "places_ok s" and b: "list_all (batch_ok opts) (batches s)"
    and others: "\<And>q'. q' \<noteq> q \<Longrightarrow> queue_ok opts s q'"
  shows "batches_ok opts (dispatch opts q s)"
proof -
  have "0 < max_size opts" using full by (cases "waiting s q") (auto simp: queue_full_def)
  then have "queues_ok opts (dispatch opts q s)"
    using full others by (auto simp: queues_ok_def queue_ok_def dispatch_def queue_full_def)
  moreover have "list_all (batch_ok opts) (batches (dispatch opts q s))"
    using full b sorted_fold_insert [of "[]" "waiting s q"] distinct_fold_insert [of "waiting s q"]
    by (auto simp: dispatch_def queue_full_def batch_ok_def dest: arg_cong [where f = length])
  ultimately show ?thesis
    using dispatch_places [OF full s] by (simp add: batches_ok_def)
qed

section \<open>Calls and aborts\<close>

definition pushed :: "real \<Rightarrow> string \<Rightarrow> int \<Rightarrow> ('r, 'e) batch_state \<Rightarrow> ('r, 'e) batch_state" where
  "pushed now q prio s =
     s\<lparr>waiting := (waiting s)(q := waiting s q @
         [\<lparr>arrival_order = next_arrival s, arrived_at = now, member_priority = prio, member_queue = q\<rparr>]),
       next_arrival := next_arrival s + 1\<rparr>"

lemma adapter_call_pushed:
  "adapter_call opts now q prio s =
     (let s1 = pushed now q prio s in
      if max_size opts \<le> length (waiting s1 q) \<or> linger_ms opts = 0 then dispatch opts q s1
      else if linger_timer s1 q = None
      then s1\<lparr>linger_timer := (linger_timer s1)(q := Some (now + linger_ms opts))\<rparr>
      else s1)"
  by (simp add: adapter_call_def pushed_def Let_def)

lemma held_pushed: "held (pushed now q prio s) = (held s)(In_Queue q := insert (next_arrival s) (held s (In_Queue q)))"
proof
  show "held (pushed now q prio s) p =
      ((held s)(In_Queue q := insert (next_arrival s) (held s (In_Queue q)))) p" for p
    by (cases p) (auto simp: pushed_def)
qed

lemma unanswered_same: "batches s' = batches s \<Longrightarrow> unanswered_at s' = unanswered_at s"
proof
  show "batches s' = batches s \<Longrightarrow> unanswered_at s' p = unanswered_at s p" for p by (cases p) simp_all
qed

lemma held_same: "batches s' = batches s \<Longrightarrow> waiting s' = waiting s \<Longrightarrow> held s' = held s"
proof
  show "batches s' = batches s \<Longrightarrow> waiting s' = waiting s \<Longrightarrow> held s' p = held s p" for p by (cases p) simp_all
qed

lemma pushed_places:
  assumes "places_ok s" shows "places_ok (pushed now q prio s)"
proof -
  have "accounted (held (pushed now q prio s)) (unanswered_at s) (Suc (next_arrival s)) (results s)"
    unfolding held_pushed by (rule accounted_arrival [OF assms [unfolded places_ok_def]]) simp
  moreover have "unanswered_at (pushed now q prio s) = unanswered_at s"
    by (rule unanswered_same) (simp add: pushed_def)
  ultimately show ?thesis by (simp add: places_ok_def pushed_def)
qed

lemma places_timer [simp]: "places_ok (s\<lparr>linger_timer := l\<rparr>) = places_ok s"
  using held_same [of "s\<lparr>linger_timer := l\<rparr>" s] unanswered_same [of "s\<lparr>linger_timer := l\<rparr>" s]
  by (simp add: places_ok_def)

lemma adapter_call_ok:
  assumes "batches_ok opts s" shows "batches_ok opts (adapter_call opts now q prio s)"
proof -
  let ?s = "pushed now q prio s"
  have places: "places_ok ?s" using assms by (intro pushed_places) (rule batches_okD)
  have queues: "queues_ok opts s" and batches: "list_all (batch_ok opts) (batches ?s)"
    using assms by (simp_all add: batches_ok_def pushed_def)
  have fresh: "next_arrival s \<notin> arrival_order ` set (waiting s q)"
    using accountedD(2) [OF batches_okD(1) [OF assms, unfolded places_ok_def], of _ "In_Queue q"] by fastforce
  then have full: "queue_full opts q ?s"
    using queues by (auto simp: queue_full_def queues_ok_def queue_ok_def pushed_def Suc_le_eq)
  have others: "queue_ok opts ?s q'" if "q' \<noteq> q" for q'
    using that queues by (simp add: queues_ok_def queue_ok_def pushed_def)
  have waits: "batches_ok opts (?s\<lparr>linger_timer := l\<rparr>)"
    if "length (waiting ?s q) < max_size opts" "l q \<noteq> None" "\<And>q'. q' \<noteq> q \<Longrightarrow> l q' = linger_timer ?s q'" for l
  proof -
    have "queue_ok opts (?s\<lparr>linger_timer := l\<rparr>) q'" for q'
      using that full others [of q'] by (cases "q' = q") (auto simp: queue_ok_def queue_full_def)
    then show ?thesis using places batches by (simp add: batches_ok_def queues_ok_def)
  qed
  show ?thesis
    unfolding adapter_call_pushed Let_def
    using waits [of "linger_timer ?s"] waits [of "(linger_timer ?s)(q := Some (now + linger_ms opts))"]
      dispatch_ok [OF full places batches others]
    by simp
qed

lemma on_abort_ok:
  assumes s: "batches_ok opts s" shows "batches_ok opts (on_abort q i reason s)"
proof (cases "i \<in> held s (In_Queue q)")
  case False
  then show ?thesis using s by (simp add: on_abort_def)
next
  case True
  let ?s = "on_abort q i reason s"
  have places: "accounted (held s) (unanswered_at s) (next_arrival s) (results s)"
    using batches_okD(1) [OF s] by (simp add: places_ok_def)
  have none: "results s i = None" using accountedD(3) [OF places True] by simp
  then have s': "?s = (remove q i s)\<lparr>results := (results s)(i \<mapsto> Rejected_Abort reason)\<rparr>"
    using True by (simp add: on_abort_def settle_member_def remove_def Let_def)
  have "held ?s p = ((held s)(In_Queue q := held s (In_Queue q) - {i})) p" for p
    by (cases p) (auto simp: s' remove_def Let_def)
  then have held: "held ?s = (held s)(In_Queue q := held s (In_Queue q) - {i})" ..
  have "unanswered_at ?s = unanswered_at s"
    by (rule unanswered_same) (simp add: s' remove_def Let_def)
  moreover have "next_arrival ?s = next_arrival s" "results ?s = (results s)(i \<mapsto> Rejected_Abort reason)"
    by (simp_all add: s' remove_def Let_def)
  ultimately have "places_ok ?s"
    unfolding places_ok_def held using accounted_abort [OF places True, of reason] by simp
  moreover have armed: "linger_timer s q \<noteq> None"
    using True batches_okD(2) [OF s] by (auto simp: queues_ok_def queue_ok_def dest: spec [of _ q])
  moreover have "queue_ok opts ?s q'" for q'
    using batches_okD(2) [OF s] armed
    by (auto simp: queues_ok_def queue_ok_def s' remove_def Let_def distinct_map_filter
        intro: le_less_trans [OF length_filter_le])
  ultimately show ?thesis using s by (simp add: batches_ok_def queues_ok_def s' remove_def Let_def)
qed

section \<open>The run of a batch\<close>

lemma settle_members_frame [simp]:
  "waiting (settle_members irs s) = waiting s" "linger_timer (settle_members irs s) = linger_timer s"
  "next_arrival (settle_members irs s) = next_arrival s" "batches (settle_members irs s) = batches s"
  unfolding settle_members_def by (rule fold_field_eq; auto simp: settle_member_def)+

lemma results_settle_member:
  "results (settle_member i r s) j = (if i = j \<and> results s i = None then Some r else results s j)"
  by (simp add: settle_member_def)

lemma results_settle_members:
  "results (settle_members irs s) i = (case results s i of Some r \<Rightarrow> Some r | None \<Rightarrow> map_of irs i)"
  unfolding settle_members_def
  by (induction irs arbitrary: s) (auto simp: results_settle_member split: option.splits)

lemma held_phase [simp]: "held (set_phase b p s) = held s"
proof
  show "held (set_phase b p s) pl = held s pl" for pl
    by (cases pl; cases "b < length (batches s)") (auto simp: set_phase_def nth_list_update)
qed

lemma unanswered_phase:
  "b < length (batches s) \<Longrightarrow>
     unanswered_at (set_phase b p s) = (unanswered_at s)(In_Batch b := (p \<noteq> Batch_Done))"
proof
  show "b < length (batches s) \<Longrightarrow>
      unanswered_at (set_phase b p s) pl = ((unanswered_at s)(In_Batch b := (p \<noteq> Batch_Done))) pl" for pl
    by (cases pl) (auto simp: set_phase_def nth_list_update)
qed

lemma set_phase_frame [simp]:
  "waiting (set_phase b p s) = waiting s" "linger_timer (set_phase b p s) = linger_timer s"
  "next_arrival (set_phase b p s) = next_arrival s" "results (set_phase b p s) = results s"
  by (simp_all add: set_phase_def)

lemma batch_ok_phase [simp]: "batch_ok opts (batch\<lparr>phase := p\<rparr>) = batch_ok opts batch"
  by (simp add: batch_ok_def)

lemma set_phase_batches:
  "list_all (batch_ok opts) (batches s) \<Longrightarrow> list_all (batch_ok opts) (batches (set_phase b p s))"
  by (cases "b < length (batches s)") (auto simp: set_phase_def list_all_length nth_list_update)

text \<open>A batch that runs on, and a batch that ends with a result for each of its members.\<close>

lemma phase_ok:
  assumes s: "batches_ok opts s" and b: "b < length (batches s)" and "phase (batches s ! b) \<noteq> Batch_Done" "p \<noteq> Batch_Done"
  shows "batches_ok opts (set_phase b p s)"
proof -
  have "unanswered_at (set_phase b p s) = unanswered_at s"
    using assms(3,4) by (auto simp: unanswered_phase [OF b] fun_eq_iff)
  then show ?thesis
    using s by (simp add: batches_ok_def places_ok_def queues_ok_def queue_ok_def set_phase_batches)
qed

lemma batch_done_ok:
  assumes s: "batches_ok opts s" and b: "b < length (batches s)" and un: "phase (batches s ! b) \<noteq> Batch_Done"
    and irs: "fst ` set irs = arrival_order ` set (members (batches s ! b))"
  shows "batches_ok opts (set_phase b Batch_Done (settle_members irs s))"
proof -
  let ?s = "set_phase b Batch_Done (settle_members irs s)"
  have places: "accounted (held s) (unanswered_at s) (next_arrival s) (results s)"
    using batches_okD(1) [OF s] by (simp add: places_ok_def)
  have held: "held s (In_Batch b) = fst ` set irs" using b irs by simp
  have same: "held (settle_members irs s) = held s" by (rule held_same) simp_all
  have "accounted (held s) (unanswered_at ?s) (next_arrival s) (results ?s)"
  proof (rule accounted_answer [OF places, of "In_Batch b"])
    fix i assume "i \<in> held s (In_Batch b)"
    then have "map_of irs i \<noteq> None" using held by (simp add: map_of_eq_None_iff)
    then show "results ?s i \<noteq> None" by (auto simp: results_settle_members split: option.split)
  next
    fix i assume "i \<notin> held s (In_Batch b)"
    then have "map_of irs i = None" using held by (simp add: map_of_eq_None_iff)
    then show "results ?s i = results s i" by (simp add: results_settle_members split: option.split)
  qed (use b unanswered_same [of "settle_members irs s" s] in \<open>simp_all add: unanswered_phase\<close>)
  then show ?thesis
    using s by (simp add: batches_ok_def places_ok_def queues_ok_def queue_ok_def set_phase_batches same)
qed

lemma check_outcomes_Inr:
  "check_outcomes n returned = Inr outcomes \<longleftrightarrow>
     returned = Some outcomes \<and> length outcomes = n \<and> list_all valid_outcome outcomes"
  by (auto simp: check_outcomes_def list_all_length find_None_iff find_Some_iff split: option.splits)

lemma handler_ends_ok:
  assumes "batches_ok opts s" shows "batches_ok opts (handler_ends b ended s)"
proof (cases "in_phase b Running s")
  case True
  let ?ms = "map arrival_order (members (batches s ! b))"
  show ?thesis
  proof (cases "bind_result (map_sum Handler_Threw id ended) (check_outcomes (length ?ms))")
    case (Inl err)
    then show ?thesis using True assms by (auto simp: handler_ends_def in_phase_def Let_def intro!: phase_ok)
  next
    case (Inr outcomes)
    then have "length outcomes = length ?ms" by (auto simp: check_outcomes_Inr)
    then have "fst ` set (zip ?ms (map outcome_result outcomes)) = arrival_order ` set (members (batches s ! b))"
      by (metis length_map list.set_map map_fst_zip)
    then show ?thesis
      using Inr True assms by (auto simp: handler_ends_def in_phase_def Let_def intro!: batch_done_ok)
  qed
qed (use assms in \<open>simp add: handler_ends_def\<close>)

lemma failure_recorded_ok:
  assumes "batches_ok opts s" shows "batches_ok opts (failure_recorded b s)"
  using assms by (auto simp: failure_recorded_def image_image intro!: batch_done_ok split: batch_phase.split)

lemma linger_timer_ok:
  assumes s: "batches_ok opts s" shows "batches_ok opts (linger_timer_fires opts now q s)"
proof (cases "linger_timer s q")
  case (Some due)
  have q: "queue_ok opts s q'" for q' using batches_okD(2) [OF s] by (simp add: queues_ok_def)
  have "queue_full opts q s" using Some q [of q] by (auto simp: queue_ok_def queue_full_def)
  then have "batches_ok opts (dispatch opts q s)"
    using s q by (intro dispatch_ok) (simp_all add: batches_ok_def)
  then show ?thesis using s Some by (simp add: linger_timer_fires_def)
qed (use s in \<open>simp add: linger_timer_fires_def\<close>)

lemma batch_step_ok: "batches_ok opts s \<Longrightarrow> batches_ok opts (batch_step opts e s)"
proof (cases e)
  case (Adapter_Refused reason)
  assume s: "batches_ok opts s"
  have "held (s\<lparr>refused := r\<rparr>) = held s" "unanswered_at (s\<lparr>refused := r\<rparr>) = unanswered_at s" for r
    by (rule held_same unanswered_same; simp)+
  then show ?thesis
    using s Adapter_Refused by (simp add: batches_ok_def places_ok_def queues_ok_def queue_ok_def)
qed (auto simp: adapter_call_ok on_abort_ok linger_timer_ok handler_ends_ok failure_recorded_ok
    dispatch_recorded_def in_phase_def intro!: phase_ok)

interpretation adapters: machine_invariant "batch_step opts" "\<lambda>_. True" "batches_ok opts" for opts
  by unfold_locales (rule batch_step_ok)

lemma batch_run_ok: "0 < max_size opts \<Longrightarrow> batches_ok opts (batch_run opts es)"
  by (rule adapters.inv_run) (simp_all add: new_batches_ok list_all_iff)

section \<open>Properties\<close>

lemma options_ok: "handle_batch_options concurrency most linger = Inr opts \<Longrightarrow> 0 < max_size opts"
  by (cases most) (auto simp: handle_batch_options_def)

text \<open>
  C27. No call of a batch handler is lost and none is answered twice: at any moment a call waits in one
  queue with its linger timer armed and no answer, or it is in one batch and is answered exactly when
  that batch is done, or it left the queue with the reason of its abort and is in no batch.
\<close>

theorem batch_calls_accounted:
  assumes "handle_batch_options concurrency most linger = Inr opts"
    and "s = batch_run opts es" and "i < next_arrival s"
  shows "(\<exists>q. i \<in> held s (In_Queue q) \<and> (\<forall>p. i \<in> held s p \<longrightarrow> p = In_Queue q) \<and>
            linger_timer s q \<noteq> None \<and> results s i = None) \<or>
         (\<exists>b. i \<in> held s (In_Batch b) \<and> (\<forall>p. i \<in> held s p \<longrightarrow> p = In_Batch b) \<and>
            (results s i \<noteq> None \<longleftrightarrow> phase (batches s ! b) = Batch_Done)) \<or>
         (\<forall>p. i \<notin> held s p) \<and> (\<exists>reason. results s i = Some (Rejected_Abort reason))"
proof -
  have ok: "batches_ok opts s"
    unfolding assms(2) by (rule batch_run_ok [OF options_ok [OF assms(1)]])
  have a: "accounted (held s) (unanswered_at s) (next_arrival s) (results s)"
    using batches_okD(1) [OF ok] by (simp add: places_ok_def)
  have only: "i \<in> held s p' \<Longrightarrow> p' = p" if "i \<in> held s p" for p p'
    using accountedD(1) [OF a, of i p' p] that by blast
  consider p where "i \<in> held s p" | "\<forall>p. i \<notin> held s p" by blast
  then show ?thesis
  proof cases
    case 1
    have answered: "results s i = None \<longleftrightarrow> unanswered_at s p" by (rule accountedD(3) [OF a 1])
    show ?thesis
    proof (cases p)
      case (In_Queue q)
      have "linger_timer s q \<noteq> None"
        using 1 In_Queue batches_okD(2) [OF ok] by (auto simp: queues_ok_def queue_ok_def dest: spec [of _ q])
      then show ?thesis using 1 In_Queue answered only by (intro disjI1 exI [of _ q]) auto
    next
      case (In_Batch b)
      then show ?thesis using 1 answered only by (intro disjI2 disjI1 exI [of _ b]) auto
    qed
  next
    case 2
    then show ?thesis using accountedD(4) [OF a assms(3)] by blast
  qed
qed

definition sample_batch_options :: batch_options where
  "sample_batch_options = \<lparr>max_size = 2, linger_ms = 10\<rparr>"

definition sample_batch_events :: "(nat, nat) batch_event list" where
  "sample_batch_events =
     [Adapter_Call 0 ''mail'' 0, Adapter_Call 1 ''mail'' 5, Adapter_Call 2 ''mail'' 1, Dispatch_Recorded 0]"

lemmas batch_eval =
  sample_batch_events_def sample_batch_options_def new_batches_def adapter_call_def dispatch_def
  dispatch_recorded_def in_phase_def set_phase_def goes_after_def Let_def

lemma sample_options: "handle_batch_options 4 (Safe_Integer 2) (Safe_Integer 10) = Inr sample_batch_options"
  by (simp add: handle_batch_options_def sample_batch_options_def)

theorem batch_calls_accounted_witness:
  "linger_timer (batch_run sample_batch_options sample_batch_events) ''mail'' \<noteq> None"
proof -
  have "2 < next_arrival (batch_run sample_batch_options sample_batch_events)" by (simp add: batch_eval)
  note batch_calls_accounted [OF sample_options refl this]
  then show ?thesis by (auto simp: batch_eval split: if_splits elim!: held.elims)
qed



end
