(* ===== verification/Worker_Heartbeats.thy ===== *)
theory Worker_Heartbeats
  imports Task_Attempt_Expiry Heartbeat_Connection
begin

text \<open>
  The heartbeat rounds of a worker, \<^verbatim>\<open>scheduleHeartbeatBatch\<close> and the methods around it in \<^verbatim>\<open>worker.ts\<close>, together
  with the attempts whose leases they renew. An attempt registers a lease when it is constructed and
  removes it when it stops; a round calls the attempts with the status of their leases.

  A lease object is a number, and \<open>attempts\<close> gives its attempt. The map of leases is a list of task ids
  and lease objects in the order of insertion. A round whose promise has not settled is in
  \<open>pending_rounds\<close>, also if there were several. Clock readings, answers and the random number of the
  retry delay are carried by the events.
\<close>

section \<open>Data\<close>

record heartbeat_config =
  heartbeat_interval :: real
  lease_duration :: real
  lends_channel :: bool

record heartbeat_round =
  round_leases :: "nat list"
  round_sent_at :: real
  round_bound :: real
  round_is_retry :: bool

record heartbeats =
  leases :: "(string \<times> nat) list"
  attempts :: "nat \<Rightarrow> attempt"
  next_lease :: nat
  heartbeat_timer :: "real option"
  timer_is_retry :: bool
  busy_retry_leases :: "nat list option"
  busy_retry_at :: real
  heartbeat_in_flight :: bool
  next_heartbeat_at :: "real option"
  channel_held :: bool
  worker_running :: bool
  pending_rounds :: "heartbeat_round list"
  sent_rounds :: "heartbeat_round list"

definition BUSY_RETRY_BASE_MS :: real where "BUSY_RETRY_BASE_MS = 100"
definition BUSY_RETRY_MARGIN_MS :: real where "BUSY_RETRY_MARGIN_MS = 12"
definition BUSY_RETRY_MINIMUM_MS :: real where
  "BUSY_RETRY_MINIMUM_MS = MINIMUM_REMAINING_MS + BUSY_RETRY_MARGIN_MS"

definition heartbeat_round_bound_ms :: "real \<Rightarrow> real" where
  "heartbeat_round_bound_ms heartbeat_ms =
     max 1 (max (of_int \<lfloor>heartbeat_ms * 3 / 4\<rfloor>) (min 50 heartbeat_ms))"

definition no_task :: claimed_task where
  "no_task = \<lparr>task_id = [], task_attempt = 0, deadline_at = None, attempt_timeout_at = None, lease_expires_at = 0\<rparr>"

definition no_heartbeats :: heartbeats where
  "no_heartbeats =
     \<lparr>leases = [], attempts = (\<lambda>_. blank_attempt no_task 0), next_lease = 0, heartbeat_timer = None, timer_is_retry = False,
      busy_retry_leases = None, busy_retry_at = 0, heartbeat_in_flight = False, next_heartbeat_at = None,
      channel_held = False, worker_running = False, pending_rounds = [], sent_rounds = []\<rparr>"

section \<open>The map of leases\<close>

definition lease_key :: "heartbeats \<Rightarrow> nat \<Rightarrow> string" where
  "lease_key w i = task_id (claimed (attempts w i))"

definition is_registered :: "heartbeats \<Rightarrow> nat \<Rightarrow> bool" where
  "is_registered w i \<longleftrightarrow> map_of (leases w) (lease_key w i) = Some i"

fun map_set :: "string \<Rightarrow> nat \<Rightarrow> (string \<times> nat) list \<Rightarrow> (string \<times> nat) list" where
  "map_set k v [] = [(k, v)]"
| "map_set k v (e # es) = (if fst e = k then (k, v) # es else e # map_set k v es)"

section \<open>The channel and the schedule\<close>

definition reserved_heartbeat_channel :: "heartbeat_config \<Rightarrow> heartbeats \<Rightarrow> heartbeats" where
  "reserved_heartbeat_channel cfg w = (if channel_held w then w else w\<lparr>channel_held := lends_channel cfg\<rparr>)"

definition release_heartbeat_channel :: "heartbeats \<Rightarrow> heartbeats" where
  "release_heartbeat_channel w =
     (if worker_running w \<or> leases w \<noteq> [] then w else w\<lparr>channel_held := False\<rparr>)"

definition schedule_heartbeat_batch :: "heartbeat_config \<Rightarrow> real \<Rightarrow> heartbeats \<Rightarrow> heartbeats" where
  "schedule_heartbeat_batch cfg now w =
     (if heartbeat_timer w \<noteq> None \<or> leases w = [] then w
      else
        let slot = (case next_heartbeat_at w of None \<Rightarrow> now + heartbeat_interval cfg | Some t \<Rightarrow> t);
            w1 = w\<lparr>next_heartbeat_at := Some slot\<rparr>
        in if heartbeat_in_flight w1 then w1
           else let retry = busy_retry_leases w1 \<noteq> None \<and> busy_retry_at w1 < slot in
                w1\<lparr>timer_is_retry := retry, heartbeat_timer := Some (if retry then busy_retry_at w1 else slot)\<rparr>)"

definition busy_retry_delay_ms :: "heartbeat_config \<Rightarrow> real \<Rightarrow> real" where
  "busy_retry_delay_ms cfg random = min BUSY_RETRY_BASE_MS (heartbeat_interval cfg / 8) * (1 + random)"

section \<open>Leases come and go\<close>

text \<open>The function that \<^verbatim>\<open>addHeartbeatLease\<close> returns.\<close>

definition remove_lease :: "nat \<Rightarrow> heartbeats \<Rightarrow> heartbeats" where
  "remove_lease i w =
     (let rest = (if is_registered w i then filter (\<lambda>e. fst e \<noteq> lease_key w i) (leases w) else leases w);
          w1 = w\<lparr>leases := rest\<rparr>;
          w2 = (if rest = []
                then w1\<lparr>heartbeat_timer := None, busy_retry_leases := None, next_heartbeat_at := None\<rparr>
                else w1)
      in release_heartbeat_channel w2)"

text \<open>A call of a method of an attempt. When the method stops the heartbeat, it removes the lease.\<close>

definition on_lease_attempt :: "nat \<Rightarrow> (attempt \<Rightarrow> attempt) \<Rightarrow> heartbeats \<Rightarrow> heartbeats" where
  "on_lease_attempt i f w =
     (let a = attempts w i; a' = f a; w1 = w\<lparr>attempts := (attempts w)(i := a')\<rparr> in
      if heartbeat_registered a \<and> \<not> heartbeat_registered a' then remove_lease i w1 else w1)"

text \<open>
  The constructor of an attempt: it registers its lease, and a claim answer that arrives a full lease
  late removes it at once.
\<close>

definition add_heartbeat_lease ::
  "heartbeat_config \<Rightarrow> claimed_task \<Rightarrow> real \<Rightarrow> real \<Rightarrow> heartbeats \<Rightarrow> heartbeats" where
  "add_heartbeat_lease cfg task claim_sent now w =
     (let i = next_lease w;
          a = new_attempt task (lease_duration cfg) claim_sent now;
          w1 = w\<lparr>next_lease := i + 1, attempts := (attempts w)(i := a),
                 leases := map_set (task_id task) i (leases w)\<rparr>;
          w2 = schedule_heartbeat_batch cfg now (reserved_heartbeat_channel cfg w1)
      in if heartbeat_registered a then w2 else remove_lease i w2)"

section \<open>Rounds\<close>

definition take_busy_retry :: "real \<Rightarrow> heartbeats \<Rightarrow> nat list option \<times> heartbeats" where
  "take_busy_retry now w =
     (let w1 = w\<lparr>busy_retry_leases := None\<rparr> in
      case (busy_retry_leases w, next_heartbeat_at w) of
        (Some ls, Some slot) \<Rightarrow>
          if slot \<le> now then (None, w1)
          else let selection = filter (\<lambda>i. is_registered w i \<and>
                     (case lease_window_ends_at (attempts w i) of None \<Rightarrow> False | Some ends \<Rightarrow> now < ends)) ls
               in (if selection = [] then None else Some selection, w1)
      | _ \<Rightarrow> (None, w1))"

definition lease_ends_or :: "real \<Rightarrow> heartbeats \<Rightarrow> nat \<Rightarrow> real" where
  "lease_ends_or sent_at w i = (case lease_window_ends_at (attempts w i) of None \<Rightarrow> sent_at | Some ends \<Rightarrow> ends)"

definition retry_bound_ms :: "heartbeat_config \<Rightarrow> real \<Rightarrow> nat list \<Rightarrow> heartbeats \<Rightarrow> real" where
  "retry_bound_ms cfg sent_at selection w =
     max 1 (of_int \<lfloor>fold min
       (((case next_heartbeat_at w of None \<Rightarrow> sent_at + heartbeat_interval cfg | Some t \<Rightarrow> t) - sent_at) #
          map (\<lambda>i. lease_ends_or sent_at w i - sent_at) selection)
       (heartbeat_round_bound_ms (heartbeat_interval cfg))\<rfloor>)"

definition send_round :: "heartbeat_round \<Rightarrow> heartbeats \<Rightarrow> heartbeats" where
  "send_round r w = w\<lparr>pending_rounds := pending_rounds w @ [r], sent_rounds := sent_rounds w @ [r]\<rparr>"

text \<open>A round of all leases, and the busy retry of some of them. \<open>sent_at\<close> and \<open>now\<close> are the clock readings.\<close>

definition run_regular_round :: "heartbeat_config \<Rightarrow> real \<Rightarrow> heartbeats \<Rightarrow> heartbeats" where
  "run_regular_round cfg sent_at w =
     (let w1 = reserved_heartbeat_channel cfg
            (w\<lparr>next_heartbeat_at := Some (sent_at + heartbeat_interval cfg), busy_retry_leases := None\<rparr>)
      in send_round \<lparr>round_leases = map snd (leases w1), round_sent_at = sent_at,
           round_bound = heartbeat_round_bound_ms (heartbeat_interval cfg), round_is_retry = False\<rparr> w1)"

definition run_busy_retry :: "heartbeat_config \<Rightarrow> real \<Rightarrow> real \<Rightarrow> nat list \<Rightarrow> heartbeats \<Rightarrow> heartbeats" where
  "run_busy_retry cfg sent_at now selection w =
     (let w1 = reserved_heartbeat_channel cfg (w\<lparr>busy_retry_leases := None\<rparr>);
          bound = retry_bound_ms cfg sent_at selection w1
      in if channel_held w1 \<and> bound < BUSY_RETRY_MINIMUM_MS
         then schedule_heartbeat_batch cfg now (w1\<lparr>heartbeat_in_flight := False\<rparr>)
         else send_round \<lparr>round_leases = selection, round_sent_at = sent_at, round_bound = bound, round_is_retry = True\<rparr> w1)"

text \<open>The callback of the timer, with the three clock readings it can make.\<close>

definition heartbeat_timer_fires :: "heartbeat_config \<Rightarrow> real \<Rightarrow> real \<Rightarrow> real \<Rightarrow> heartbeats \<Rightarrow> heartbeats" where
  "heartbeat_timer_fires cfg now sent_at later w =
     (case heartbeat_timer w of
        None \<Rightarrow> w
      | Some due \<Rightarrow>
          if now < due then w
          else
            let w1 = w\<lparr>heartbeat_timer := None\<rparr> in
            if timer_is_retry w1
            then (case take_busy_retry now w1 of
                    (None, w2) \<Rightarrow> schedule_heartbeat_batch cfg now w2
                  | (Some selection, w2) \<Rightarrow>
                      run_busy_retry cfg sent_at later selection (w2\<lparr>heartbeat_in_flight := True\<rparr>))
            else run_regular_round cfg sent_at (w1\<lparr>heartbeat_in_flight := True\<rparr>))"

text \<open>One lease of the answer of a round; the list collects the busy leases.\<close>

definition status_of :: "(string \<rightharpoonup> heartbeat_status) \<Rightarrow> heartbeats \<Rightarrow> nat \<Rightarrow> heartbeat_status" where
  "status_of statuses w i = (case statuses (lease_key w i) of None \<Rightarrow> Hb_Stale | Some st \<Rightarrow> st)"

definition answer_lease ::
  "real \<Rightarrow> real \<Rightarrow> (string \<rightharpoonup> heartbeat_status) \<Rightarrow> nat \<Rightarrow> nat list \<times> heartbeats \<Rightarrow> nat list \<times> heartbeats" where
  "answer_lease now sent_at statuses i bw =
     (let (busy, w) = bw in
      if \<not> is_registered w i then (busy, w)
      else let st = status_of statuses w i in
           (if st = Hb_Busy then busy @ [i] else busy, on_lease_attempt i (refresh_ownership now st sent_at) w))"

definition round_settles :: "heartbeat_config \<Rightarrow> real \<Rightarrow> heartbeats \<Rightarrow> heartbeats" where
  "round_settles cfg now w = schedule_heartbeat_batch cfg now (w\<lparr>heartbeat_in_flight := False\<rparr>)"

definition drop_round :: "nat \<Rightarrow> heartbeats \<Rightarrow> heartbeats" where
  "drop_round k w = w\<lparr>pending_rounds := take k (pending_rounds w) @ drop (Suc k) (pending_rounds w)\<rparr>"

definition round_answered ::
  "heartbeat_config \<Rightarrow> nat \<Rightarrow> real \<Rightarrow> real \<Rightarrow> (string \<rightharpoonup> heartbeat_status) \<Rightarrow> heartbeats \<Rightarrow> heartbeats" where
  "round_answered cfg k now random statuses w =
     (if length (pending_rounds w) \<le> k then w
      else
        let r = pending_rounds w ! k;
            (busy, w1) = fold (answer_lease now (round_sent_at r) statuses) (round_leases r) ([], drop_round k w);
            w2 = (if busy = [] then w1
                  else w1\<lparr>busy_retry_leases := Some busy, busy_retry_at := now + busy_retry_delay_ms cfg random\<rparr>)
        in round_settles cfg now w2)"

text \<open>A failed round proves nothing: only the schedule goes on.\<close>

definition round_failed :: "heartbeat_config \<Rightarrow> nat \<Rightarrow> real \<Rightarrow> heartbeats \<Rightarrow> heartbeats" where
  "round_failed cfg k now w =
     (if length (pending_rounds w) \<le> k then w else round_settles cfg now (drop_round k w))"

section \<open>Events\<close>

datatype heartbeats_event =
    Lease_Added claimed_task real real
  | Attempt_Called nat attempt_event
  | Heartbeat_Timer real real real
  | Round_Answered nat real real "string \<rightharpoonup> heartbeat_status"
  | Round_Failed nat real
  | Worker_Runs bool

text \<open>An attempt gets heartbeat answers only from a round.\<close>

fun is_heartbeat_event :: "attempt_event \<Rightarrow> bool" where
  "is_heartbeat_event (Heartbeat _ _ _) = True"
| "is_heartbeat_event _ = False"

fun heartbeats_step :: "heartbeat_config \<Rightarrow> heartbeats_event \<Rightarrow> heartbeats \<Rightarrow> heartbeats" where
  "heartbeats_step cfg (Lease_Added task claim_sent now) w = add_heartbeat_lease cfg task claim_sent now w"
| "heartbeats_step cfg (Attempt_Called i e) w =
     (if next_lease w \<le> i \<or> is_heartbeat_event e then w else on_lease_attempt i (attempt_step e) w)"
| "heartbeats_step cfg (Heartbeat_Timer now sent_at later) w = heartbeat_timer_fires cfg now sent_at later w"
| "heartbeats_step cfg (Round_Answered k now random statuses) w = round_answered cfg k now random statuses w"
| "heartbeats_step cfg (Round_Failed k now) w = round_failed cfg k now w"
| "heartbeats_step cfg (Worker_Runs b) w = (if b then reserved_heartbeat_channel cfg (w\<lparr>worker_running := True\<rparr>)
      else release_heartbeat_channel (w\<lparr>worker_running := False\<rparr>))"

abbreviation heartbeats_run :: "heartbeat_config \<Rightarrow> heartbeats_event list \<Rightarrow> heartbeats" where
  "heartbeats_run cfg es \<equiv> fold (heartbeats_step cfg) es no_heartbeats"

end
