(* ===== verification/Worker_Heartbeats_Properties.thy ===== *)
theory Worker_Heartbeats_Properties
  imports Worker_Heartbeats
begin

text \<open>
  Correctness of the heartbeat schedule: one round at a time, a registered lease always has a round
  under way or a timer that is not later than its slot, and a local lease window is opened only by the
  claim of its attempt or by a round that carried its lease.
\<close>

section \<open>Frames\<close>

lemma schedule_frame [simp]:
  "leases (schedule_heartbeat_batch cfg now w) = leases w"
  "attempts (schedule_heartbeat_batch cfg now w) = attempts w"
  "next_lease (schedule_heartbeat_batch cfg now w) = next_lease w"
  "heartbeat_in_flight (schedule_heartbeat_batch cfg now w) = heartbeat_in_flight w"
  "pending_rounds (schedule_heartbeat_batch cfg now w) = pending_rounds w"
  "sent_rounds (schedule_heartbeat_batch cfg now w) = sent_rounds w"
  "channel_held (schedule_heartbeat_batch cfg now w) = channel_held w"
  by (simp_all add: schedule_heartbeat_batch_def Let_def)

lemma channel_frame [simp]:
  "leases (reserved_heartbeat_channel cfg w) = leases w"
  "attempts (reserved_heartbeat_channel cfg w) = attempts w"
  "next_lease (reserved_heartbeat_channel cfg w) = next_lease w"
  "heartbeat_timer (reserved_heartbeat_channel cfg w) = heartbeat_timer w"
  "heartbeat_in_flight (reserved_heartbeat_channel cfg w) = heartbeat_in_flight w"
  "next_heartbeat_at (reserved_heartbeat_channel cfg w) = next_heartbeat_at w"
  "pending_rounds (reserved_heartbeat_channel cfg w) = pending_rounds w"
  "sent_rounds (reserved_heartbeat_channel cfg w) = sent_rounds w"
  by (simp_all add: reserved_heartbeat_channel_def)

lemma release_frame [simp]:
  "leases (release_heartbeat_channel w) = leases w"
  "attempts (release_heartbeat_channel w) = attempts w"
  "next_lease (release_heartbeat_channel w) = next_lease w"
  "heartbeat_timer (release_heartbeat_channel w) = heartbeat_timer w"
  "heartbeat_in_flight (release_heartbeat_channel w) = heartbeat_in_flight w"
  "next_heartbeat_at (release_heartbeat_channel w) = next_heartbeat_at w"
  "pending_rounds (release_heartbeat_channel w) = pending_rounds w"
  "sent_rounds (release_heartbeat_channel w) = sent_rounds w"
  by (simp_all add: release_heartbeat_channel_def)

lemma remove_lease_frame [simp]:
  "attempts (remove_lease i w) = attempts w"
  "next_lease (remove_lease i w) = next_lease w"
  "heartbeat_in_flight (remove_lease i w) = heartbeat_in_flight w"
  "pending_rounds (remove_lease i w) = pending_rounds w"
  "sent_rounds (remove_lease i w) = sent_rounds w"
  by (simp_all add: remove_lease_def Let_def)

lemma on_lease_attempt_frame [simp]:
  "attempts (on_lease_attempt i f w) = (attempts w)(i := f (attempts w i))"
  "next_lease (on_lease_attempt i f w) = next_lease w"
  "heartbeat_in_flight (on_lease_attempt i f w) = heartbeat_in_flight w"
  "pending_rounds (on_lease_attempt i f w) = pending_rounds w"
  "sent_rounds (on_lease_attempt i f w) = sent_rounds w"
  by (simp_all add: on_lease_attempt_def Let_def)

lemma take_busy_frame [simp]:
  "leases (snd (take_busy_retry now w)) = leases w"
  "attempts (snd (take_busy_retry now w)) = attempts w"
  "next_lease (snd (take_busy_retry now w)) = next_lease w"
  "heartbeat_timer (snd (take_busy_retry now w)) = heartbeat_timer w"
  "heartbeat_in_flight (snd (take_busy_retry now w)) = heartbeat_in_flight w"
  "next_heartbeat_at (snd (take_busy_retry now w)) = next_heartbeat_at w"
  "pending_rounds (snd (take_busy_retry now w)) = pending_rounds w"
  "sent_rounds (snd (take_busy_retry now w)) = sent_rounds w"
  by (simp_all add: take_busy_retry_def Let_def split: option.split)

section \<open>One round at a time, and one is always coming\<close>

text \<open>
  The slot of the leases and the timer in front of it. A round under way needs no timer; \<open>schedule\<close>
  arms it again when the round has settled.
\<close>

definition slot_ok :: "heartbeats \<Rightarrow> bool" where
  "slot_ok w \<longleftrightarrow>
     (leases w \<noteq> [] \<longrightarrow> next_heartbeat_at w \<noteq> None) \<and>
     (\<forall>due. heartbeat_timer w = Some due \<longrightarrow>
        leases w \<noteq> [] \<and> \<not> heartbeat_in_flight w \<and> due \<le> the (next_heartbeat_at w))"

definition rounds_ok_w :: "heartbeats \<Rightarrow> bool" where
  "rounds_ok_w w \<longleftrightarrow>
     slot_ok w \<and> (leases w \<noteq> [] \<longrightarrow> heartbeat_in_flight w \<or> heartbeat_timer w \<noteq> None) \<and>
     length (pending_rounds w) = (if heartbeat_in_flight w then 1 else 0)"

lemma schedule_slot_ok:
  assumes "slot_ok w \<or> heartbeat_timer w = None"
  shows "slot_ok (schedule_heartbeat_batch cfg now w) \<and>
         (leases w \<noteq> [] \<longrightarrow> heartbeat_in_flight w \<or> heartbeat_timer (schedule_heartbeat_batch cfg now w) \<noteq> None)"
  using assms by (auto simp: schedule_heartbeat_batch_def slot_ok_def Let_def split: option.split)

lemma schedule_rounds_ok:
  assumes "slot_ok w \<or> heartbeat_timer w = None"
    and "length (pending_rounds w) = (if heartbeat_in_flight w then 1 else 0)"
  shows "rounds_ok_w (schedule_heartbeat_batch cfg now w)"
  using schedule_slot_ok [OF assms(1), of cfg now] assms(2) by (simp add: rounds_ok_w_def)

lemma remove_lease_slot_ok: "slot_ok w \<Longrightarrow> slot_ok (remove_lease i w)"
  by (auto simp: slot_ok_def remove_lease_def Let_def)

lemma remove_lease_rounds_ok: "rounds_ok_w w \<Longrightarrow> rounds_ok_w (remove_lease i w)"
  using remove_lease_slot_ok [of w i]
  by (auto simp: rounds_ok_w_def remove_lease_def Let_def)

lemma on_lease_attempt_ok:
  "slot_ok w \<Longrightarrow> slot_ok (on_lease_attempt i f w)" "rounds_ok_w w \<Longrightarrow> rounds_ok_w (on_lease_attempt i f w)"
proof -
  have "slot_ok (w\<lparr>attempts := a\<rparr>) = slot_ok w" "rounds_ok_w (w\<lparr>attempts := a\<rparr>) = rounds_ok_w w" for a
    by (simp_all add: slot_ok_def rounds_ok_w_def)
  then show "slot_ok w \<Longrightarrow> slot_ok (on_lease_attempt i f w)" "rounds_ok_w w \<Longrightarrow> rounds_ok_w (on_lease_attempt i f w)"
    by (simp_all add: on_lease_attempt_def remove_lease_slot_ok remove_lease_rounds_ok Let_def)
qed

lemma add_lease_ok:
  assumes "rounds_ok_w w" shows "rounds_ok_w (add_heartbeat_lease cfg task claim_sent now w)"
proof -
  define r where "r n a k i =
    reserved_heartbeat_channel cfg (w\<lparr>next_lease := n, attempts := a, leases := map_set k i (leases w)\<rparr>)" for n a k i
  have "map_set k i ls \<noteq> []" for k i ls by (cases ls) auto
  then have "slot_ok (r n a k i) \<or> heartbeat_timer (r n a k i) = None" for n a k i
    using assms by (auto simp: r_def rounds_ok_w_def slot_ok_def)
  then have "rounds_ok_w (schedule_heartbeat_batch cfg now (r n a k i))" for n a k i
    using assms by (intro schedule_rounds_ok) (auto simp: r_def rounds_ok_w_def)
  then show ?thesis
    by (simp add: add_heartbeat_lease_def remove_lease_rounds_ok Let_def r_def)
qed

lemma run_regular_round_ok:
  assumes "heartbeat_timer w = None" "heartbeat_in_flight w" "pending_rounds w = []"
  shows "rounds_ok_w (run_regular_round cfg sent_at w)"
  using assms by (simp add: run_regular_round_def send_round_def rounds_ok_w_def slot_ok_def Let_def)

lemma run_busy_retry_ok:
  assumes "heartbeat_timer w = None" "heartbeat_in_flight w" "pending_rounds w = []"
    "leases w \<noteq> [] \<longrightarrow> next_heartbeat_at w \<noteq> None"
  shows "rounds_ok_w (run_busy_retry cfg sent_at now selection w)"
  using assms schedule_rounds_ok [of "(reserved_heartbeat_channel cfg (w\<lparr>busy_retry_leases := None\<rparr>))\<lparr>heartbeat_in_flight := False\<rparr>"]
  by (simp add: run_busy_retry_def send_round_def rounds_ok_w_def slot_ok_def Let_def)

lemma timer_ok:
  assumes w: "rounds_ok_w w" shows "rounds_ok_w (heartbeat_timer_fires cfg now sent_at later w)"
proof (cases "heartbeat_timer w")
  case None
  then show ?thesis using w by (simp add: heartbeat_timer_fires_def)
next
  case (Some due)
  let ?w = "w\<lparr>heartbeat_timer := None\<rparr>"
  have idle: "\<not> heartbeat_in_flight w" "pending_rounds w = []" "leases w \<noteq> [] \<longrightarrow> next_heartbeat_at w \<noteq> None"
    using w Some by (auto simp: rounds_ok_w_def slot_ok_def)
  obtain sel w2 where take: "take_busy_retry now ?w = (sel, w2)" by fastforce
  note w2 = take_busy_frame [of now ?w, unfolded take snd_conv]
  have "rounds_ok_w (schedule_heartbeat_batch cfg now w2)"
    using idle w2 by (intro schedule_rounds_ok) simp_all
  moreover have "rounds_ok_w (run_busy_retry cfg sent_at later selection (w2\<lparr>heartbeat_in_flight := True\<rparr>))" for selection
    using idle w2 by (intro run_busy_retry_ok) simp_all
  moreover have "rounds_ok_w (run_regular_round cfg sent_at (?w\<lparr>heartbeat_in_flight := True\<rparr>))"
    using idle by (intro run_regular_round_ok) simp_all
  ultimately show ?thesis
    using w Some take by (auto simp: heartbeat_timer_fires_def Let_def split: option.split)
qed

text \<open>While a round is answered, its flag is still set and no timer is armed.\<close>

definition answering :: "heartbeats \<Rightarrow> bool" where
  "answering w \<longleftrightarrow> slot_ok w \<and> heartbeat_in_flight w \<and> pending_rounds w = []"

lemma answer_lease_ok: "answering (snd bw) \<Longrightarrow> answering (snd (answer_lease now sent_at statuses i bw))"
  by (cases bw) (auto simp: answer_lease_def answering_def on_lease_attempt_ok Let_def)

lemma answer_leases_ok:
  "answering (snd bw) \<Longrightarrow> answering (snd (fold (answer_lease now sent_at statuses) is bw))"
  by (rule fold_invariant_list) (auto intro: answer_lease_ok)

lemma drop_round_answering:
  assumes "rounds_ok_w w" "k < length (pending_rounds w)" shows "answering (drop_round k w)"
proof -
  have "k = 0" "length (pending_rounds w) = 1" "heartbeat_in_flight w"
    using assms by (auto simp: rounds_ok_w_def split: if_splits)
  then show ?thesis using assms(1) by (auto simp: answering_def drop_round_def rounds_ok_w_def slot_ok_def)
qed

lemma round_settles_ok: "answering w \<Longrightarrow> rounds_ok_w (round_settles cfg now w)"
  unfolding round_settles_def by (rule schedule_rounds_ok) (auto simp: answering_def slot_ok_def)

lemma round_answered_ok:
  assumes "rounds_ok_w w" shows "rounds_ok_w (round_answered cfg k now random statuses w)"
proof (cases "k < length (pending_rounds w)")
  case True
  let ?r = "pending_rounds w ! k"
  obtain busy w1 where fold: "fold (answer_lease now (round_sent_at ?r) statuses) (round_leases ?r) ([], drop_round k w) = (busy, w1)"
    by fastforce
  then have "answering w1"
    using answer_leases_ok [of "([], drop_round k w)"] drop_round_answering [OF assms True] by (metis snd_conv)
  then have "answering (w1\<lparr>busy_retry_leases := b, busy_retry_at := t\<rparr>)" for b t
    by (auto simp: answering_def slot_ok_def)
  then show ?thesis
    using True fold \<open>answering w1\<close> by (simp add: round_answered_def Let_def round_settles_ok)
qed (use assms in \<open>simp add: round_answered_def\<close>)

lemma round_failed_ok: "rounds_ok_w w \<Longrightarrow> rounds_ok_w (round_failed cfg k now w)"
  by (simp add: round_failed_def round_settles_ok drop_round_answering)

lemma channel_ok:
  "rounds_ok_w w \<Longrightarrow> rounds_ok_w (reserved_heartbeat_channel cfg w)" "rounds_ok_w w \<Longrightarrow> rounds_ok_w (release_heartbeat_channel w)"
  by (simp_all add: rounds_ok_w_def slot_ok_def)

lemma heartbeats_step_ok: "rounds_ok_w w \<Longrightarrow> rounds_ok_w (heartbeats_step cfg e w)"
proof (cases e)
  case (Worker_Runs b)
  assume "rounds_ok_w w"
  then have "rounds_ok_w (w\<lparr>worker_running := b\<rparr>)" by (simp add: rounds_ok_w_def slot_ok_def)
  then show ?thesis using Worker_Runs by (cases b) (simp_all add: channel_ok)
qed (simp_all add: add_lease_ok on_lease_attempt_ok timer_ok round_answered_ok round_failed_ok)

interpretation heartbeat_schedule: machine_invariant "heartbeats_step cfg" "\<lambda>_. True" rounds_ok_w for cfg
  by unfold_locales (rule heartbeats_step_ok)

lemma heartbeats_run_ok: "rounds_ok_w (heartbeats_run cfg es)"
  by (rule heartbeat_schedule.inv_run) (simp_all add: no_heartbeats_def rounds_ok_w_def slot_ok_def list_all_iff)

section \<open>Where a lease window comes from\<close>

definition window_from :: "real set \<Rightarrow> attempt \<Rightarrow> bool" where
  "window_from A s \<longleftrightarrow> (\<forall>ends. lease_window_ends_at s = Some ends \<longrightarrow> (\<exists>t \<in> A. ends = t + lease_ms s))"

lemma window_from_mono: "window_from A s \<Longrightarrow> A \<subseteq> B \<Longrightarrow> window_from B s"
  by (auto simp: window_from_def)

lemma window_from_frame [simp]:
  "window_from A (controller_abort r s) = window_from A s" "window_from A (abort r s) = window_from A s"
  "window_from A (submitted out s) = window_from A s" "window_from A (record_execution ex s) = window_from A s"
  "window_from A (stop_heartbeat s) = window_from A s" "window_from A (stop s)"
  "window_from A (s\<lparr>accepted := a\<rparr>) = window_from A s" "window_from A (s\<lparr>expiration_promise := p\<rparr>) = window_from A s"
  "window_from A (s\<lparr>expiration_timer := t\<rparr>) = window_from A s" "window_from A (s\<lparr>settling := b\<rparr>) = window_from A s"
  "window_from A (s\<lparr>expiry_reported := b\<rparr>) = window_from A s" "window_from A (s\<lparr>shutdown_requested := b\<rparr>) = window_from A s"
  "window_from A (end_lease_window s)" "window_from A (lose_lease s)" "window_from A (mark_cancellation_requested s)"
  by (simp_all add: window_from_def end_lease_window_def lose_lease_def mark_cancellation_requested_def)

lemma window_react: "window_from A s \<Longrightarrow> window_from A (react now res r s)"
  by (induction now res r s rule: react.induct) (auto simp: arm_expiration_timer_def split: attempt_splits)

lemma window_settle_promise: "window_from A s \<Longrightarrow> window_from A (settle_promise now res rs s)"
  unfolding settle_promise_def
  by (rule fold_invariant_list) (auto simp: window_react apply_expire_status_def split: attempt_splits)

lemma window_attach: "window_from A s \<Longrightarrow> window_from A (attach now r s)"
  by (auto simp: attach_def window_react split: attempt_splits)

lemma window_sleep_ends: "window_from A s \<Longrightarrow> window_from A (expiration_sleep_ends now s)"
  by (auto simp: expiration_sleep_ends_def window_settle_promise split: attempt_splits)

lemma window_expire_ownership [simp]: "window_from A (expire_ownership s) = window_from A s"
  by (auto simp: expire_ownership_def split: option.split)

lemma window_step:
  "window_from A s \<Longrightarrow> \<not> is_heartbeat_event e \<Longrightarrow> window_from A (attempt_step e s)"
  by (cases e)
    (auto simp: check_window_def require_lease_def require_settlement_lease_def Let_def abort_for_shutdown_def
      suspend_def suspend_for_scheduled_wait_def acknowledge_cancellation_def acknowledge_requested_begin_def
      acknowledge_requested_end_def record_settled_def submit_and_record_def record_failure_def record_release_def
      expiration_timer_fires_def expire_on_confirmation_def lease_watchdog_fires_def expire_answer_def
      expiration_sleep_timer_def settle_expiration_begin_def submit_def
      intro!: window_attach window_settle_promise window_sleep_ends split: attempt_splits)

lemma window_refresh:
  "window_from A s \<Longrightarrow> window_from (insert sent_at A) (refresh_ownership now st sent_at s)"
  by (cases st)
    (auto simp: refresh_ownership_def renew_lease_def Let_def intro!: window_attach elim: window_from_mono
      split: option.split, auto simp: window_from_def)

lemma window_new: "window_from {claim_sent} (new_attempt task lease claim_sent now)"
  using owned_since_new [of claim_sent task lease now]
  by (auto simp: window_from_def owned_since_def split: option.splits)

text \<open>
  The times that may open the window of a lease: when its claim left, and when the rounds left that
  carried it. \<open>claims\<close> are the times of the claims in the order of the leases.
\<close>

definition opening_times :: "real list \<Rightarrow> heartbeat_round list \<Rightarrow> nat \<Rightarrow> real set" where
  "opening_times claims rounds i =
     insert (claims ! i) {round_sent_at r | r. r \<in> set rounds \<and> i \<in> set (round_leases r)}"

definition windows_ok :: "real list \<Rightarrow> heartbeats \<Rightarrow> bool" where
  "windows_ok claims w \<longleftrightarrow>
     next_lease w = length claims \<and> set (pending_rounds w) \<subseteq> set (sent_rounds w) \<and>
     (\<forall>i < next_lease w. window_from (opening_times claims (sent_rounds w) i) (attempts w i))"

fun claim_times :: "heartbeats_event list \<Rightarrow> real list" where
  "claim_times [] = []"
| "claim_times (Lease_Added task claim_sent now # es) = claim_sent # claim_times es"
| "claim_times (e # es) = claim_times es"

lemma claim_times_append: "claim_times (es @ es') = claim_times es @ claim_times es'"
  by (induction es rule: claim_times.induct) simp_all

lemma windows_ok_frame:
  assumes "windows_ok claims w" and "next_lease w' = next_lease w" "attempts w' = attempts w"
    "sent_rounds w' = sent_rounds w" "set (pending_rounds w') \<subseteq> set (pending_rounds w)"
  shows "windows_ok claims w'"
  using assms by (auto simp: windows_ok_def)

lemma windows_ok_send:
  assumes "windows_ok claims w" shows "windows_ok claims (send_round r w)"
proof -
  have "opening_times claims (sent_rounds w) i \<subseteq> opening_times claims (sent_rounds w @ [r]) i" for i
    by (auto simp: opening_times_def)
  then have "window_from (opening_times claims (sent_rounds w @ [r]) i) (attempts w i)" if "i < next_lease w" for i
    using that assms by (metis windows_ok_def window_from_mono)
  then show ?thesis
    using assms by (auto simp: windows_ok_def send_round_def)
qed

lemma windows_ok_call:
  assumes "windows_ok claims w"
    and "i < next_lease w \<Longrightarrow> window_from (opening_times claims (sent_rounds w) i) (f (attempts w i))"
  shows "windows_ok claims (on_lease_attempt i f w)"
  using assms by (auto simp: windows_ok_def)

lemma windows_ok_answer:
  assumes "windows_ok claims (snd bw)" and "r \<in> set (sent_rounds (snd bw))" and "i \<in> set (round_leases r)"
  shows "windows_ok claims (snd (answer_lease now (round_sent_at r) statuses i bw)) \<and>
         sent_rounds (snd (answer_lease now (round_sent_at r) statuses i bw)) = sent_rounds (snd bw)"
proof -
  have "insert (round_sent_at r) (opening_times claims (sent_rounds (snd bw)) i) = opening_times claims (sent_rounds (snd bw)) i"
    using assms(2,3) by (auto simp: opening_times_def)
  then show ?thesis
    using assms(1) window_refresh [of "opening_times claims (sent_rounds (snd bw)) i" _ "round_sent_at r" now]
    by (cases bw) (auto simp: answer_lease_def Let_def windows_ok_def intro!: windows_ok_call)
qed

lemma windows_ok_answers:
  assumes "windows_ok claims (snd bw)" and "r \<in> set (sent_rounds (snd bw))" and "set is \<subseteq> set (round_leases r)"
  shows "windows_ok claims (snd (fold (answer_lease now (round_sent_at r) statuses) is bw))"
  using assms
proof (induction "is" arbitrary: bw)
  case (Cons i "is")
  then show ?case using windows_ok_answer [of claims bw r i now statuses] by simp
qed simp

lemma windows_ok_arrival:
  assumes "windows_ok claims w"
  shows "windows_ok (claims @ [claim_sent]) (add_heartbeat_lease cfg task claim_sent now w)"
proof -
  have times: "opening_times (claims @ [claim_sent]) rs i = opening_times claims rs i" if "i < length claims" for rs i
    using that by (simp add: opening_times_def nth_append)
  have "window_from (opening_times (claims @ [claim_sent]) rs (length claims))
      (new_attempt task (lease_duration cfg) claim_sent now)" for rs
    by (rule window_from_mono [OF window_new]) (simp add: opening_times_def)
  then have "windows_ok (claims @ [claim_sent])
      (w\<lparr>next_lease := next_lease w + 1, leases := ls,
         attempts := (attempts w)(next_lease w := new_attempt task (lease_duration cfg) claim_sent now)\<rparr>)" for ls
    using assms times by (auto simp: windows_ok_def less_Suc_eq)
  then show ?thesis
    by (rule windows_ok_frame) (simp_all add: add_heartbeat_lease_def Let_def)
qed

lemma windows_ok_timer:
  assumes "windows_ok claims w" shows "windows_ok claims (heartbeat_timer_fires cfg now sent_at later w)"
proof -
  have "windows_ok claims w'" if "next_lease w' = next_lease w" "attempts w' = attempts w"
    "sent_rounds w' = sent_rounds w" "pending_rounds w' = pending_rounds w" for w'
    using windows_ok_frame [OF assms, of w'] that by simp
  note same = this windows_ok_send [OF this]
  obtain sel w2 where take: "take_busy_retry now (w\<lparr>heartbeat_timer := None\<rparr>) = (sel, w2)" by fastforce
  note w2 = take_busy_frame [of now "w\<lparr>heartbeat_timer := None\<rparr>", unfolded take snd_conv]
  show ?thesis
    using assms w2
    by (auto simp: heartbeat_timer_fires_def take run_regular_round_def run_busy_retry_def Let_def
        intro!: same split: option.split)
qed

lemma windows_ok_round:
  assumes "windows_ok claims w" shows "windows_ok claims (round_answered cfg k now random statuses w)"
proof (cases "k < length (pending_rounds w)")
  case True
  let ?r = "pending_rounds w ! k"
  obtain busy w1 where fold: "fold (answer_lease now (round_sent_at ?r) statuses) (round_leases ?r) ([], drop_round k w) = (busy, w1)"
    by fastforce
  have "?r \<in> set (sent_rounds w)" using assms True by (auto simp: windows_ok_def)
  moreover have "windows_ok claims (drop_round k w)"
    by (rule windows_ok_frame [OF assms]) (auto simp: drop_round_def dest: in_set_takeD in_set_dropD)
  ultimately have "windows_ok claims w1"
    using windows_ok_answers [of claims "([], drop_round k w)" ?r "round_leases ?r" now statuses] fold
    by (simp add: drop_round_def)
  then show ?thesis
    using True fold
    by (auto simp: round_answered_def round_settles_def Let_def elim!: windows_ok_frame)
qed (use assms in \<open>simp add: round_answered_def\<close>)

lemma windows_ok_step:
  assumes "windows_ok claims w" shows "windows_ok (claims @ claim_times [e]) (heartbeats_step cfg e w)"
proof (cases e)
  case (Attempt_Called i a)
  then show ?thesis
    using assms window_step [of _ _ a]
    by (auto simp: windows_ok_def intro!: windows_ok_call)
next
  case (Round_Failed k now)
  then show ?thesis
    using windows_ok_frame [OF assms]
    by (auto simp: round_failed_def round_settles_def drop_round_def assms intro!: windows_ok_frame [OF assms]
        dest: in_set_takeD in_set_dropD)
qed (use assms in \<open>auto simp: windows_ok_arrival windows_ok_timer windows_ok_round intro!: windows_ok_frame [OF assms]\<close>)

lemma windows_ok_run: "windows_ok (claim_times es) (heartbeats_run cfg es)"
proof (induction es rule: rev_induct)
  case Nil
  then show ?case by (simp add: windows_ok_def no_heartbeats_def)
next
  case (snoc e es)
  then show ?case using windows_ok_step [of "claim_times es" _ e cfg] by (simp add: claim_times_append)
qed

section \<open>Busy retries\<close>

lemma fold_min_le: "fold min xs (a :: real) \<le> a" "x \<in> set xs \<Longrightarrow> fold min xs a \<le> x"
proof (induction xs arbitrary: a)
  case (Cons y ys)
  { case 1
    then show ?case using Cons.IH(1) [of "min y a"] by simp }
  { case 2
    then show ?case using Cons.IH(1) [of "min y a"] Cons.IH(2) [of "min y a"] by auto }
qed simp_all

lemma retry_bound_le:
  assumes "1 < retry_bound_ms cfg sent_at selection w"
  shows "x \<in> set (((case next_heartbeat_at w of None \<Rightarrow> sent_at + heartbeat_interval cfg | Some t \<Rightarrow> t) - sent_at) #
           map (\<lambda>i. lease_ends_or sent_at w i - sent_at) selection) \<Longrightarrow> retry_bound_ms cfg sent_at selection w \<le> x"
    and "retry_bound_ms cfg sent_at selection w \<le> heartbeat_round_bound_ms (heartbeat_interval cfg)"
proof -
  let ?xs = "((case next_heartbeat_at w of None \<Rightarrow> sent_at + heartbeat_interval cfg | Some t \<Rightarrow> t) - sent_at) #
      map (\<lambda>i. lease_ends_or sent_at w i - sent_at) selection"
  let ?m = "fold min ?xs (heartbeat_round_bound_ms (heartbeat_interval cfg))"
  have "1 < max 1 y \<Longrightarrow> max 1 y = y" for y :: real by auto
  then have "retry_bound_ms cfg sent_at selection w = of_int \<lfloor>?m\<rfloor>"
    using assms unfolding retry_bound_ms_def by blast
  then have le: "retry_bound_ms cfg sent_at selection w \<le> ?m" by (simp only: of_int_floor_le)
  show "x \<in> set ?xs \<Longrightarrow> retry_bound_ms cfg sent_at selection w \<le> x"
    using le fold_min_le(2) order_trans by blast
  show "retry_bound_ms cfg sent_at selection w \<le> heartbeat_round_bound_ms (heartbeat_interval cfg)"
    using le fold_min_le(1) order_trans by blast
qed

lemma take_busy_retry_Some:
  assumes "take_busy_retry now w = (Some selection, w2)"
  shows "next_heartbeat_at w \<noteq> None \<and>
         (\<forall>i \<in> set selection. i \<in> set (the (busy_retry_leases w)) \<and> is_registered w i \<and>
            lease_window_ends_at (attempts w i) \<noteq> None)"
  using assms by (auto simp: take_busy_retry_def Let_def split: option.splits if_splits)

section \<open>Properties\<close>

text \<open>
  C16. A registered lease is never left without a heartbeat: after any sequence of claims, answers,
  failures, timers and stops, a worker that has a lease has a round under way or a timer that fires not
  later than the next slot. It never has two rounds under way, and no timer runs during a round or
  without a lease.
\<close>

theorem heartbeat_rounds_scheduled:
  "let w = heartbeats_run cfg es in
   length (pending_rounds w) \<le> 1 \<and> (heartbeat_in_flight w \<longleftrightarrow> pending_rounds w \<noteq> []) \<and>
   (leases w \<noteq> [] \<longrightarrow>
      (\<exists>slot. next_heartbeat_at w = Some slot \<and>
         (heartbeat_in_flight w \<or> (\<exists>due \<le> slot. heartbeat_timer w = Some due)))) \<and>
   (heartbeat_timer w \<noteq> None \<longrightarrow> leases w \<noteq> [] \<and> \<not> heartbeat_in_flight w)"
proof -
  have ok: "rounds_ok_w (heartbeats_run cfg es)" by (rule heartbeats_run_ok)
  show ?thesis
    using ok by (auto simp: rounds_ok_w_def slot_ok_def Let_def split: if_splits)
qed

text \<open>A lease that is not registered gets nothing from the answer of a round.\<close>

definition left_alone :: "nat \<Rightarrow> attempt \<Rightarrow> heartbeats \<Rightarrow> bool" where
  "left_alone i a w \<longleftrightarrow> map_of (leases w) (task_id (claimed a)) \<noteq> Some i \<and> attempts w i = a"

lemma left_alone_iff: "left_alone i a w \<longleftrightarrow> \<not> is_registered w i \<and> attempts w i = a"
  by (auto simp: left_alone_def is_registered_def lease_key_def)

lemma map_of_without_key: "map_of (filter (\<lambda>e. fst e \<noteq> k) ls) k' = (if k' = k then None else map_of ls k')"
  by (induction ls) auto

lemma left_alone_remove: "left_alone i a w \<Longrightarrow> left_alone i a (remove_lease j w)"
  by (simp add: left_alone_def remove_lease_def release_heartbeat_channel_def Let_def map_of_without_key)

lemma left_alone_call: "left_alone i a w \<Longrightarrow> i \<noteq> j \<Longrightarrow> left_alone i a (on_lease_attempt j f w)"
proof -
  assume "left_alone i a w" "i \<noteq> j"
  then have "left_alone i a (w\<lparr>attempts := (attempts w)(j := a')\<rparr>)" for a'
    by (simp add: left_alone_def)
  then show ?thesis
    by (simp add: on_lease_attempt_def Let_def left_alone_remove)
qed

lemma left_alone_answer: "left_alone i a (snd bw) \<Longrightarrow> left_alone i a (snd (answer_lease now sent_at statuses j bw))"
proof (cases bw)
  case (Pair busy w)
  moreover assume "left_alone i a (snd bw)"
  moreover have "i \<noteq> j" if "is_registered w j"
    using calculation that by (auto simp: left_alone_iff)
  ultimately show ?thesis
    by (auto simp: answer_lease_def Let_def left_alone_call)
qed

lemma left_alone_schedule: "left_alone i a w \<Longrightarrow> left_alone i a (schedule_heartbeat_batch cfg now w)"
  by (simp add: left_alone_def schedule_heartbeat_batch_def Let_def)

lemma left_alone_fields:
  "left_alone i a (w\<lparr>busy_retry_leases := b, busy_retry_at := t\<rparr>) = left_alone i a w"
  "left_alone i a (w\<lparr>heartbeat_in_flight := f\<rparr>) = left_alone i a w"
  "left_alone i a (drop_round k w) = left_alone i a w"
  by (simp_all add: left_alone_def drop_round_def)

lemma left_alone_answers:
  "left_alone i a (snd bw) \<Longrightarrow> left_alone i a (snd (fold (answer_lease now sent_at statuses) ls bw))"
  by (induction ls arbitrary: bw) (simp_all add: left_alone_answer)

lemma left_alone_round:
  assumes "left_alone i a w" shows "left_alone i a (round_answered cfg k now random statuses w)"
proof -
  let ?r = "pending_rounds w ! k"
  obtain busy w1 where
    f: "fold (answer_lease now (round_sent_at ?r) statuses) (round_leases ?r) ([], drop_round k w) = (busy, w1)"
    by (rule prod.exhaust)
  have "left_alone i a w1"
    using left_alone_answers [of i a "([], drop_round k w)" now "round_sent_at ?r" statuses "round_leases ?r"] assms
    by (simp add: f left_alone_fields)
  then show ?thesis
    using assms by (simp add: round_answered_def round_settles_def f left_alone_fields left_alone_schedule)
qed

text \<open>
  C24. A heartbeat counts only for the lease it was sent for: the local lease window of an attempt ends
  one lease after its own claim left, or one lease after a round left that carried the lease object of
  this very attempt. The answer of a round changes nothing of an attempt whose lease left the worker or
  was replaced by another lease of the same task while the round ran.
\<close>

theorem lease_window_of_own_round:
  assumes "w = heartbeats_run cfg es" and "i < next_lease w"
  shows "(\<forall>ends. lease_window_ends_at (attempts w i) = Some ends \<longrightarrow>
            (\<exists>t. ends = t + lease_ms (attempts w i) \<and>
               (t = claim_times es ! i \<or>
                (\<exists>r \<in> set (sent_rounds w). i \<in> set (round_leases r) \<and> t = round_sent_at r)))) \<and>
         (\<not> is_registered w i \<longrightarrow> attempts (round_answered cfg k now random statuses w) i = attempts w i)"
proof (intro conjI impI)
  have "window_from (opening_times (claim_times es) (sent_rounds w) i) (attempts w i)"
    using windows_ok_run [of es cfg] assms by (simp add: windows_ok_def)
  then show "\<forall>ends. lease_window_ends_at (attempts w i) = Some ends \<longrightarrow>
      (\<exists>t. ends = t + lease_ms (attempts w i) \<and>
         (t = claim_times es ! i \<or>
          (\<exists>r \<in> set (sent_rounds w). i \<in> set (round_leases r) \<and> t = round_sent_at r)))"
    by (auto simp: window_from_def opening_times_def)
  assume "\<not> is_registered w i"
  then have "left_alone i (attempts w i) (round_answered cfg k now random statuses w)"
    by (intro left_alone_round) (simp add: left_alone_iff)
  then show "attempts (round_answered cfg k now random statuses w) i = attempts w i"
    by (simp add: left_alone_iff)
qed

definition sample_heartbeats :: heartbeat_config where
  "sample_heartbeats = \<lparr>heartbeat_interval = 10000, lease_duration = 30000, lends_channel = True\<rparr>"

definition sample_heartbeat_task :: claimed_task where
  "sample_heartbeat_task =
     \<lparr>task_id = ''task'', task_attempt = 1, deadline_at = None, attempt_timeout_at = None, lease_expires_at = 30000\<rparr>"

definition sample_heartbeat_events :: "heartbeats_event list" where
  "sample_heartbeat_events =
     [Worker_Runs True, Lease_Added sample_heartbeat_task 0 5, Heartbeat_Timer 10005 10006 10006,
      Round_Answered 0 10020 0 (\<lambda>_. Some Hb_Accepted)]"

lemmas heartbeats_eval =
  sample_heartbeats_def sample_heartbeat_task_def sample_heartbeat_events_def no_heartbeats_def no_task_def
  add_heartbeat_lease_def reserved_heartbeat_channel_def schedule_heartbeat_batch_def heartbeat_timer_fires_def
  run_regular_round_def send_round_def round_answered_def round_settles_def drop_round_def answer_lease_def
  status_of_def is_registered_def lease_key_def on_lease_attempt_def refresh_ownership_def new_attempt_def
  blank_attempt_def expiration_at_def earliest_def renew_lease_def window_over_def Let_def

theorem heartbeat_rounds_scheduled_witness:
  "leases (heartbeats_run sample_heartbeats sample_heartbeat_events) \<noteq> [] \<and>
   heartbeat_timer (heartbeats_run sample_heartbeats sample_heartbeat_events) \<noteq> None"
proof -
  let ?w = "heartbeats_run sample_heartbeats sample_heartbeat_events"
  have "leases ?w \<noteq> []" "\<not> heartbeat_in_flight ?w" by (simp_all add: heartbeats_eval)
  then show ?thesis
    using heartbeat_rounds_scheduled [of sample_heartbeats sample_heartbeat_events] by (auto simp: Let_def)
qed

theorem lease_window_of_own_round_witness:
  "\<exists>t. 40006 = t + lease_ms (attempts (heartbeats_run sample_heartbeats sample_heartbeat_events) 0) \<and> t \<noteq> 0"
proof -
  let ?w = "heartbeats_run sample_heartbeats sample_heartbeat_events"
  have "0 < next_lease ?w" "lease_window_ends_at (attempts ?w 0) = Some 40006" "lease_ms (attempts ?w 0) = 30000"
    by (simp_all add: heartbeats_eval)
  then show ?thesis
    using lease_window_of_own_round [OF refl, of 0 sample_heartbeats sample_heartbeat_events 0 0 0 "\<lambda>_. None"] by auto
qed

text \<open>
  C25. A busy retry stays in its bounds: it takes its leases from the leases that the last round found
  busy, does not move the next regular slot, and on the reserved connection it has at least the time a
  round needs and ends before that slot and before the lease window of each lease it renews.
\<close>

theorem busy_retry_in_bounds:
  assumes "heartbeat_timer_fires cfg now sent_at later w = w'"
    and "sent_rounds w' = sent_rounds w @ [r]" and "round_is_retry r" and "channel_held w'"
  shows "next_heartbeat_at w' = next_heartbeat_at w \<and>
         set (round_leases r) \<subseteq> set (the (busy_retry_leases w)) \<and>
         BUSY_RETRY_MINIMUM_MS \<le> round_bound r \<and>
         round_bound r \<le> heartbeat_round_bound_ms (heartbeat_interval cfg) \<and>
         sent_at + round_bound r \<le> the (next_heartbeat_at w) \<and>
         (\<forall>i \<in> set (round_leases r). is_registered w i \<and>
            sent_at + round_bound r \<le> the (lease_window_ends_at (attempts w i)))"
proof -
  let ?w1 = "w\<lparr>heartbeat_timer := None\<rparr>"
  obtain sel w2 where take: "take_busy_retry now ?w1 = (sel, w2)" by fastforce
  note w2 = take_busy_frame [of now ?w1, unfolded take snd_conv]
  let ?w3 = "reserved_heartbeat_channel cfg (w2\<lparr>heartbeat_in_flight := True, busy_retry_leases := None\<rparr>)"
  have "sel \<noteq> None \<and> w' = send_round r ?w3 \<and>
      r = \<lparr>round_leases = the sel, round_sent_at = sent_at, round_bound = retry_bound_ms cfg sent_at (the sel) ?w3,
           round_is_retry = True\<rparr> \<and> BUSY_RETRY_MINIMUM_MS \<le> retry_bound_ms cfg sent_at (the sel) ?w3"
    using assms w2
    by (auto simp: heartbeat_timer_fires_def take run_regular_round_def run_busy_retry_def send_round_def Let_def
        split: option.splits if_splits)
  then obtain selection where sel: "sel = Some selection" and w': "w' = send_round r ?w3"
    and r: "round_leases r = selection" "round_bound r = retry_bound_ms cfg sent_at selection ?w3"
    and bound: "BUSY_RETRY_MINIMUM_MS \<le> round_bound r"
    by auto
  obtain slot where slot: "next_heartbeat_at w = Some slot"
    and selected: "i \<in> set selection \<Longrightarrow> i \<in> set (the (busy_retry_leases w)) \<and> is_registered w i \<and>
      lease_window_ends_at (attempts w i) \<noteq> None" for i
    using take_busy_retry_Some [OF take [unfolded sel]] by (auto simp: is_registered_def lease_key_def)
  have "1 < retry_bound_ms cfg sent_at selection ?w3"
    using bound r(2) by (simp add: BUSY_RETRY_MINIMUM_MS_def MINIMUM_REMAINING_MS_def BUSY_RETRY_MARGIN_MS_def)
  note le = retry_bound_le [OF this, folded r(2)]
  have "round_bound r \<le> slot - sent_at" using le(1) [of "slot - sent_at"] slot w2 by simp
  moreover have "round_bound r \<le> the (lease_window_ends_at (attempts w i)) - sent_at" if "i \<in> set selection" for i
    using le(1) [of "lease_ends_or sent_at ?w3 i - sent_at"] that selected [OF that] w2
    by (auto simp: lease_ends_or_def)
  ultimately show ?thesis
    using bound le(2) slot selected w2 by (auto simp: w' r send_round_def algebra_simps)
qed

text \<open>A round that finds the lease of the task busy, and the retry after 50 ms.\<close>

definition sample_busy_events :: "heartbeats_event list" where
  "sample_busy_events =
     [Worker_Runs True, Lease_Added sample_heartbeat_task 0 5, Heartbeat_Timer 10005 10006 10006,
      Round_Answered 0 10020 0 (\<lambda>_. Some Hb_Busy)]"

theorem busy_retry_in_bounds_witness:
  "\<exists>r. round_is_retry r \<and> round_leases r = [0] \<and> 10121 + round_bound r \<le> 20006 \<and>
     sent_rounds (heartbeat_timer_fires sample_heartbeats 10120 10121 10121 (heartbeats_run sample_heartbeats sample_busy_events)) =
     sent_rounds (heartbeats_run sample_heartbeats sample_busy_events) @ [r]"
proof -
  let ?w = "heartbeats_run sample_heartbeats sample_busy_events"
  let ?w' = "heartbeat_timer_fires sample_heartbeats 10120 10121 10121 ?w"
  have bound: "\<lfloor>7500 :: real\<rfloor> = 7500" by simp
  have "\<exists>r. sent_rounds ?w' = sent_rounds ?w @ [r] \<and> round_is_retry r \<and> round_leases r = [0]" "channel_held ?w'"
    "next_heartbeat_at ?w = Some 20006"
    by (simp_all add: heartbeats_eval sample_busy_events_def take_busy_retry_def run_busy_retry_def retry_bound_ms_def
        busy_retry_delay_ms_def BUSY_RETRY_BASE_MS_def heartbeat_round_bound_ms_def lease_ends_or_def
        BUSY_RETRY_MINIMUM_MS_def BUSY_RETRY_MARGIN_MS_def MINIMUM_REMAINING_MS_def)
  then obtain r where r: "sent_rounds ?w' = sent_rounds ?w @ [r]" "round_is_retry r" "round_leases r = [0]" by blast
  have "10121 + round_bound r \<le> the (next_heartbeat_at ?w)"
    using busy_retry_in_bounds [OF refl r(1,2) \<open>channel_held ?w'\<close>] by simp
  then show ?thesis using r \<open>next_heartbeat_at ?w = Some 20006\<close> by auto
qed

end
