(* ===== verification/Worker_Claims.thy ===== *)
theory Worker_Claims
  imports Workhorse_Prelude
begin

text \<open>
  A claim pass of a worker, \<^verbatim>\<open>claimNextMany\<close> and the methods it calls in \<^verbatim>\<open>worker.ts\<close>: the worker goes round its
  queues, keeps in mind which of them are on the fast tier, and gives back what it claimed together
  with the error that ended the pass.

  The queue of the worker is a parameter: which optional methods it has, and what it answers or throws.
  An answer can depend on how many times the environment was asked before, \<open>asked\<close>, so it can be
  different every time; the clock and the heartbeat gate are read in the same way.
\<close>

section \<open>Data\<close>

datatype claim_error = Heartbeat_Gate_Closed | Fast_Tier_Unsupported | Claim_Failed string

text \<open>The statements of a pass with their answers.\<close>

datatype 't claim_statement =
    Tier_Read string "(claim_error, bool) result"
  | Claim_One string "(claim_error, 't option) result"
  | Claim_Fast string int "(claim_error, 't list) result"
  | Claim_Many string int "(claim_error, 't list) result"

record 't claim_env =
  queue_names :: "string list"
  has_claim_many :: bool
  has_claim_fast :: bool
  has_tier_read :: bool
  clock_at :: "nat \<Rightarrow> real"
  gate_open_at :: "nat \<Rightarrow> bool"
  claim_one_at :: "nat \<Rightarrow> (claim_error, 't option) result"
  claim_fast_at :: "nat \<Rightarrow> (claim_error, 't list) result"
  claim_many_at :: "nat \<Rightarrow> (claim_error, 't list) result"
  tier_read_at :: "nat \<Rightarrow> (claim_error, bool) result"

record 't claims =
  asked :: nat
  next_queue_index :: nat
  full_tier_until :: "string \<rightharpoonup> real"
  fast_tier_queues :: "string list"
  claim_sent_at :: "('t \<times> real) list"
  fast_tasks :: "'t list"
  tier_reads :: "('t \<times> string) list"
  statements :: "'t claim_statement list"

definition TIER_PROBE_INTERVAL_MS :: real where
  "TIER_PROBE_INTERVAL_MS = 30000"

type_synonym ('t, 'a) claim_action = "('t claims, claim_error, 'a) action"

section \<open>Asking the environment\<close>

definition consult :: "(nat \<Rightarrow> 'b) \<Rightarrow> ('t, 'b) claim_action" where
  "consult f s = (Inr (f (asked s)), s\<lparr>asked := asked s + 1\<rparr>)"

definition send :: "((claim_error, 'b) result \<Rightarrow> 't claim_statement) \<Rightarrow> (nat \<Rightarrow> (claim_error, 'b) result) \<Rightarrow> ('t, 'b) claim_action" where
  "send entry f s = (f (asked s), s\<lparr>asked := asked s + 1, statements := statements s @ [entry (f (asked s))]\<rparr>)"

section \<open>One queue\<close>

definition reads_fast_tier :: "'t claim_env \<Rightarrow> string \<Rightarrow> ('t, bool) claim_action" where
  "reads_fast_tier env q =
     act_read (\<lambda>s. if q \<in> set (fast_tier_queues s) \<or> \<not> has_tier_read env then act_return True
                    else send (Tier_Read q) (tier_read_at env))"

definition mark_full_tier :: "string \<Rightarrow> real \<Rightarrow> 't claims \<Rightarrow> 't claims" where
  "mark_full_tier q probed s =
     s\<lparr>full_tier_until := (full_tier_until s)(q \<mapsto> probed + TIER_PROBE_INTERVAL_MS),
       fast_tier_queues := removeAll q (fast_tier_queues s)\<rparr>"

definition mark_fast_tier :: "string \<Rightarrow> 't claims \<Rightarrow> 't claims" where
  "mark_fast_tier q s =
     s\<lparr>full_tier_until := (full_tier_until s)(q := None), fast_tier_queues := List.insert q (fast_tier_queues s)\<rparr>"

text \<open>The fast claim: its tasks, or nothing when PostgreSQL answered that the queue is on the full tier.\<close>

definition try_fast_claim :: "'t claim_env \<Rightarrow> string \<Rightarrow> int \<Rightarrow> real \<Rightarrow> ('t, 't list option) claim_action" where
  "try_fast_claim env q most probed =
     act_catch
       (act_bind (send (Claim_Fast q most) (claim_fast_at env))
         (\<lambda>tasks. act_then (act_update (\<lambda>s. (mark_fast_tier q s)\<lparr>fast_tasks := fast_tasks s @ tasks\<rparr>))
            (act_return (Some tasks))))
       (\<lambda>error. if error = Fast_Tier_Unsupported
                then act_then (act_update (mark_full_tier q probed)) (act_return None)
                else act_throw error)"

definition track_full_tier_claim :: "'t claim_env \<Rightarrow> string \<Rightarrow> 't list \<Rightarrow> 't claims \<Rightarrow> 't claims" where
  "track_full_tier_claim env q tasks s =
     (if has_tier_read env then s\<lparr>tier_reads := tier_reads s @ map (\<lambda>t. (t, q)) tasks\<rparr> else s)"

definition full_claim :: "'t claim_env \<Rightarrow> string \<Rightarrow> int \<Rightarrow> ('t, 't list) claim_action" where
  "full_claim env q most =
     act_bind (send (Claim_Many q most) (claim_many_at env))
       (\<lambda>tasks. act_then (act_update (if tasks = [] then id else track_full_tier_claim env q tasks))
          (act_return tasks))"

definition remember_sent :: "real \<Rightarrow> 't list \<Rightarrow> 't claims \<Rightarrow> 't claims" where
  "remember_sent sent tasks s = s\<lparr>claim_sent_at := claim_sent_at s @ map (\<lambda>t. (t, sent)) tasks\<rparr>"

definition sent_tasks :: "real \<Rightarrow> 't list \<Rightarrow> ('t, 't list) claim_action" where
  "sent_tasks sent tasks = act_then (act_update (remember_sent sent tasks)) (act_return tasks)"

text \<open>The claim after the tier is known; a rejected fast claim is followed by a full one.\<close>

definition claim_on_tier :: "'t claim_env \<Rightarrow> string \<Rightarrow> int \<Rightarrow> int \<Rightarrow> real \<Rightarrow> bool \<Rightarrow> ('t, 't list) claim_action" where
  "claim_on_tier env q most fast_most probed fast =
     act_bind (consult (clock_at env))
       (\<lambda>sent. if \<not> fast then act_bind (full_claim env q most) (sent_tasks sent)
               else act_bind (try_fast_claim env q (min most fast_most) probed)
                 (\<lambda>tasks. case tasks of
                    Some ts \<Rightarrow> sent_tasks sent ts
                  | None \<Rightarrow> act_bind (consult (clock_at env))
                              (\<lambda>sent'. act_bind (full_claim env q most) (sent_tasks sent'))))"

definition claim_from_queue :: "'t claim_env \<Rightarrow> string \<Rightarrow> int \<Rightarrow> int \<Rightarrow> ('t, 't list) claim_action" where
  "claim_from_queue env q most fast_most =
     act_bind (consult (clock_at env))
       (\<lambda>probed. act_read (\<lambda>s.
          let fast = has_claim_fast env \<and> (case full_tier_until s q of None \<Rightarrow> 0 | Some t \<Rightarrow> t) \<le> probed in
          if fast \<and> fast_most \<le> 0 then act_return []
          else if \<not> fast then claim_on_tier env q most fast_most probed False
          else act_bind (reads_fast_tier env q)
                 (\<lambda>is_fast. if is_fast then claim_on_tier env q most fast_most probed True
                             else act_then (act_update (mark_full_tier q probed))
                                    (claim_on_tier env q most fast_most probed False))))"

section \<open>A pass\<close>

definition next_queue :: "'t claim_env \<Rightarrow> ('t, string) claim_action" where
  "next_queue env =
     act_read (\<lambda>s. act_then
       (act_update (\<lambda>s. s\<lparr>next_queue_index := (next_queue_index s + 1) mod length (queue_names env)\<rparr>))
       (act_return (queue_names env ! next_queue_index s)))"

text \<open>
  A pass ends with the tasks so far and, unless only the gate closed, with the error. \<open>left\<close> is the
  number of queues the pass has not checked.
\<close>

type_synonym 't claim_attempt = "'t list \<times> claim_error option"

definition pass_error :: "claim_error \<Rightarrow> claim_error option" where
  "pass_error error = (if error = Heartbeat_Gate_Closed then None else Some error)"

fun claim_queues ::
  "'t claim_env \<Rightarrow> int \<Rightarrow> int \<Rightarrow> nat \<Rightarrow> 't list \<Rightarrow> 't claims \<Rightarrow> 't claim_attempt \<times> 't claims" where
  "claim_queues env most fast_most 0 tasks s = ((tasks, None), s)"
| "claim_queues env most fast_most (Suc left) tasks s =
     (if most \<le> int (length tasks) then ((tasks, None), s)
      else case consult (gate_open_at env) s of
        (Inr False, s1) \<Rightarrow> ((tasks, None), s1)
      | (_, s1) \<Rightarrow>
          (case act_bind (next_queue env)
                  (\<lambda>q. claim_from_queue env q (most - int (length tasks)) (fast_most - int (length tasks))) s1 of
             (Inl error, s2) \<Rightarrow> ((tasks, pass_error error), s2)
           | (Inr claimed, s2) \<Rightarrow> claim_queues env most fast_most left (tasks @ claimed) s2))"

text \<open>The pass of a queue without \<^verbatim>\<open>claimMany\<close>: one task at a time until every queue in turn was empty.\<close>

function claim_singly ::
  "'t claim_env \<Rightarrow> int \<Rightarrow> nat \<Rightarrow> 't list \<Rightarrow> 't claims \<Rightarrow> 't claim_attempt \<times> 't claims" where
  "claim_singly env most empty_queues tasks s =
     (if most \<le> int (length tasks) \<or> length (queue_names env) \<le> empty_queues then ((tasks, None), s)
      else case consult (gate_open_at env) s of
        (Inr False, s1) \<Rightarrow> ((tasks, None), s1)
      | (_, s1) \<Rightarrow>
          (case act_bind (next_queue env)
                  (\<lambda>q. act_bind (consult (clock_at env))
                     (\<lambda>sent. act_bind (send (Claim_One q) (claim_one_at env))
                        (\<lambda>task. case task of
                           None \<Rightarrow> act_return None
                         | Some t \<Rightarrow> act_then (act_update (remember_sent sent [t])) (act_return (Some t))))) s1 of
             (Inl error, s2) \<Rightarrow> ((tasks, pass_error error), s2)
           | (Inr None, s2) \<Rightarrow> claim_singly env most (empty_queues + 1) tasks s2
           | (Inr (Some t), s2) \<Rightarrow> claim_singly env most 0 (tasks @ [t]) s2))"
  by pat_completeness auto
termination
  by (relation "measures [\<lambda>(_, most, _, tasks, _). nat (most - int (length tasks)),
      \<lambda>(env, _, empty_queues, _, _). length (queue_names env) - empty_queues]") auto

declare claim_singly.simps [simp del]

definition claim_next_many ::
  "'t claim_env \<Rightarrow> int \<Rightarrow> int \<Rightarrow> 't claims \<Rightarrow> 't claim_attempt \<times> 't claims" where
  "claim_next_many env most fast_most s =
     (if has_claim_many env then claim_queues env most fast_most (length (queue_names env)) [] s
      else claim_singly env most 0 [] s)"

definition no_claims :: "'t claims" where
  "no_claims = \<lparr>asked = 0, next_queue_index = 0, full_tier_until = (\<lambda>_. None), fast_tier_queues = [],
     claim_sent_at = [], fast_tasks = [], tier_reads = [], statements = []\<rparr>"

end
