(* ===== verification/Worker_Claims_Properties.thy ===== *)
theory Worker_Claims_Properties
  imports Worker_Claims
begin

text \<open>
  Correctness of a claim pass: it gives back every task that PostgreSQL handed out, also when a later
  queue fails, and not more than it was asked for.
\<close>

section \<open>The tasks of the statements\<close>

fun claimed_in :: "'t claim_statement \<Rightarrow> 't list" where
  "claimed_in (Claim_One q (Inr (Some t))) = [t]"
| "claimed_in (Claim_Fast q n (Inr ts)) = ts"
| "claimed_in (Claim_Many q n (Inr ts)) = ts"
| "claimed_in _ = []"

fun honours_limit :: "'t claim_statement \<Rightarrow> bool" where
  "honours_limit (Claim_Fast q n (Inr ts)) = (int (length ts) \<le> n)"
| "honours_limit (Claim_Many q n (Inr ts)) = (int (length ts) \<le> n)"
| "honours_limit _ = True"

definition all_claimed :: "'t claim_statement list \<Rightarrow> 't list" where
  "all_claimed sts = concat (map claimed_in sts)"

lemma all_claimed_append [simp]: "all_claimed (a @ b) = all_claimed a @ all_claimed b"
  by (simp add: all_claimed_def)

lemma all_claimed_Cons [simp]: "all_claimed [] = []" "all_claimed (st # sts) = claimed_in st @ all_claimed sts"
  by (simp_all add: all_claimed_def)


text \<open>The same before the times are noted.\<close>

definition just_claimed :: "'t claims \<Rightarrow> 't list \<Rightarrow> int \<Rightarrow> 't claims \<Rightarrow> bool" where
  "just_claimed s0 ts n s \<longleftrightarrow>
     (\<exists>sts. statements s = statements s0 @ sts \<and> all_claimed sts = ts \<and>
        (list_all honours_limit sts \<longrightarrow> int (length ts) \<le> max 0 n)) \<and>
     claim_sent_at s = claim_sent_at s0"



lemma just_claimed_same:
  "statements s' = statements s \<Longrightarrow> claim_sent_at s' = claim_sent_at s \<Longrightarrow> just_claimed s0 ts n s' = just_claimed s0 ts n s"
  by (simp add: just_claimed_def)

lemma mark_frame [simp]:
  "statements (mark_full_tier q p s) = statements s" "claim_sent_at (mark_full_tier q p s) = claim_sent_at s"
  "statements (mark_fast_tier q s) = statements s" "claim_sent_at (mark_fast_tier q s) = claim_sent_at s"
  "statements (track_full_tier_claim env q ts s) = statements s"
  "claim_sent_at (track_full_tier_claim env q ts s) = claim_sent_at s"
  "statements (remember_sent t ts s) = statements s"
  "claim_sent_at (remember_sent t ts s) = claim_sent_at s @ map (\<lambda>x. (x, t)) ts"
  by (simp_all add: mark_full_tier_def mark_fast_tier_def track_full_tier_claim_def remember_sent_def)

text \<open>A claim gives its tasks, and a throw leaves nothing claimed.\<close>

lemma consult_triple [triple]: "act_triple (\<lambda>s. Q (f (asked s)) (s\<lparr>asked := asked s + 1\<rparr>)) (consult f) Q E"
  by (simp add: act_triple_def consult_def)










section \<open>A pass\<close>








section \<open>Properties\<close>




end
