(* ===== verification/Handler_Context.thy ===== *)
theory Handler_Context
  imports Task_Attempt_Expiry
begin

text \<open>
  The durable operations of one handler activation, \<^verbatim>\<open>handler-context.ts\<close>. A handler can call them
  concurrently: a call whose name is in flight joins the execution of that name, and an execution asks
  the attempt for its lease before it runs an operation or sends a statement.

  Each continuation of the code is one event, so that a call can come between the end of an execution
  and the \<^verbatim>\<open>finally\<close> that forgets it, or between a loaded checkpoint list and the execution that reads
  it. An execution is named by its position. The requests \<^verbatim>\<open>'q\<close>, the JSON values \<^verbatim>\<open>'v\<close> and the wait
  rows \<^verbatim>\<open>'w\<close> are what the queue takes and answers.
\<close>

section \<open>Operations and executions\<close>

text \<open>A human decision carries the JSON text of its context, which the code compares.\<close>

datatype 'q operation =
    Checkpoint string "string option"
  | Schedule_Wait string 'q
  | Wait_For_Signal string 'q
  | Wait_For_Human string string 'q
  | Run_Child string 'q
  | Run_Child_Set 'q

datatype in_flight_key =
  Checkpoint_Key string | Wait_Key string | Signal_Key string | Human_Key string | Child_Key string | Child_Set_Key

fun operation_key :: "'q operation \<Rightarrow> in_flight_key" where
  "operation_key (Checkpoint name _) = Checkpoint_Key name"
| "operation_key (Schedule_Wait name _) = Wait_Key name"
| "operation_key (Wait_For_Signal name _) = Signal_Key name"
| "operation_key (Wait_For_Human name _ _) = Human_Key name"
| "operation_key (Run_Child name _) = Child_Key name"
| "operation_key (Run_Child_Set _) = Child_Set_Key"

datatype context_error =
    CheckpointInputConflictError string string string
  | Human_Wait_In_Flight string
  | ChildConflictError string
  | FastTierUnsupportedError string string
  | Task_Groups_Unsupported
  | Thrown_Reason abort_reason
  | Queue_Error string
  | Operation_Error string

datatype 'v context_value = Returned 'v | Returned_Nothing

record 'v task_checkpoint =
  checkpoint_value :: 'v
  input_fingerprint :: "string option"

datatype 'v execution_phase =
    Awaiting_Checkpoints
  | Running_Operation
  | Awaiting_Statement
  | Ended "(context_error, 'v context_value) result"

record ('q, 'v) durable_execution =
  operation_of :: "'q operation"
  phase_of :: "'v execution_phase"

text \<open>A promise kept for the rest of the activation.\<close>

datatype 'a memo = Unread | Reading | Read 'a | Read_Failed string

datatype write_start = Starts nat | Progress_Write | Group_Write

text \<open>The tier of the task: durable, known to be fast, or read before each operation.\<close>

datatype fast_tier = Durable_Tier | Known_Fast_Tier | Tier_Read

text \<open>
  \<^verbatim>\<open>calls\<close> gives, for each call in order, the error it was refused with or the execution whose result
  it gets. \<^verbatim>\<open>writes\<close> lists what was begun after the attempt confirmed its lease.
\<close>

record ('q, 'v, 'w, 'p) handler_context =
  task_queue :: string
  fast_tier :: fast_tier
  context_attempt :: attempt
  checkpoints_load :: "(string \<rightharpoonup> 'v task_checkpoint) memo"
  waits_load :: "(string \<rightharpoonup> 'w) memo"
  progress_load :: "'p memo"
  executions :: "('q, 'v) durable_execution list"
  in_flight :: "in_flight_key \<rightharpoonup> nat"
  calls :: "(context_error, nat) result list"
  writes :: "write_start list"

definition create_handler_context :: "string \<Rightarrow> fast_tier \<Rightarrow> attempt \<Rightarrow> ('q, 'v, 'w, 'p) handler_context" where
  "create_handler_context queue tier a =
     \<lparr>task_queue = queue, fast_tier = tier, context_attempt = a, checkpoints_load = Unread, waits_load = Unread, progress_load = Unread,
      executions = [], in_flight = (\<lambda>_. None), calls = [], writes = []\<rparr>"

section \<open>Reads\<close>

fun memo_start :: "'a memo \<Rightarrow> 'a memo" where
  "memo_start Unread = Reading"
| "memo_start m = m"

fun memo_answer :: "(string, 'a) result \<Rightarrow> 'a memo \<Rightarrow> 'a memo" where
  "memo_answer (Inl err) Reading = Read_Failed err"
| "memo_answer (Inr a) Reading = Read a"
| "memo_answer _ m = m"

definition load_checkpoints :: "('q, 'v, 'w, 'p) handler_context \<Rightarrow> ('q, 'v, 'w, 'p) handler_context" where
  "load_checkpoints s = s\<lparr>checkpoints_load := memo_start (checkpoints_load s)\<rparr>"

definition load_waits :: "('q, 'v, 'w, 'p) handler_context \<Rightarrow> ('q, 'v, 'w, 'p) handler_context" where
  "load_waits s = s\<lparr>waits_load := memo_start (waits_load s)\<rparr>"

definition get_progress :: "('q, 'v, 'w, 'p) handler_context \<Rightarrow> ('q, 'v, 'w, 'p) handler_context" where
  "get_progress s = s\<lparr>progress_load := memo_start (progress_load s)\<rparr>"

text \<open>\<^verbatim>\<open>new Map(items)\<close>: the last item of a name wins.\<close>

definition map_of_items :: "(string \<times> 'a) list \<Rightarrow> string \<rightharpoonup> 'a" where
  "map_of_items items = map_of (rev items)"

definition checkpoints_listed ::
  "(string, (string \<times> 'v task_checkpoint) list) result \<Rightarrow>
   ('q, 'v, 'w, 'p) handler_context \<Rightarrow> ('q, 'v, 'w, 'p) handler_context" where
  "checkpoints_listed answer s =
     s\<lparr>checkpoints_load := memo_answer (map_sum id map_of_items answer) (checkpoints_load s)\<rparr>"

definition waits_listed ::
  "(string, (string \<times> 'w) list) result \<Rightarrow> ('q, 'v, 'w, 'p) handler_context \<Rightarrow> ('q, 'v, 'w, 'p) handler_context" where
  "waits_listed answer s = s\<lparr>waits_load := memo_answer (map_sum id map_of_items answer) (waits_load s)\<rparr>"

definition progress_read ::
  "(string, 'p) result \<Rightarrow> ('q, 'v, 'w, 'p) handler_context \<Rightarrow> ('q, 'v, 'w, 'p) handler_context" where
  "progress_read answer s = s\<lparr>progress_load := memo_answer answer (progress_load s)\<rparr>"

section \<open>Executions\<close>

text \<open>\<^verbatim>\<open>attempt.requireLease()\<close> before a write.\<close>

definition confirm_lease ::
  "real \<Rightarrow> write_start \<Rightarrow> ('q, 'v, 'w, 'p) handler_context \<Rightarrow>
   (abort_reason, unit) result \<times> ('q, 'v, 'w, 'p) handler_context" where
  "confirm_lease now w s =
     (case require_lease now (context_attempt s) of
        (Inl reason, a) \<Rightarrow> (Inl reason, s\<lparr>context_attempt := a\<rparr>)
      | (Inr _, a) \<Rightarrow> (Inr (), s\<lparr>context_attempt := a, writes := writes s @ [w]\<rparr>))"

definition set_phase_of ::
  "nat \<Rightarrow> 'v execution_phase \<Rightarrow> ('q, 'v, 'w, 'p) handler_context \<Rightarrow> ('q, 'v, 'w, 'p) handler_context" where
  "set_phase_of x p s = s\<lparr>executions := (executions s)[x := (executions s ! x)\<lparr>phase_of := p\<rparr>]\<rparr>"

text \<open>The lease check of an execution: it ends with the reason, or goes on to the given phase.\<close>

definition start_or_end ::
  "real \<Rightarrow> nat \<Rightarrow> 'v execution_phase \<Rightarrow> ('q, 'v, 'w, 'p) handler_context \<Rightarrow> ('q, 'v, 'w, 'p) handler_context" where
  "start_or_end now x p s =
     (case confirm_lease now (Starts x) s of
        (Inl reason, s1) \<Rightarrow> set_phase_of x (Ended (Inl (Thrown_Reason reason))) s1
      | (Inr _, s1) \<Rightarrow> set_phase_of x p s1)"

definition check_stored_input :: "string \<Rightarrow> string option \<Rightarrow> string option \<Rightarrow> (context_error, unit) result" where
  "check_stored_input name stored requested =
     (case (stored, requested) of
        (Some a, Some b) \<Rightarrow> guard_that (a = b) (CheckpointInputConflictError name a b)
      | _ \<Rightarrow> Inr ())"

text \<open>What a call checks against the execution in flight before it joins it.\<close>

fun check_pending :: "'q operation \<Rightarrow> 'q operation \<Rightarrow> (context_error, unit) result" where
  "check_pending (Checkpoint _ pending) (Checkpoint name requested) = check_stored_input name pending requested"
| "check_pending (Wait_For_Human _ pending _) (Wait_For_Human name requested _) =
     guard_that (pending = requested) (Human_Wait_In_Flight name)"
| "check_pending (Run_Child _ pending) (Run_Child name requested) =
     guard_that (pending = requested) (ChildConflictError name)"
| "check_pending (Run_Child_Set pending) (Run_Child_Set requested) =
     guard_that (pending = requested) (ChildConflictError ''child set'')"
| "check_pending _ _ = Inr ()"

definition begin_execution ::
  "real \<Rightarrow> nat \<Rightarrow> 'q operation \<Rightarrow> ('q, 'v, 'w, 'p) handler_context \<Rightarrow> ('q, 'v, 'w, 'p) handler_context" where
  "begin_execution now x op s =
     (case op of
        Checkpoint _ _ \<Rightarrow> load_checkpoints s
      | _ \<Rightarrow> start_or_end now x Awaiting_Statement s)"

definition durable_call ::
  "real \<Rightarrow> 'q operation \<Rightarrow> ('q, 'v, 'w, 'p) handler_context \<Rightarrow> ('q, 'v, 'w, 'p) handler_context" where
  "durable_call now op s =
     (case in_flight s (operation_key op) of
        Some x \<Rightarrow>
          s\<lparr>calls := calls s @
              [bind_result (check_pending (operation_of (executions s ! x)) op) (\<lambda>_. Inr x)]\<rparr>
      | None \<Rightarrow>
          let x = length (executions s) in
          begin_execution now x op
            (s\<lparr>executions := executions s @ [\<lparr>operation_of = op, phase_of = Awaiting_Checkpoints\<rparr>],
               in_flight := (in_flight s)(operation_key op \<mapsto> x),
               calls := calls s @ [Inr x]\<rparr>))"

text \<open>A checkpoint goes on when the list it awaits is there.\<close>

definition checkpoint_continues ::
  "real \<Rightarrow> nat \<Rightarrow> ('q, 'v, 'w, 'p) handler_context \<Rightarrow> ('q, 'v, 'w, 'p) handler_context" where
  "checkpoint_continues now x s =
     (case operation_of (executions s ! x) of
        Checkpoint name fingerprint \<Rightarrow>
          (case checkpoints_load s of
             Read cache \<Rightarrow>
               (case cache name of
                  Some existing \<Rightarrow>
                    set_phase_of x (Ended (bind_result (check_stored_input name (input_fingerprint existing) fingerprint)
                      (\<lambda>_. Inr (Returned (checkpoint_value existing))))) s
                | None \<Rightarrow> start_or_end now x Running_Operation s)
           | Read_Failed err \<Rightarrow> set_phase_of x (Ended (Inl (Queue_Error err))) s
           | _ \<Rightarrow> s)
      | _ \<Rightarrow> s)"

text \<open>The operation of a checkpoint ends; its value goes to \<^verbatim>\<open>saveCheckpoint\<close>.\<close>

definition checkpoint_operation_ends ::
  "nat \<Rightarrow> (string, 'v) result \<Rightarrow> ('q, 'v, 'w, 'p) handler_context \<Rightarrow> ('q, 'v, 'w, 'p) handler_context" where
  "checkpoint_operation_ends x ended s =
     (case ended of
        Inl err \<Rightarrow> set_phase_of x (Ended (Inl (Operation_Error err))) s
      | Inr _ \<Rightarrow> set_phase_of x Awaiting_Statement s)"

fun memo_set :: "string \<Rightarrow> 'a \<Rightarrow> (string \<rightharpoonup> 'a) memo \<Rightarrow> (string \<rightharpoonup> 'a) memo" where
  "memo_set name a (Read m) = Read (m(name \<mapsto> a))"
| "memo_set name a m = m"

text \<open>
  What the statement of an execution answers: the checkpoint as it is stored, the wait with whether it
  was scheduled now, or the payload or result of the others, none when the task has to wait for it.
\<close>

datatype ('v, 'w) statement_answer =
    Saved_Checkpoint "'v task_checkpoint"
  | Wait_Answer 'w bool
  | Payload_Answer "'v option"

definition suspended_result :: "suspension \<Rightarrow> attempt \<Rightarrow> (context_error, 'v context_value) result \<times> attempt" where
  "suspended_result k a = (case suspend k a of (reason, a1) \<Rightarrow> (Inl (Thrown_Reason reason), a1))"

definition payload_result ::
  "suspension \<Rightarrow> 'v option \<Rightarrow> attempt \<Rightarrow> (context_error, 'v context_value) result \<times> attempt" where
  "payload_result k payload a =
     (case payload of None \<Rightarrow> suspended_result k a | Some v \<Rightarrow> (Inr (Returned v), a))"

definition scheduled_wait_result :: "bool \<Rightarrow> attempt \<Rightarrow> (context_error, 'v context_value) result \<times> attempt" where
  "scheduled_wait_result scheduled a =
     (if scheduled
      then (case suspend_for_scheduled_wait a of (r, a1) \<Rightarrow> (map_sum Thrown_Reason (\<lambda>_. Returned_Nothing) r, a1))
      else (Inr Returned_Nothing, a))"

definition end_with ::
  "nat \<Rightarrow> (context_error, 'v context_value) result \<times> attempt \<Rightarrow>
   ('q, 'v, 'w, 'p) handler_context \<Rightarrow> ('q, 'v, 'w, 'p) handler_context" where
  "end_with x ra s = set_phase_of x (Ended (fst ra)) (s\<lparr>context_attempt := snd ra\<rparr>)"

fun answer_operation ::
  "nat \<Rightarrow> 'q operation \<Rightarrow> ('v, 'w) statement_answer \<Rightarrow>
   ('q, 'v, 'w, 'p) handler_context \<Rightarrow> ('q, 'v, 'w, 'p) handler_context" where
  "answer_operation x (Checkpoint name _) (Saved_Checkpoint saved) s =
     set_phase_of x (Ended (Inr (Returned (checkpoint_value saved))))
       (s\<lparr>checkpoints_load := memo_set name saved (checkpoints_load s)\<rparr>)"
| "answer_operation x (Schedule_Wait name _) (Wait_Answer w scheduled) s =
     end_with x (scheduled_wait_result scheduled (context_attempt s))
       (s\<lparr>waits_load := memo_set name w (waits_load s)\<rparr>)"
| "answer_operation x (Wait_For_Signal _ _) (Payload_Answer payload) s =
     end_with x (payload_result For_Wait payload (context_attempt s)) s"
| "answer_operation x (Wait_For_Human _ _ _) (Payload_Answer payload) s =
     end_with x (payload_result For_Wait payload (context_attempt s)) s"
| "answer_operation x (Run_Child _ _) (Payload_Answer payload) s =
     end_with x (payload_result For_Child payload (context_attempt s)) s"
| "answer_operation x (Run_Child_Set _) (Payload_Answer payload) s =
     end_with x (payload_result For_Child payload (context_attempt s)) s"
| "answer_operation _ _ _ s = s"

definition statement_answered ::
  "nat \<Rightarrow> (string, ('v, 'w) statement_answer) result \<Rightarrow>
   ('q, 'v, 'w, 'p) handler_context \<Rightarrow> ('q, 'v, 'w, 'p) handler_context" where
  "statement_answered x answer s =
     (case answer of
        Inl err \<Rightarrow> set_phase_of x (Ended (Inl (Queue_Error err))) s
      | Inr a \<Rightarrow> answer_operation x (operation_of (executions s ! x)) a s)"

text \<open>The \<^verbatim>\<open>finally\<close> of an execution that ended.\<close>

definition forget_execution :: "nat \<Rightarrow> ('q, 'v, 'w, 'p) handler_context \<Rightarrow> ('q, 'v, 'w, 'p) handler_context" where
  "forget_execution x s =
     (let key = operation_key (operation_of (executions s ! x)) in
      if in_flight s key = Some x then s\<lparr>in_flight := (in_flight s)(key := None)\<rparr> else s)"

section \<open>Progress and task groups\<close>

definition set_task_progress :: "real \<Rightarrow> ('q, 'v, 'w, 'p) handler_context \<Rightarrow> ('q, 'v, 'w, 'p) handler_context" where
  "set_task_progress now s = snd (confirm_lease now Progress_Write s)"

definition progress_updated :: "'p \<Rightarrow> ('q, 'v, 'w, 'p) handler_context \<Rightarrow> ('q, 'v, 'w, 'p) handler_context" where
  "progress_updated p s = s\<lparr>progress_load := Read p\<rparr>"

definition add_to_group ::
  "bool \<Rightarrow> real \<Rightarrow> ('q, 'v, 'w, 'p) handler_context \<Rightarrow>
   (context_error, unit) result \<times> ('q, 'v, 'w, 'p) handler_context" where
  "add_to_group supported now s =
     (if \<not> supported then (Inl Task_Groups_Unsupported, s)
      else case confirm_lease now Group_Write s of (r, s1) \<Rightarrow> (map_sum Thrown_Reason id r, s1))"

section \<open>The tier guard\<close>

text \<open>
  \<^verbatim>\<open>createHandlerContext\<close> wraps the operations of a task that may be in the fast tier. \<^verbatim>\<open>answer\<close> is the
  tier read, where the tier is read before the operation. The result is the refusal, or that the
  operation is called.
\<close>

definition tier_guard ::
  "fast_tier \<Rightarrow> string \<Rightarrow> string \<Rightarrow> (string, bool) result \<Rightarrow> (context_error, unit) result" where
  "tier_guard tier queue feature answer =
     (case tier of
        Durable_Tier \<Rightarrow> Inr ()
      | Known_Fast_Tier \<Rightarrow> Inl (FastTierUnsupportedError queue feature)
      | Tier_Read \<Rightarrow>
          (case answer of
             Inl err \<Rightarrow> Inl (Queue_Error err)
           | Inr fast \<Rightarrow> guard_that (\<not> fast) (FastTierUnsupportedError queue feature)))"

fun guarded_feature :: "'q operation \<Rightarrow> string" where
  "guarded_feature (Checkpoint _ _) = ''checkpoints''"
| "guarded_feature (Schedule_Wait _ _) = ''durable waits''"
| "guarded_feature (Wait_For_Signal _ _) = ''signal waits''"
| "guarded_feature (Wait_For_Human _ _ _) = ''human waits''"
| "guarded_feature (Run_Child _ _) = ''child tasks''"
| "guarded_feature (Run_Child_Set _) = ''child tasks''"

text \<open>
  What is checked before the tier: the size of a human context when the context is wrapped, and the
  options of a child set when the tier is read. \<^verbatim>\<open>checked\<close> is the result of that check.
\<close>

definition early_check :: "fast_tier \<Rightarrow> 'q operation \<Rightarrow> (string, unit) result \<Rightarrow> (context_error, unit) result" where
  "early_check tier op checked =
     (case op of
        Wait_For_Human _ _ _ \<Rightarrow> (if tier = Durable_Tier then Inr () else map_sum Queue_Error id checked)
      | Run_Child_Set _ \<Rightarrow> (if tier = Tier_Read then map_sum Queue_Error id checked else Inr ())
      | _ \<Rightarrow> Inr ())"

definition guarded_call ::
  "(string, unit) result \<Rightarrow> (string, bool) result \<Rightarrow> real \<Rightarrow> 'q operation \<Rightarrow>
   ('q, 'v, 'w, 'p) handler_context \<Rightarrow> ('q, 'v, 'w, 'p) handler_context" where
  "guarded_call checked answer now op s =
     (case bind_result (early_check (fast_tier s) op checked)
             (\<lambda>_. tier_guard (fast_tier s) (task_queue s) (guarded_feature op) answer) of
        Inl error \<Rightarrow> s\<lparr>calls := calls s @ [Inl error]\<rparr>
      | Inr _ \<Rightarrow> durable_call now op s)"

definition guarded_progress ::
  "(string, bool) result \<Rightarrow> real \<Rightarrow> ('q, 'v, 'w, 'p) handler_context \<Rightarrow> ('q, 'v, 'w, 'p) handler_context" where
  "guarded_progress answer now s =
     (case tier_guard (fast_tier s) (task_queue s) ''progress'' answer of
        Inl _ \<Rightarrow> s
      | Inr _ \<Rightarrow> set_task_progress now s)"

section \<open>The machine\<close>

datatype ('q, 'v, 'w, 'p) context_event =
    Durable_Call "(string, unit) result" "(string, bool) result" real "'q operation"
  | Get_Checkpoint
  | Get_Wait
  | Get_Progress
  | Set_Progress "(string, bool) result" real
  | Add_To_Group bool real
  | Checkpoints_Listed "(string, (string \<times> 'v task_checkpoint) list) result"
  | Waits_Listed "(string, (string \<times> 'w) list) result"
  | Progress_Read "(string, 'p) result"
  | Progress_Updated 'p
  | Checkpoint_Continues real nat
  | Operation_Ends nat "(string, 'v) result"
  | Statement_Answered nat "(string, ('v, 'w) statement_answer) result"
  | Execution_Forgotten nat
  | Attempt_Changes attempt_event

definition has_phase :: "nat \<Rightarrow> 'v execution_phase \<Rightarrow> ('q, 'v, 'w, 'p) handler_context \<Rightarrow> bool" where
  "has_phase x p s \<longleftrightarrow> x < length (executions s) \<and> phase_of (executions s ! x) = p"

fun is_ended :: "'v execution_phase \<Rightarrow> bool" where
  "is_ended (Ended _) = True"
| "is_ended _ = False"

text \<open>An event of an execution that is not in the phase it ends does not occur and changes nothing.\<close>

fun context_step ::
  "('q, 'v, 'w, 'p) context_event \<Rightarrow> ('q, 'v, 'w, 'p) handler_context \<Rightarrow> ('q, 'v, 'w, 'p) handler_context" where
  "context_step (Durable_Call checked answer now op) s = guarded_call checked answer now op s"
| "context_step Get_Checkpoint s = load_checkpoints s"
| "context_step Get_Wait s = load_waits s"
| "context_step Get_Progress s = get_progress s"
| "context_step (Set_Progress answer now) s = guarded_progress answer now s"
| "context_step (Add_To_Group supported now) s = snd (add_to_group supported now s)"
| "context_step (Checkpoints_Listed answer) s = checkpoints_listed answer s"
| "context_step (Waits_Listed answer) s = waits_listed answer s"
| "context_step (Progress_Read answer) s = progress_read answer s"
| "context_step (Progress_Updated p) s = progress_updated p s"
| "context_step (Checkpoint_Continues now x) s =
     (if has_phase x Awaiting_Checkpoints s then checkpoint_continues now x s else s)"
| "context_step (Operation_Ends x ended) s =
     (if has_phase x Running_Operation s then checkpoint_operation_ends x ended s else s)"
| "context_step (Statement_Answered x answer) s =
     (if has_phase x Awaiting_Statement s then statement_answered x answer s else s)"
| "context_step (Execution_Forgotten x) s =
     (if x < length (executions s) \<and> is_ended (phase_of (executions s ! x)) then forget_execution x s else s)"
| "context_step (Attempt_Changes e) s = s\<lparr>context_attempt := attempt_step e (context_attempt s)\<rparr>"

end
