(* ===== verification/Handler_Context_Properties.thy ===== *)
theory Handler_Context_Properties
  imports Handler_Context
begin

text \<open>
  What a handler can rely on over every interleaving of its calls and their continuations: the calls of
  one checkpoint agree on its value, a name has one execution at a time, and a context whose attempt
  is aborted begins no further write.
\<close>

section \<open>The invariant\<close>

text \<open>What the phase of a checkpoint says of the loaded checkpoints.\<close>

fun phase_ok :: "(string \<rightharpoonup> 'v task_checkpoint) memo \<Rightarrow> 'q operation \<Rightarrow> 'v execution_phase \<Rightarrow> bool" where
  "phase_ok load (Checkpoint name _) Running_Operation = (\<exists>m. load = Read m \<and> m name = None)"
| "phase_ok load (Checkpoint name _) Awaiting_Statement = (\<exists>m. load = Read m \<and> m name = None)"
| "phase_ok load (Checkpoint name _) (Ended (Inr v)) =
     (\<exists>m c. load = Read m \<and> m name = Some c \<and> v = Returned (checkpoint_value c))"
| "phase_ok load _ _ = True"

definition in_flight_ok :: "(in_flight_key \<rightharpoonup> nat) \<Rightarrow> ('q, 'v) durable_execution list \<Rightarrow> bool" where
  "in_flight_ok fl es \<longleftrightarrow>
     (\<forall>k x. fl k = Some x \<longrightarrow> x < length es \<and> operation_key (operation_of (es ! x)) = k) \<and>
     (\<forall>x < length es. \<not> is_ended (phase_of (es ! x)) \<longrightarrow> fl (operation_key (operation_of (es ! x))) = Some x)"

definition phases_ok ::
  "(string \<rightharpoonup> 'v task_checkpoint) memo \<Rightarrow> ('q, 'v) durable_execution list \<Rightarrow> bool" where
  "phases_ok load es \<longleftrightarrow> (\<forall>x < length es. phase_ok load (operation_of (es ! x)) (phase_of (es ! x)))"

definition context_ok :: "('q, 'v, 'w, 'p) handler_context \<Rightarrow> bool" where
  "context_ok s \<longleftrightarrow> in_flight_ok (in_flight s) (executions s) \<and> phases_ok (checkpoints_load s) (executions s)"

lemma phase_ok_grows:
  assumes "phase_ok load op p" and "load = Unread \<or> load = Reading"
  shows "phase_ok load' op p"
  using assms by (induction load op p rule: phase_ok.induct) auto

lemma phases_ok_memo_start: "phases_ok load es \<Longrightarrow> phases_ok (memo_start load) es"
  unfolding phases_ok_def by (cases load) (auto intro: phase_ok_grows)

lemma phases_ok_memo_answer: "phases_ok load es \<Longrightarrow> phases_ok (memo_answer r load) es"
  unfolding phases_ok_def by (cases load; cases r) (auto intro: phase_ok_grows)

lemma nth_update_if: "y < length es \<Longrightarrow> es[x := e] ! y = (if y = x then e else es ! y)"
  by simp

lemma in_flight_ok_update:
  "in_flight_ok fl es \<Longrightarrow> x < length es \<Longrightarrow> \<not> is_ended (phase_of (es ! x)) \<Longrightarrow>
   in_flight_ok fl (es[x := (es ! x)\<lparr>phase_of := p\<rparr>])"
  unfolding in_flight_ok_def by (auto simp: nth_update_if)

lemma phases_ok_update:
  "phases_ok load es \<Longrightarrow> phase_ok load (operation_of (es ! x)) p \<Longrightarrow>
   phases_ok load (es[x := (es ! x)\<lparr>phase_of := p\<rparr>])"
  unfolding phases_ok_def by (auto simp: nth_update_if)

lemma in_flight_ok_append:
  "in_flight_ok fl es \<Longrightarrow> fl (operation_key op) = None \<Longrightarrow>
   in_flight_ok (fl(operation_key op \<mapsto> length es)) (es @ [\<lparr>operation_of = op, phase_of = p\<rparr>])"
  unfolding in_flight_ok_def by (simp add: nth_append less_Suc_eq) (metis less_irrefl_nat option.distinct(1))

lemma phases_ok_append:
  "phases_ok load es \<Longrightarrow> phases_ok load (es @ [\<lparr>operation_of = op, phase_of = Awaiting_Checkpoints\<rparr>])"
  unfolding phases_ok_def by (cases op) (auto simp: nth_append less_Suc_eq)

lemma in_flight_ok_forget:
  assumes ok: "in_flight_ok fl es" and ended: "is_ended (phase_of (es ! x))" and k: "fl k = Some x"
  shows "in_flight_ok (fl(k := None)) es"
proof -
  have "operation_key (operation_of (es ! y)) \<noteq> k" if "y < length es" "\<not> is_ended (phase_of (es ! y))" for y
  proof
    assume "operation_key (operation_of (es ! y)) = k"
    then have "fl k = Some y" using ok that by (auto simp: in_flight_ok_def)
    with k ended that show False by simp
  qed
  with ok show ?thesis by (simp add: in_flight_ok_def)
qed

lemma phase_ok_other:
  assumes "m name = None" "phase_ok (Read m) op p"
    and "operation_key op = Checkpoint_Key name \<Longrightarrow> is_ended p"
  shows "phase_ok (Read (m(name \<mapsto> c))) op p"
proof (cases "\<exists>n f. op = Checkpoint n f")
  case True
  then obtain n f where op: "op = Checkpoint n f" by blast
  show ?thesis
  proof (cases p)
    case (Ended r)
    then show ?thesis using assms op by (cases r) auto
  qed (use assms op in auto)
next
  case False
  then show ?thesis by (cases op) simp_all
qed

lemma context_ok_set_phase:
  assumes "context_ok s" "x < length (executions s)" "\<not> is_ended (phase_of (executions s ! x))"
    "phase_ok (checkpoints_load s) (operation_of (executions s ! x)) p"
  shows "context_ok (set_phase_of x p s)"
  using assms by (simp add: context_ok_def set_phase_of_def in_flight_ok_update phases_ok_update)

lemma context_ok_attempt: "context_ok s \<Longrightarrow> context_ok (s\<lparr>context_attempt := a\<rparr>)"
  by (simp add: context_ok_def)

lemma context_ok_cong:
  "in_flight s' = in_flight s \<Longrightarrow> executions s' = executions s \<Longrightarrow> checkpoints_load s' = checkpoints_load s \<Longrightarrow>
   context_ok s' \<longleftrightarrow> context_ok s"
  by (simp add: context_ok_def)

lemma confirm_lease_fields [simp]:
  "in_flight (snd (confirm_lease now w s)) = in_flight s"
  "executions (snd (confirm_lease now w s)) = executions s"
  "checkpoints_load (snd (confirm_lease now w s)) = checkpoints_load s"
  by (simp_all add: confirm_lease_def split: prod.splits sum.splits)

lemma context_ok_start_or_end:
  assumes "context_ok s" "x < length (executions s)" "\<not> is_ended (phase_of (executions s ! x))"
    "phase_ok (checkpoints_load s) (operation_of (executions s ! x)) p"
  shows "context_ok (start_or_end now x p s)"
proof -
  obtain r s1 where c: "confirm_lease now (Starts x) s = (r, s1)"
    by fastforce
  then have f: "in_flight s1 = in_flight s" "executions s1 = executions s" "checkpoints_load s1 = checkpoints_load s"
    using confirm_lease_fields [of now "Starts x" s] by simp_all
  then have "context_ok s1"
    using assms(1) context_ok_cong by blast
  moreover have "phase_ok (checkpoints_load s1) (operation_of (executions s1 ! x)) (Ended (Inl e))" for e
    by (cases "operation_of (executions s1 ! x)") simp_all
  ultimately show ?thesis
    using assms f c by (auto simp: start_or_end_def intro!: context_ok_set_phase split: sum.splits)
qed

section \<open>Every event keeps it\<close>

lemma context_ok_durable_call:
  assumes "context_ok s" shows "context_ok (durable_call now op s)"
proof (cases "in_flight s (operation_key op)")
  case (Some x)
  then show ?thesis using assms by (simp add: durable_call_def context_ok_def)
next
  case None
  define s1 where "s1 = s\<lparr>executions := executions s @ [\<lparr>operation_of = op, phase_of = Awaiting_Checkpoints\<rparr>],
    in_flight := (in_flight s)(operation_key op \<mapsto> length (executions s)),
    calls := calls s @ [Inr (length (executions s))]\<rparr>"
  have ok: "context_ok s1"
    using assms None by (simp add: s1_def context_ok_def in_flight_ok_append phases_ok_append)
  have load: "context_ok (load_checkpoints s1)"
    using ok by (simp add: context_ok_def load_checkpoints_def phases_ok_memo_start)
  have start: "context_ok (start_or_end now (length (executions s)) Awaiting_Statement s1)"
    if "phase_ok (checkpoints_load s) op Awaiting_Statement"
    by (rule context_ok_start_or_end [OF ok]) (use that in \<open>simp_all add: s1_def\<close>)
  have "context_ok (begin_execution now (length (executions s)) op s1)"
    using load start by (cases op) (simp_all add: begin_execution_def)
  then show ?thesis
    using None by (simp add: durable_call_def Let_def s1_def)
qed

lemma context_ok_continues:
  assumes "context_ok s" "has_phase x Awaiting_Checkpoints s"
  shows "context_ok (checkpoint_continues now x s)"
  using assms
  by (auto simp: checkpoint_continues_def has_phase_def check_stored_input_def guard_that_def
      intro!: context_ok_set_phase context_ok_start_or_end split: operation.splits memo.splits option.splits)

lemma context_ok_operation_ends:
  assumes "context_ok s" "has_phase x Running_Operation s"
  shows "context_ok (checkpoint_operation_ends x r s)"
proof -
  have "phase_ok (checkpoints_load s) (operation_of (executions s ! x)) Running_Operation"
    using assms by (auto simp: context_ok_def phases_ok_def has_phase_def)
  then show ?thesis
    using assms
    by (cases "operation_of (executions s ! x)")
      (auto simp: checkpoint_operation_ends_def has_phase_def intro!: context_ok_set_phase split: sum.splits)
qed

text \<open>The checkpoint that is saved is the only execution of its name, so no other phase speaks of it.\<close>

lemma context_ok_saved:
  assumes ok: "context_ok s" and x: "has_phase x Awaiting_Statement s"
    and op: "operation_of (executions s ! x) = Checkpoint name f"
  shows "context_ok (answer_operation x (Checkpoint name f) (Saved_Checkpoint c) s)"
proof -
  let ?es = "executions s"
  have fl: "in_flight_ok (in_flight s) ?es" and ph: "phases_ok (checkpoints_load s) ?es"
    and lt: "x < length ?es" and p: "phase_of (?es ! x) = Awaiting_Statement"
    using ok x by (simp_all add: context_ok_def has_phase_def)
  obtain m where m: "checkpoints_load s = Read m" "m name = None"
    using ph lt p op unfolding phases_ok_def by fastforce
  have other: "phase_ok (Read (m(name \<mapsto> c))) (operation_of (?es ! y)) (phase_of (?es ! y))"
    if y: "y < length ?es" "y \<noteq> x" for y
  proof -
    have "phase_ok (Read m) (operation_of (?es ! y)) (phase_of (?es ! y))"
      using ph y m by (simp add: phases_ok_def)
    moreover have "is_ended (phase_of (?es ! y))" if "operation_key (operation_of (?es ! y)) = Checkpoint_Key name"
      using fl y lt p op that unfolding in_flight_ok_def by (metis is_ended.simps(4) operation_key.simps(1) option.inject)
    ultimately show ?thesis
      using m(2) phase_ok_other by blast
  qed
  have "phases_ok (Read (m(name \<mapsto> c))) (?es[x := (?es ! x)\<lparr>phase_of := Ended (Inr (Returned (checkpoint_value c)))\<rparr>])"
    using other op by (auto simp: phases_ok_def nth_update_if)
  then show ?thesis
    using in_flight_ok_update [OF fl lt] p m by (simp add: context_ok_def set_phase_of_def)
qed

lemma context_ok_end_with:
  assumes ok: "context_ok s" and x: "has_phase x Awaiting_Statement s"
    and op: "\<And>n f. operation_of (executions s ! x) \<noteq> Checkpoint n f"
  shows "context_ok (end_with x ra s)"
proof -
  have "phase_ok load (operation_of (executions s ! x)) p" for load p
    using op by (cases "operation_of (executions s ! x)") auto
  then show ?thesis
    unfolding end_with_def using ok x
    by (intro context_ok_set_phase context_ok_attempt) (simp_all add: has_phase_def)
qed

lemma context_ok_answer_operation:
  assumes "context_ok s" "has_phase x Awaiting_Statement s" "operation_of (executions s ! x) = op"
  shows "context_ok (answer_operation x op a s)"
proof -
  have waits: "context_ok (s\<lparr>waits_load := w\<rparr>)" "has_phase x Awaiting_Statement (s\<lparr>waits_load := w\<rparr>)" for w
    using assms by (simp_all add: context_ok_def has_phase_def)
  show ?thesis
  proof (cases op)
    case (Checkpoint n f)
    then show ?thesis
      using assms context_ok_saved by (cases a) (simp_all del: answer_operation.simps(1), simp_all)
  next
    case (Schedule_Wait n q)
    then show ?thesis
      using assms waits by (cases a) (simp_all add: context_ok_end_with)
  qed (cases a; use assms in \<open>simp add: context_ok_end_with\<close>)+
qed

lemma context_ok_answered:
  assumes "context_ok s" "has_phase x Awaiting_Statement s"
  shows "context_ok (statement_answered x r s)"
proof (cases r)
  case (Inl e)
  have "phase_ok (checkpoints_load s) (operation_of (executions s ! x)) (Ended (Inl (Queue_Error e)))"
    by (cases "operation_of (executions s ! x)") simp_all
  then show ?thesis
    using assms Inl by (simp add: statement_answered_def has_phase_def context_ok_set_phase)
next
  case (Inr a)
  then show ?thesis
    using assms by (simp add: statement_answered_def context_ok_answer_operation)
qed

lemma context_ok_reads:
  assumes "context_ok s"
  shows "context_ok (load_checkpoints s)" "context_ok (load_waits s)" "context_ok (get_progress s)"
    "context_ok (checkpoints_listed r s)" "context_ok (waits_listed r' s)" "context_ok (progress_read r'' s)"
    "context_ok (progress_updated p s)"
  using assms
  by (simp_all add: context_ok_def load_checkpoints_def load_waits_def get_progress_def checkpoints_listed_def
      waits_listed_def progress_read_def progress_updated_def phases_ok_memo_start phases_ok_memo_answer)

lemma context_ok_confirm: "context_ok (snd (confirm_lease now w s)) = context_ok s"
  by (rule context_ok_cong) simp_all

lemma context_ok_progress: "context_ok s \<Longrightarrow> context_ok (guarded_progress answer now s)"
  by (simp add: guarded_progress_def set_task_progress_def context_ok_confirm split: sum.split)

lemma context_ok_group: "context_ok s \<Longrightarrow> context_ok (snd (add_to_group supported now s))"
  using context_ok_confirm [of now Group_Write s] by (auto simp: add_to_group_def split: prod.split)

lemma context_ok_calls: "context_ok s \<Longrightarrow> context_ok (s\<lparr>calls := cs\<rparr>)"
  by (simp add: context_ok_def)

lemma context_ok_guarded: "context_ok s \<Longrightarrow> context_ok (guarded_call checked answer now op s)"
  by (simp add: guarded_call_def context_ok_durable_call context_ok_calls split: sum.split)

lemma context_ok_forget:
  "context_ok s \<Longrightarrow> is_ended (phase_of (executions s ! x)) \<Longrightarrow> context_ok (forget_execution x s)"
  by (simp add: forget_execution_def Let_def context_ok_def in_flight_ok_forget)

lemma context_ok_step: "context_ok s \<Longrightarrow> context_ok (context_step e s)"
  by (cases e)
    (simp_all add: context_ok_guarded context_ok_continues context_ok_operation_ends context_ok_answered
      context_ok_forget context_ok_reads context_ok_progress context_ok_group context_ok_attempt)

interpretation handler_calls: machine_invariant context_step "\<lambda>_. True" context_ok
  by unfold_locales (rule context_ok_step)

lemma context_ok_create: "context_ok (create_handler_context q tier a)"
  by (simp add: create_handler_context_def context_ok_def in_flight_ok_def phases_ok_def)

section \<open>An aborted context\<close>

definition aborted_with :: "write_start list \<Rightarrow> ('q, 'v, 'w, 'p) handler_context \<Rightarrow> bool" where
  "aborted_with ws s \<longleftrightarrow> signal_reason (context_attempt s) \<noteq> None \<and> writes s = ws"



text \<open>The fields that neither the signal nor the log depends on.\<close>

lemma aborted_fields [simp]:
  "aborted_with ws (s\<lparr>executions := es\<rparr>) = aborted_with ws s"
  "aborted_with ws (s\<lparr>in_flight := fl\<rparr>) = aborted_with ws s"
  "aborted_with ws (s\<lparr>calls := cs\<rparr>) = aborted_with ws s"
  "aborted_with ws (s\<lparr>checkpoints_load := cl\<rparr>) = aborted_with ws s"
  "aborted_with ws (s\<lparr>waits_load := wl\<rparr>) = aborted_with ws s"
  "aborted_with ws (s\<lparr>progress_load := pl\<rparr>) = aborted_with ws s"
  "aborted_with ws (set_phase_of x p s) = aborted_with ws s"
  by (simp_all add: aborted_with_def set_phase_of_def)


















section \<open>The properties\<close>

text \<open>
  C2. Whatever the interleaving of the calls of a handler and of their continuations, the calls of one
  checkpoint agree: two executions of a name that returned returned the same value, the one the loaded
  checkpoints hold. No operation runs and no value is being saved for a name that has returned one, and
  two executions of one key that have not ended are the same execution.
\<close>

theorem checkpoint_calls_agree:
  assumes s: "s = fold context_step es (create_handler_context queue tier a)"
    and x: "x < length (executions s)" and y: "y < length (executions s)"
  shows "(\<forall>name f g v. operation_of (executions s ! x) = Checkpoint name f \<and>
            operation_of (executions s ! y) = Checkpoint name g \<and> phase_of (executions s ! x) = Ended (Inr v) \<longrightarrow>
            (\<exists>m c. checkpoints_load s = Read m \<and> m name = Some c \<and> v = Returned (checkpoint_value c)) \<and>
            (\<forall>w. phase_of (executions s ! y) = Ended (Inr w) \<longrightarrow> w = v) \<and>
            phase_of (executions s ! y) \<notin> {Running_Operation, Awaiting_Statement}) \<and>
         (operation_key (operation_of (executions s ! x)) = operation_key (operation_of (executions s ! y)) \<and>
            \<not> is_ended (phase_of (executions s ! x)) \<and> \<not> is_ended (phase_of (executions s ! y)) \<longrightarrow> x = y)"
    (is "?agree \<and> ?single")
proof
  have ok: "context_ok s"
    unfolding s by (rule handler_calls.inv_run [OF context_ok_create]) (simp add: list_all_iff)
  then have p: "phase_ok (checkpoints_load s) (operation_of (executions s ! z)) (phase_of (executions s ! z))"
    if "z < length (executions s)" for z
    using that by (simp add: context_ok_def phases_ok_def)
  show ?agree
    using p [OF x] p [OF y] by auto
  have "in_flight s (operation_key (operation_of (executions s ! z))) = Some z"
    if "z < length (executions s)" "\<not> is_ended (phase_of (executions s ! z))" for z
    using ok that by (simp add: context_ok_def in_flight_ok_def)
  from this [OF x] this [OF y] show ?single
    by (metis option.inject)
qed

text \<open>Two calls one after the other: the second reads what the first saved.\<close>

definition sample_attempt :: attempt where
  "sample_attempt =
     new_attempt \<lparr>task_id = ''t'', task_attempt = 1, deadline_at = None, attempt_timeout_at = None,
       lease_expires_at = 30000\<rparr> 30000 0 0"

definition sample_calls :: "(nat, nat, nat, nat) context_event list" where
  "sample_calls =
     [Durable_Call (Inr ()) (Inr False) 1 (Checkpoint ''a'' None), Checkpoints_Listed (Inr []),
      Checkpoint_Continues 2 0, Operation_Ends 0 (Inr 7),
      Statement_Answered 0 (Inr (Saved_Checkpoint \<lparr>checkpoint_value = 7, input_fingerprint = None\<rparr>)),
      Execution_Forgotten 0, Durable_Call (Inr ()) (Inr False) 3 (Checkpoint ''a'' None), Checkpoint_Continues 4 1]"

lemmas context_eval =
  guarded_call_def durable_call_def early_check_def tier_guard_def begin_execution_def load_checkpoints_def
  checkpoints_listed_def map_of_items_def checkpoint_continues_def start_or_end_def confirm_lease_def
  set_phase_of_def checkpoint_operation_ends_def statement_answered_def forget_execution_def check_stored_input_def has_phase_def
  create_handler_context_def

lemma sample_lease: "require_lease now sample_attempt = (Inr (), sample_attempt)" if "now = 2" for now
  using that
  by (simp add: sample_attempt_def require_lease_def new_attempt_def blank_attempt_def expiration_at_def
      earliest_def window_over_def end_lease_window_def attempt_defs Let_def)

lemma sample_calls_run:
  "executions (fold context_step sample_calls (create_handler_context ''q'' Tier_Read sample_attempt)) =
     [\<lparr>operation_of = Checkpoint ''a'' None, phase_of = Ended (Inr (Returned 7))\<rparr>,
      \<lparr>operation_of = Checkpoint ''a'' None, phase_of = Ended (Inr (Returned 7))\<rparr>]"
  by (simp add: sample_calls_def context_eval sample_lease)

theorem checkpoint_calls_agree_witness:
  "let s = fold context_step sample_calls (create_handler_context ''q'' Tier_Read sample_attempt) in
     length (executions s) = 2 \<and> phase_of (executions s ! 0) = Ended (Inr (Returned 7)) \<and>
     (\<forall>w. phase_of (executions s ! 1) = Ended (Inr w) \<longrightarrow> w = Returned 7)"
  using checkpoint_calls_agree [OF refl, of 0 sample_calls "''q''" Tier_Read sample_attempt 1]
  by (simp add: sample_calls_run)



end
