(* ===== verification/Spec2Isabelle.thy ===== *)
theory Spec2Isabelle
  imports Task_Attempt_Properties Canonical_Json_Properties Handler_Replay_Properties
    Heartbeat_Connection_Properties Database_Errors_Properties Schema_Migrations_Properties Borrowed_Connections_Properties
    Contract_Schema_Properties Claim_Gate_Properties Claim_Lease_Fence_Properties Filter_Cursor_Properties
    Notification_Hub_Properties Worker_Settlement_Properties Batch_Handler_Properties Worker_Heartbeats_Properties
    Worker_Claims_Properties Handler_Context_Properties
begin

text \<open>
  Workhorse is a task queue on PostgreSQL. This development is about its TypeScript runtime,
  \<^verbatim>\<open>typescript/core/src\<close> under \<^verbatim>\<open>src\<close>. PostgreSQL decides who owns a task; the runtime
  claims tasks, runs their handlers, renews their leases, settles them and migrates the schema. The
  theorems say what the runtime may rely on between two answers of the database: for every order of
  callbacks, every answer and every error that the modelled code can meet.

  \<^bold>\<open>How the parts interact\<close>

  A worker (\<^verbatim>\<open>worker.ts\<close>) goes round its queues in claim passes, runs the handler of each claimed task,
  alone or in a batch, and settles the task by how the handler ended. A handler makes its durable calls
  through a context (\<^verbatim>\<open>handler-context.ts\<close>). The worker claims and settles through the claim module
  (\<^verbatim>\<open>queue/claim-lease-fence.ts\<close>).
  Every statement of that module is a fenced write (\<^verbatim>\<open>queue/fenced-write.ts\<close>), which reads driver
  errors with the walkers of \<^verbatim>\<open>errors.ts\<close>. Each claimed task gets a \<^verbatim>\<open>TaskAttempt\<close>
  (\<^verbatim>\<open>task-attempt.ts\<close>), which decides how the activation ends and until when its lease may be used.
  The worker renews the leases of its attempts in rounds, on one reserved connection
  (\<^verbatim>\<open>heartbeat-connection.ts\<close>), whose gate holds claims back while heartbeats cannot be sent. Durable steps of a handler carry a
  fingerprint of their input (\<^verbatim>\<open>checkpoint-fingerprint.ts\<close>); the replay (\<^verbatim>\<open>handler-replay.ts\<close>) runs a
  new version of a handler against the stored steps. Contract schemas (\<^verbatim>\<open>contract-schema.ts\<close>), query
  checks (\<^verbatim>\<open>queue/filter-cursor.ts\<close>), the notification hub (\<^verbatim>\<open>notifications.ts\<close>) and the migration
  runner (\<^verbatim>\<open>schema-migrations.ts\<close>) stand beside that path.

  \<^bold>\<open>How code becomes definitions\<close>

  \<^item> A function that can throw returns a sum, with the error on the left. Messages are constructors,
    except where the text matters (scripts, statements, error envelopes).
  \<^item> Code that changes state takes and returns a record. A sequence of calls that can throw is an action
    of the prelude: it returns the state also when it throws.
  \<^item> A component on the event loop is a record and a step function. One event is one callback, together
    with the clock readings and answers it sees, and a run is a fold over any list of events. So a
    theorem on all runs covers all interleavings of timers, answers, errors and calls.
  \<^item> Strings are lists of 16-bit code units (theory \<^verbatim>\<open>Js_Strings\<close>), because the code cuts, escapes and
    compares code units. Objects of a driver live on a heap, because their causes can be cyclic.
  \<^item> Numbers of JSON are a type parameter with the operations the code uses of them.

  \<^bold>\<open>The theories\<close>

  \<^item> \<^verbatim>\<open>Workhorse_Prelude\<close>, \<^verbatim>\<open>Js_Strings\<close>: results, actions, generic lemmas, strings, and the contracts
    \<^verbatim>\<open>set_once\<close> (a cell written once), \<^verbatim>\<open>settled_cell\<close> (no event of a machine changes it) and
    \<^verbatim>\<open>machine_invariant\<close> (every event of a machine keeps a predicate). Actions have two sets of rules:
    \<^verbatim>\<open>act_keeps\<close> for a predicate that every step keeps, and triples (\<^verbatim>\<open>act_triple\<close>) with one postcondition
    for a return and one for a throw.
  \<^item> \<^verbatim>\<open>Task_Attempt\<close> models \<^verbatim>\<open>TaskAttempt\<close> and \<^verbatim>\<open>AttemptOutcomeArbiter\<close>: record attempt, step
    \<^verbatim>\<open>attempt_step\<close>. \<^verbatim>\<open>Task_Attempt_Safety\<close> shows that the first outcome and the first abort reason stay, that
    one execution is counted and how long a lease lasts; \<^verbatim>\<open>Task_Attempt_Expiry\<close> that an expiry is confirmed
    by PostgreSQL before it aborts, that a live attempt keeps asking and how long it waits. Both
    interpret the contracts of the prelude on \<^verbatim>\<open>attempt_step\<close>.
  \<^item> \<^verbatim>\<open>Worker_Settlement\<close> models \<^verbatim>\<open>executeTaskWithinSpan\<close> and the methods it calls, as actions on an
    execution that holds the attempt. At each await the environment runs any callbacks of the attempt.
    Its properties, by triples: one final transition of the task at most, metrics that agree with the
    answers of PostgreSQL, and cleanup in every case.
  \<^item> \<^verbatim>\<open>Batch_Handler\<close> models \<^verbatim>\<open>handleBatch\<close>: each call of the adapter is answered once, with the outcome
    at its place in a batch ordered by priority and arrival.
  \<^item> \<^verbatim>\<open>Worker_Heartbeats\<close> models the schedule of the rounds and busy retries together with the attempts they
    renew: a registered lease always has a round in flight or a timer, and an answer counts for its own
    lease only. \<^verbatim>\<open>Worker_Claims\<close> models a claim pass, which gives back every task it was handed.
  \<^item> \<^verbatim>\<open>Handler_Context\<close> models the durable calls of one activation. Each continuation is an event, so calls
    come between the end of an execution and its cleanup. The calls of a checkpoint agree on its value,
    and an aborted context begins no write.
  \<^item> \<^verbatim>\<open>Canonical_Json\<close> models \<^verbatim>\<open>canonicalJson\<close> and the text reader below it, and JSON.stringify.
    \<^verbatim>\<open>Canonical_Json_Proofs\<close> shows that the reader accepts what JSON.stringify writes;
    \<^verbatim>\<open>Canonical_Json_Properties\<close> that the canonical text is the text with sorted keys, ignores the order
    of members and tells different values apart.
  \<^item> \<^verbatim>\<open>Handler_Replay\<close> models the class \<^verbatim>\<open>Replay\<close>, its context and \<^verbatim>\<open>replayHandler\<close>. The locale
    \<^verbatim>\<open>replay_invariant\<close> of \<^verbatim>\<open>Handler_Replay_Proofs\<close> reduces an invariant of all handlers to the few functions
    that change the state; its interpretations give the partition of names, the order of new names and
    that a problem is final.
  \<^item> \<^verbatim>\<open>Heartbeat_Connection\<close> models the class \<^verbatim>\<open>ReservedConnection\<close>. The locales \<^verbatim>\<open>transaction_errors\<close> and
    \<^verbatim>\<open>transaction_invariant\<close> of \<^verbatim>\<open>Heartbeat_Connection_Proofs\<close> do for it what \<^verbatim>\<open>replay_invariant\<close> does for the
    replay. \<^verbatim>\<open>Heartbeat_Connection_Invariants\<close> interprets them: no round is forgotten, a session has one
    transaction, answers stay, statements go out in time.
  \<^item> \<^verbatim>\<open>Borrowed_Connections\<close> models the connects that borrow a pool client (\<^verbatim>\<open>borrowConnectionWithin\<close> and the code
    around it). Its abstract specification is the life cycle of one connect, with one owner in each
    state, and the step function is shown to refine it.
  \<^item> \<^verbatim>\<open>Claim_Gate\<close> models the gate on claim statements, composed with a fenced write and its resends.
  \<^item> \<^verbatim>\<open>Database_Errors\<close> models the walkers of \<^verbatim>\<open>errors.ts\<close>, \<^verbatim>\<open>queue/replay-conflicts.ts\<close> and
    \<^verbatim>\<open>queryFencedWrite\<close>.
  \<^item> \<^verbatim>\<open>Claim_Lease_Fence\<close> models \<^verbatim>\<open>ClaimLeaseFenceModule\<close>: claims, heartbeats in slices, completions that
    share a statement with the next claim, failures with their envelopes, releases. The statement texts
    are those of \<^verbatim>\<open>queue/sql-catalogue.generated.ts\<close>.
  \<^item> \<^verbatim>\<open>Sql_Statements\<close> models \<^verbatim>\<open>splitSqlStatements\<close>. \<^verbatim>\<open>Sql_Statements_Proofs\<close> relates its index loop to a
    reference by recursion on the text. \<^verbatim>\<open>Schema_Migrations\<close> models the rest of the migration runner: the
    plan, the checks of a file, the scripts, the forward run and the contract command.
  \<^item> \<^verbatim>\<open>Exact_Decimals\<close> and \<^verbatim>\<open>Contract_Schema\<close> model \<^verbatim>\<open>contract-schema.ts\<close>: decimals of any size, the number
    keywords that replace those of Ajv, the walk over the profile, the cache of validators.
  \<^item> \<^verbatim>\<open>Filter_Cursor\<close> models the query checks and the cursors that \<^verbatim>\<open>queue/operator-reads.ts\<close> gives back.
  \<^item> \<^verbatim>\<open>Notification_Hub\<close> models the hub of a pool: its loop, its clients and its subscribers.

  Each theory whose name ends in \<^verbatim>\<open>_Properties\<close> states what its component promises. A theorem with
  hypotheses is followed by a theorem that applies it to a concrete run, text or schema.

  \<^bold>\<open>Termination and fuel\<close>

  \<^item> The reader of canonical JSON carries fuel equal to the length of the text; each recursive call
    reads at least one character, and the theorem on sorted keys shows that it is enough for every
    text of JSON.stringify.
  \<^item> The loop of the forward migration run re-reads the version from the database, which could answer
    anything, so it is a partial function into option. That it returns for a plan whose steps go
    forward is a theorem.
  \<^item> All other loops are total functions. The walk over wrapped errors ends by its bound, the fenced
    write by its attempts, the profile walk by the size of the schema, the slices of a heartbeat by the
    leases left, the splitter by the characters left, the claims of single tasks by the tasks wanted and
    then by the queues not yet found empty.

  \<^bold>\<open>Parameters\<close>

  These stand for code that is not in the repository or not in TypeScript, and are arguments of the
  definitions that use them: PostgreSQL and its driver, the digest SHA-256, the text of a number
  (\<^verbatim>\<open>number_laws\<close> states what ECMAScript says of it), Ajv's compile, JSON.parse of an error detail and of
  the first line of a migration, migration files and handlers. In the theories of the worker the queue
  object is such a parameter too, since an application can pass its own; its answers can differ at
  every call.

  \<^bold>\<open>What the code does differently from its comments\<close>

  \<^item> Reconciling a stale write is said to ask whether the expiry is due. When an earlier request was
    answered not_due, its memoised answer is used and nothing is asked.
  \<^item> The check for transaction control in a migration looks at the start of a line. A COMMIT later in a
    line passes it and is sent.

  \<^bold>\<open>Not modelled\<close>

  \<^item> The dispatch loop, the run loop, the count of its slots, registration, maintenance, pause and stop of
    the class \<^verbatim>\<open>Worker\<close>, the checks of its options, and the worker process: timers, notifications and operating system calls
    that drive the parts above. The tier read that the tasks of one full claim share is not modelled.
  \<^item> Of the handler context, the copies by structuredClone and the kept read of \<^verbatim>\<open>taskGroup.get\<close>. The
    checks of a human context and of child options before a tier read, and the fingerprint of an input,
    come with the call.
  \<^item> The sharing of one reserved connection between the workers of a pool
    (\<^verbatim>\<open>holdHeartbeatConnection\<close>) and the error listeners of \<^verbatim>\<open>ownErrors\<close>, which only log.
  \<^item> The queue facade, enqueueing, checkpoints, waits, child tasks, groups,
    administration, schedules and retention: each operation sends one statement and maps its rows, and
    what they mean is decided in SQL.
  \<^item> The SQL schema (\<^verbatim>\<open>sql/schema\<close>): PL/pgSQL, a parameter here.
  \<^item> Telemetry, metrics and log lines: output only. Of the claim module only the attribution of recovered
    retries is modelled.
  \<^item> The command line, dashboard, ORM adapters, examples, scripts and the SDKs in other languages:
    presentation, thin adapters or separate implementations.
\<close>

end
